theory Spec2Isabelle
  imports Main
begin

section \<open>Errors and panics\<close>

text \<open>
  A Go function of the code generator either returns a value, returns an \<open>error\<close> value,
  or panics. All three are results of the model: a panic is an error of its own class, so
  that "returns an error" and "crashes" stay distinguishable.
\<close>

datatype panic =
    PanicMsg string
  | NilDereference
  | IndexOutOfRange
  | TypeAssertion

section \<open>The concrete syntax tree (package parser)\<close>

record Position =
  Filename :: string
  Offset :: int
  Line :: int
  Column :: int

definition noPos :: Position where
  "noPos = \<lparr>Filename = [], Offset = 0, Line = 0, Column = 0\<rparr>"

definition shiftPosition :: "Position \<Rightarrow> int \<Rightarrow> int \<Rightarrow> Position" where
  "shiftPosition pos offset line =
     pos\<lparr>Offset := Offset pos + offset, Column := Column pos + offset, Line := Line pos + line\<rparr>"

type_synonym ObjType = string

datatype type_node = Type (ObjType: ObjType)

datatype ident = Ident (Name: string)

datatype error =
    ErrUnknownTarget string
  | ErrInvalidTarget ident
  | ErrExternal string
  | ErrRecursionLimit
  | Panic panic

fun is_panic :: "error \<Rightarrow> bool" where
  "is_panic (Panic p) = True"
| "is_panic e = False"

datatype numeric_lit = NumericLit (Value: int) (Base: int)

datatype basic_lit =
  BasicLit (Str: "string option") (Decimal: "int option")
           (Numeric: "numeric_lit option") (Bool: "bool option")

datatype field = Field (f_Variadic: bool) (f_Type: type_node) (f_Name: ident)

datatype newline = Newline string

datatype comment_group = CommentGroup "string list"

datatype close_brace = CloseBrace (cb_Pos: Position)

text \<open>
  The Go structs encode sums as structs of optional pointers; the model keeps the optional
  fields, so that a node with no alternative set (or a nil pointer) is a value of the model.
  \<open>AliasDecl\<close> holds back-references to its function and call statement; they are optional
  here as they are pointers there. Fields that no modelled function reads (doc comments,
  keyword and terminator nodes, positions of inner nodes) are left out.
\<close>

datatype expr =
  Expr (e_Ident: "ident option") (e_BasicLit: "basic_lit option") (e_FuncLit: "func_lit option")
and func_lit =
  FuncLit (fl_Type: type_node) (fl_Body: "block_stmt option")
and block_stmt =
  BlockStmt (bs_List: "stmt list") (bs_CloseBrace: "close_brace option")
and stmt =
  Stmt (Call: "call_stmt option") (s_Newline: "newline option") (s_Doc: "comment_group option")
and call_stmt =
  CallStmt (c_Pos: Position) (Func: ident) (Args: "expr list")
           (c_WithOpt: "with_opt option") (c_Alias: "alias_decl option")
and with_opt =
  WithOpt (w_Ident: "ident option") (w_FuncLit: "func_lit option")
and alias_decl =
  AliasDecl (a_Ident: ident) (a_Func: "func_decl option") (a_Call: "call_stmt option")
and func_decl =
  FuncDecl (d_Pos: Position) (d_Type: type_node) (d_Method: "type_node option")
           (d_Name: ident) (d_Params: "field list") (d_Body: "block_stmt option")

subsection \<open>Types\<close>

definition Filesystem :: ObjType where "Filesystem = ''fs''"
definition StrT :: ObjType where "StrT = ''string''"
definition IntT :: ObjType where "IntT = ''int''"
definition BoolT :: ObjType where "BoolT = ''bool''"
definition Option :: ObjType where "Option = ''option''"

text \<open>\<open>strings.Split(s, "::")[0]\<close>: the text before the first occurrence of \<open>::\<close>.\<close>

fun split_first :: "string \<Rightarrow> string" where
  "split_first (c1 # c2 # cs) =
     (if c1 = CHR '':'' \<and> c2 = CHR '':'' then [] else c1 # split_first (c2 # cs))"
| "split_first cs = cs"

definition Type_Type :: "type_node \<Rightarrow> ObjType" where
  "Type_Type t = split_first (ObjType t)"

subsection \<open>End positions\<close>

definition CloseBrace_End :: "close_brace option \<Rightarrow> error + Position" where
  "CloseBrace_End b =
     (case b of None \<Rightarrow> Inl (Panic NilDereference)
      | Some cb \<Rightarrow> Inr (shiftPosition (cb_Pos cb) 1 0))"

definition FuncDecl_Position :: "func_decl \<Rightarrow> Position" where
  "FuncDecl_Position d = d_Pos d"

definition FuncDecl_End :: "func_decl \<Rightarrow> error + Position" where
  "FuncDecl_End d =
     (case d_Body d of None \<Rightarrow> Inl (Panic NilDereference)
      | Some body \<Rightarrow> CloseBrace_End (bs_CloseBrace body))"

subsection \<open>Block statements\<close>

fun NonEmptyStmts_loop :: "stmt list \<Rightarrow> stmt list" where
  "NonEmptyStmts_loop [] = []"
| "NonEmptyStmts_loop (stmt # rest) =
     (if s_Newline stmt \<noteq> None \<or> s_Doc stmt \<noteq> None then NonEmptyStmts_loop rest
      else stmt # NonEmptyStmts_loop rest)"

definition NonEmptyStmts :: "block_stmt option \<Rightarrow> stmt list" where
  "NonEmptyStmts s = (case s of None \<Rightarrow> [] | Some b \<Rightarrow> NonEmptyStmts_loop (bs_List b))"

subsection \<open>Node constructors\<close>

definition NewType :: "ObjType \<Rightarrow> type_node" where
  "NewType typ = Type typ"

definition NewIdent :: "string \<Rightarrow> ident" where
  "NewIdent name = Ident name"

definition NewIdentExpr :: "string \<Rightarrow> expr" where
  "NewIdentExpr name = Expr (Some (NewIdent name)) None None"

definition NewStringExpr :: "string \<Rightarrow> expr" where
  "NewStringExpr v = Expr None (Some (BasicLit (Some v) None None None)) None"

definition NewDecimalExpr :: "int \<Rightarrow> expr" where
  "NewDecimalExpr v = Expr None (Some (BasicLit None (Some v) None None)) None"

definition NewBoolExpr :: "bool \<Rightarrow> expr" where
  "NewBoolExpr v = Expr None (Some (BasicLit None None None (Some v))) None"

definition NewFuncLit :: "ObjType \<Rightarrow> stmt list \<Rightarrow> func_lit" where
  "NewFuncLit typ stmts = FuncLit (NewType typ) (Some (BlockStmt stmts None))"

definition NewFuncLitExpr :: "ObjType \<Rightarrow> stmt list \<Rightarrow> expr" where
  "NewFuncLitExpr typ stmts = Expr None None (Some (NewFuncLit typ stmts))"

definition NewCallStmt ::
  "string \<Rightarrow> expr list \<Rightarrow> with_opt option \<Rightarrow> alias_decl option \<Rightarrow> stmt" where
  "NewCallStmt name args withOpt alias =
     Stmt (Some (CallStmt noPos (NewIdent name) args withOpt alias)) None None"

definition NewWithIdent :: "string \<Rightarrow> with_opt" where
  "NewWithIdent name = WithOpt (Some (NewIdent name)) None"

definition NewWithFuncLit :: "stmt list \<Rightarrow> with_opt" where
  "NewWithFuncLit stmts = WithOpt None (Some (NewFuncLit Option stmts))"

section \<open>The build graph (package llb) and evaluated values\<close>

text \<open>
  The build-graph library is an external collaborator. Its builder operations are the
  constructors of a free term algebra: a \<open>State\<close> is the operation that produced it applied
  to its arguments, and an option item is the library function that made it applied to its
  arguments. \<open>State_Run st opts\<close> is \<open>st.Run(opts...).Root()\<close> and \<open>State_GetMount st opts t\<close>
  is \<open>st.Run(opts...).GetMount(t)\<close>.
\<close>

datatype NetMode = NetMode_UNSET | NetMode_HOST | NetMode_NONE

datatype SecurityMode = SecurityMode_SANDBOX | SecurityMode_INSECURE

datatype CacheMountSharingMode = CacheMountShared | CacheMountPrivate | CacheMountLocked

datatype gotime = GoTime int

record CopyInfo =
  FollowSymlinks :: bool
  CopyDirContentsOnly :: bool
  AttemptUnpack :: bool
  CreateDestPath :: bool
  AllowWildcard :: bool
  AllowEmptyWildcard :: bool

definition emptyCopyInfo :: CopyInfo where
  "emptyCopyInfo = \<lparr>FollowSymlinks = False, CopyDirContentsOnly = False, AttemptUnpack = False,
     CreateDestPath = False, AllowWildcard = False, AllowEmptyWildcard = False\<rparr>"

datatype State =
    Scratch
  | Image string "item list"
  | HTTP string "item list"
  | Git string string "item list"
  | Local string "item list"
  | Frontend State "item list"
  | State_Run State "item list"
  | State_GetMount State "item list" string
  | State_AddEnv State string string
  | State_Dir State string
  | State_User State string
  | State_Args State "string list"
  | State_File State FileAction
and FileAction =
    Mkdir string int "item list"
  | Mkfile string int string "item list"
  | Rm string "item list"
  | Copy State string string "item list"
and item =
    WithDefault
  | Checksum string
  | Chmod int
  | llb_Filename string
  | KeepGitDir
  | IncludePatterns "string list"
  | ExcludePatterns "string list"
  | FollowPaths "string list"
  | IgnoreCache
  | WithFrontendInput string State
  | WithFrontendOpt string string
  | WithParents bool
  | WithUser string
  | WithCreatedTime gotime
  | WithAllowNotFound bool
  | WithAllowWildcard bool
  | CopyInfoPtr CopyInfo
  | ReadonlyRootFS
  | AddEnv string string
  | Dir string
  | User string
  | Network NetMode
  | Security SecurityMode
  | AddExtraHost string "string option"
  | AddSSHSocket "item list"
  | AddSecret string "item list"
  | AddMount string State "item list"
  | Shlex string
  | SSHID string
  | SSHSocketOpt string int int int
  | SecretID string
  | SecretFileOpt int int int
  | Readonly
  | Tmpfs
  | SourcePath string
  | AsPersistentCacheDir string CacheMountSharingMode
  | OpaqueOption string

text \<open>The option interfaces of the library that the evaluator asserts items against.\<close>

datatype opt_iface =
    ImageOption | HTTPOption | GitOption | LocalOption | FrontendOption | RunOption
  | SSHOption | SecretOption | MountOption | MkdirOption | MkfileOption | RmOption
  | CopyOption

text \<open>A value of Go's \<open>interface{}\<close> as the evaluator handles it.\<close>

datatype val =
    VNil
  | VState State
  | VStr string
  | VInt int
  | VBool bool
  | VOptions "item list"

definition os_FileMode :: "int \<Rightarrow> int" where
  "os_FileMode m = m mod 4294967296"

section \<open>Scopes\<close>

datatype ObjKind = DeclKind | FieldKind | ExprKind

datatype node =
    FuncDeclNode func_decl
  | AliasDeclNode alias_decl
  | FieldNode field
  | ImportDeclNode ident
  | OtherNode

record Object =
  Kind :: ObjKind
  Node :: node
  Data :: val

text \<open>
  Modelled from the spec: the scope type and its lookup are declared in a file of package
  parser that is not among the sources. A scope is a mapping from identifier name to an
  object with a kind, a node and data, plus a parent link; lookup walks the parent chain
  and the first hit wins.
\<close>

datatype Scope = Scope (Objects: "(string \<times> Object) list") (Parent: "Scope option")

fun Lookup :: "Scope \<Rightarrow> string \<Rightarrow> Object option" where
  "Lookup (Scope objs parent) name =
     (case map_of objs name of
        Some obj \<Rightarrow> Some obj
      | None \<Rightarrow> (case parent of None \<Rightarrow> None | Some p \<Rightarrow> Lookup p name))"

datatype File = File (file_Scope: Scope)

section \<open>Generator state\<close>

datatype debug_node = FileNode File | CallNode call_stmt

type_synonym Debugger = "Scope \<Rightarrow> debug_node \<Rightarrow> val \<Rightarrow> error option"

text \<open>
  \<open>CodeGenInfo\<close> is the struct of the source. The evaluator also mutates state outside it:
  the identifier generator of package identity (\<open>idgen\<close>, the number of identifiers drawn
  so far) and whatever the alias callbacks capture (\<open>captured\<close>). The record \<open>env\<close> extends
  \<open>CodeGenInfo\<close> by both, and every evaluator function passes it along.
\<close>

record CodeGenInfo =
  Debug :: Debugger
  Locals :: "string \<rightharpoonup> string"

record env = CodeGenInfo +
  idgen :: nat
  captured :: "(call_stmt \<times> val) list"

type_synonym 'a M = "env \<Rightarrow> (error + 'a) \<times> env"

definition ret :: "'a \<Rightarrow> 'a M" where
  "ret x = (\<lambda>s. (Inr x, s))"

definition throw :: "error \<Rightarrow> 'a M" where
  "throw e = (\<lambda>s. (Inl e, s))"

definition bnd :: "'a M \<Rightarrow> ('a \<Rightarrow> 'b M) \<Rightarrow> 'b M" where
  "bnd m f = (\<lambda>s. case m s of (Inl e, s') \<Rightarrow> (Inl e, s') | (Inr x, s') \<Rightarrow> f x s')"

definition lift :: "error + 'a \<Rightarrow> 'a M" where
  "lift r = (\<lambda>s. (r, s))"

definition modify :: "(env \<Rightarrow> env) \<Rightarrow> unit M" where
  "modify f = (\<lambda>s. (Inr (), f s))"

text \<open>\<open>info.Debug(scope, node, v)\<close> followed by the return of its error.\<close>

definition debugHook :: "Scope \<Rightarrow> debug_node \<Rightarrow> val \<Rightarrow> unit M" where
  "debugHook scope n v =
     (\<lambda>s. case Debug s scope n v of Some e \<Rightarrow> (Inl e, s) | None \<Rightarrow> (Inr (), s))"

text \<open>\<open>xs[i]\<close>: a panic when the index is out of range.\<close>

definition index :: "'a list \<Rightarrow> nat \<Rightarrow> 'a M" where
  "index xs i = (if i < length xs then ret (xs ! i) else throw (Panic IndexOutOfRange))"

fun mapM :: "('a \<Rightarrow> 'b M) \<Rightarrow> 'a list \<Rightarrow> 'b list M" where
  "mapM f [] = ret []"
| "mapM f (x # xs) = bnd (f x) (\<lambda>y. bnd (mapM f xs) (\<lambda>ys. ret (y # ys)))"

type_synonym aliasCallback = "call_stmt \<Rightarrow> val \<Rightarrow> env \<Rightarrow> env"

definition noopAliasCallback :: aliasCallback where
  "noopAliasCallback c v = (\<lambda>s. s)"

text \<open>A callback that captures its arguments, to observe the calls the evaluator makes.\<close>

definition captureAlias :: aliasCallback where
  "captureAlias c v = (\<lambda>s. s\<lparr>captured := captured s @ [(c, v)]\<rparr>)"

definition NewNoopDebugger :: Debugger where
  "NewNoopDebugger = (\<lambda>scope n v. None)"

section \<open>What the evaluator takes from outside\<close>

text \<open>
  External libraries and tables of package report that the sources do not hold are
  parameters of the model: the debug names and the builtin table of package report, the
  shell quoting of go-shellquote, \<open>fmt.Sprintf\<close>, \<open>time.Parse\<close> with the RFC 3339 layout,
  \<open>net.ParseIP\<close>, the identifier generator (the \<open>n\<close>-th identifier it draws) and which
  option interfaces an item implements.
\<close>

record extern =
  Debugs :: "string list"
  Builtins :: "ObjType \<Rightarrow> string \<Rightarrow> bool"
  Split :: "string \<Rightarrow> error + string list"
  Join :: "string list \<Rightarrow> string"
  Sprintf :: "string \<Rightarrow> string list \<Rightarrow> string"
  ParseRFC3339 :: "string \<Rightarrow> error + gotime"
  ParseIP :: "string \<Rightarrow> string option"
  NewID :: "nat \<Rightarrow> string"
  implements :: "item \<Rightarrow> opt_iface \<Rightarrow> bool"

text \<open>
  The functions of package codegen that the sources call but do not hold are parameters as
  well, with the signatures of their call sites (the \<open>info\<close> argument is the state).
\<close>

record evaluators =
  emitStringExpr :: "Scope \<Rightarrow> call_stmt \<Rightarrow> expr \<Rightarrow> string M"
  emitIntExpr :: "Scope \<Rightarrow> expr \<Rightarrow> int M"
  maybeEmitBoolExpr :: "Scope \<Rightarrow> expr list \<Rightarrow> bool M"
  emitFilesystemExpr :: "Scope \<Rightarrow> call_stmt option \<Rightarrow> expr \<Rightarrow> aliasCallback \<Rightarrow> State M"
  emitOptionExpr :: "Scope \<Rightarrow> call_stmt \<Rightarrow> string \<Rightarrow> expr \<Rightarrow> item list M"
  emitFuncDecl :: "Scope \<Rightarrow> func_decl \<Rightarrow> call_stmt \<Rightarrow> string \<Rightarrow> aliasCallback \<Rightarrow> val M"
  emitAliasDecl :: "Scope \<Rightarrow> alias_decl \<Rightarrow> call_stmt \<Rightarrow> val M"
  emitFilesystemFuncDecl ::
    "Scope \<Rightarrow> func_decl \<Rightarrow> call_stmt \<Rightarrow> aliasCallback \<Rightarrow> env \<Rightarrow> (panic + State \<times> error option) \<times> env"
  emitFilesystemAliasDecl ::
    "Scope \<Rightarrow> alias_decl \<Rightarrow> call_stmt \<Rightarrow> env \<Rightarrow> (panic + State \<times> error option) \<times> env"

text \<open>
  Modelled from the spec: \<open>report.Contains\<close> is not among the sources; the block evaluator
  uses it to test whether a call's name is in the fixed set of debug-family calls.
\<close>

definition Contains :: "string list \<Rightarrow> string \<Rightarrow> bool" where
  "Contains xs x = (x \<in> set xs)"

text \<open>
  The loop \<open>for _, iopt := range iopts { opts = append(opts, iopt.(I)) }\<close>: it copies the
  items, and panics at the first one that does not implement the interface.
\<close>

fun assertOptions :: "extern \<Rightarrow> opt_iface \<Rightarrow> item list \<Rightarrow> error + item list" where
  "assertOptions X I [] = Inr []"
| "assertOptions X I (iopt # iopts) =
     (if implements X iopt I then
        (case assertOptions X I iopts of Inl e \<Rightarrow> Inl e | Inr opts \<Rightarrow> Inr (iopt # opts))
      else Inl (Panic TypeAssertion))"

text \<open>
  The loop shared by the option emitters:
  \<open>for _, stmt := range stmts { switch { case stmt.Call != nil: ... } }\<close>.
  A statement without a call is passed over.
\<close>

fun forStmts :: "(call_stmt \<Rightarrow> 'a \<Rightarrow> 'a M) \<Rightarrow> stmt list \<Rightarrow> 'a \<Rightarrow> 'a M" where
  "forStmts f [] acc = ret acc"
| "forStmts f (stmt # rest) acc =
     (case Call stmt of
        None \<Rightarrow> forStmts f rest acc
      | Some c \<Rightarrow> bnd (f c acc) (forStmts f rest))"

section \<open>Option emitters (package codegen)\<close>

text \<open>The call every option emitter makes for a name it does not know.\<close>

definition emitOptionDefault ::
  "evaluators \<Rightarrow> Scope \<Rightarrow> string \<Rightarrow> call_stmt \<Rightarrow> item list \<Rightarrow> item list M" where
  "emitOptionDefault ev scope op c opts =
     bnd (emitOptionExpr ev scope c op (NewIdentExpr (Name (Func c))))
       (\<lambda>iopts. ret (opts @ iopts))"

definition createdTime ::
  "extern \<Rightarrow> evaluators \<Rightarrow> Scope \<Rightarrow> call_stmt \<Rightarrow> item list \<Rightarrow> item list M" where
  "createdTime X ev scope c opts =
     bnd (index (Args c) 0) (\<lambda>a0.
     bnd (emitStringExpr ev scope c a0) (\<lambda>v.
     bnd (lift (ParseRFC3339 X v)) (\<lambda>t.
     ret (opts @ [WithCreatedTime t]))))"

definition chown ::
  "evaluators \<Rightarrow> Scope \<Rightarrow> call_stmt \<Rightarrow> item list \<Rightarrow> item list M" where
  "chown ev scope c opts =
     bnd (index (Args c) 0) (\<lambda>a0.
     bnd (emitStringExpr ev scope c a0) (\<lambda>owner.
     ret (opts @ [WithUser owner])))"

definition emitImageOptions_stmt ::
  "extern \<Rightarrow> evaluators \<Rightarrow> Scope \<Rightarrow> string \<Rightarrow> call_stmt \<Rightarrow> item list \<Rightarrow> item list M" where
  "emitImageOptions_stmt X ev scope op c opts =
     (if Name (Func c) = ''resolve'' then
        bnd (maybeEmitBoolExpr ev scope (Args c)) (\<lambda>v.
        ret (if v then opts @ [WithDefault] else opts))
      else emitOptionDefault ev scope op c opts)"

definition emitImageOptions ::
  "extern \<Rightarrow> evaluators \<Rightarrow> Scope \<Rightarrow> string \<Rightarrow> stmt list \<Rightarrow> item list M" where
  "emitImageOptions X ev scope op stmts = forStmts (emitImageOptions_stmt X ev scope op) stmts []"

definition emitHTTPOptions_stmt ::
  "extern \<Rightarrow> evaluators \<Rightarrow> Scope \<Rightarrow> string \<Rightarrow> call_stmt \<Rightarrow> item list \<Rightarrow> item list M" where
  "emitHTTPOptions_stmt X ev scope op c opts =
     (if Name (Func c) = ''checksum'' then
        bnd (index (Args c) 0) (\<lambda>a0.
        bnd (emitStringExpr ev scope c a0) (\<lambda>dgst.
        ret (opts @ [Checksum dgst])))
      else if Name (Func c) = ''chmod'' then
        bnd (index (Args c) 0) (\<lambda>a0.
        bnd (emitIntExpr ev scope a0) (\<lambda>mode.
        ret (opts @ [Chmod (os_FileMode mode)])))
      else if Name (Func c) = ''filename'' then
        bnd (index (Args c) 0) (\<lambda>a0.
        bnd (emitStringExpr ev scope c a0) (\<lambda>filename.
        ret (opts @ [llb_Filename filename])))
      else emitOptionDefault ev scope op c opts)"

definition emitHTTPOptions ::
  "extern \<Rightarrow> evaluators \<Rightarrow> Scope \<Rightarrow> string \<Rightarrow> stmt list \<Rightarrow> item list M" where
  "emitHTTPOptions X ev scope op stmts = forStmts (emitHTTPOptions_stmt X ev scope op) stmts []"

definition emitGitOptions_stmt ::
  "extern \<Rightarrow> evaluators \<Rightarrow> Scope \<Rightarrow> string \<Rightarrow> call_stmt \<Rightarrow> item list \<Rightarrow> item list M" where
  "emitGitOptions_stmt X ev scope op c opts =
     (if Name (Func c) = ''keepGitDir'' then
        bnd (maybeEmitBoolExpr ev scope (Args c)) (\<lambda>v.
        ret (if v then opts @ [KeepGitDir] else opts))
      else emitOptionDefault ev scope op c opts)"

definition emitGitOptions ::
  "extern \<Rightarrow> evaluators \<Rightarrow> Scope \<Rightarrow> string \<Rightarrow> stmt list \<Rightarrow> item list M" where
  "emitGitOptions X ev scope op stmts = forStmts (emitGitOptions_stmt X ev scope op) stmts []"

definition emitLocalOptions_stmt ::
  "extern \<Rightarrow> evaluators \<Rightarrow> Scope \<Rightarrow> string \<Rightarrow> call_stmt \<Rightarrow> item list \<Rightarrow> item list M" where
  "emitLocalOptions_stmt X ev scope op c opts =
     (if Name (Func c) = ''includePatterns'' then
        bnd (mapM (emitStringExpr ev scope c) (Args c)) (\<lambda>patterns.
        ret (opts @ [IncludePatterns patterns]))
      else if Name (Func c) = ''excludePatterns'' then
        bnd (mapM (emitStringExpr ev scope c) (Args c)) (\<lambda>patterns.
        ret (opts @ [ExcludePatterns patterns]))
      else if Name (Func c) = ''followPaths'' then
        bnd (mapM (emitStringExpr ev scope c) (Args c)) (\<lambda>paths.
        ret (opts @ [FollowPaths paths]))
      else emitOptionDefault ev scope op c opts)"

definition emitLocalOptions ::
  "extern \<Rightarrow> evaluators \<Rightarrow> Scope \<Rightarrow> string \<Rightarrow> stmt list \<Rightarrow> item list M" where
  "emitLocalOptions X ev scope op stmts = forStmts (emitLocalOptions_stmt X ev scope op) stmts []"

definition emitGenerateOptions_stmt ::
  "extern \<Rightarrow> evaluators \<Rightarrow> Scope \<Rightarrow> string \<Rightarrow> aliasCallback \<Rightarrow> call_stmt \<Rightarrow> item list
     \<Rightarrow> item list M" where
  "emitGenerateOptions_stmt X ev scope op ac c opts =
     (if Name (Func c) = ''frontendInput'' then
        bnd (index (Args c) 0) (\<lambda>a0.
        bnd (emitStringExpr ev scope c a0) (\<lambda>key.
        bnd (index (Args c) 1) (\<lambda>a1.
        bnd (emitFilesystemExpr ev scope None a1 ac) (\<lambda>value.
        ret (opts @ [WithFrontendInput key value])))))
      else if Name (Func c) = ''frontendOpt'' then
        bnd (index (Args c) 0) (\<lambda>a0.
        bnd (emitStringExpr ev scope c a0) (\<lambda>key.
        bnd (index (Args c) 1) (\<lambda>a1.
        bnd (emitStringExpr ev scope c a1) (\<lambda>value.
        ret (opts @ [WithFrontendOpt key value])))))
      else emitOptionDefault ev scope op c opts)"

definition emitGenerateOptions ::
  "extern \<Rightarrow> evaluators \<Rightarrow> Scope \<Rightarrow> string \<Rightarrow> stmt list \<Rightarrow> aliasCallback \<Rightarrow> item list M" where
  "emitGenerateOptions X ev scope op stmts ac =
     forStmts (emitGenerateOptions_stmt X ev scope op ac) stmts []"

definition emitMkdirOptions_stmt ::
  "extern \<Rightarrow> evaluators \<Rightarrow> Scope \<Rightarrow> string \<Rightarrow> call_stmt \<Rightarrow> item list \<Rightarrow> item list M" where
  "emitMkdirOptions_stmt X ev scope op c opts =
     (if Name (Func c) = ''createParents'' then
        bnd (maybeEmitBoolExpr ev scope (Args c)) (\<lambda>v.
        ret (opts @ [WithParents v]))
      else if Name (Func c) = ''chown'' then chown ev scope c opts
      else if Name (Func c) = ''createdTime'' then createdTime X ev scope c opts
      else emitOptionDefault ev scope op c opts)"

definition emitMkdirOptions ::
  "extern \<Rightarrow> evaluators \<Rightarrow> Scope \<Rightarrow> string \<Rightarrow> stmt list \<Rightarrow> item list M" where
  "emitMkdirOptions X ev scope op stmts = forStmts (emitMkdirOptions_stmt X ev scope op) stmts []"

definition emitMkfileOptions_stmt ::
  "extern \<Rightarrow> evaluators \<Rightarrow> Scope \<Rightarrow> string \<Rightarrow> call_stmt \<Rightarrow> item list \<Rightarrow> item list M" where
  "emitMkfileOptions_stmt X ev scope op c opts =
     (if Name (Func c) = ''chown'' then chown ev scope c opts
      else if Name (Func c) = ''createdTime'' then createdTime X ev scope c opts
      else emitOptionDefault ev scope op c opts)"

definition emitMkfileOptions ::
  "extern \<Rightarrow> evaluators \<Rightarrow> Scope \<Rightarrow> string \<Rightarrow> stmt list \<Rightarrow> item list M" where
  "emitMkfileOptions X ev scope op stmts = forStmts (emitMkfileOptions_stmt X ev scope op) stmts []"

definition emitRmOptions_stmt ::
  "extern \<Rightarrow> evaluators \<Rightarrow> Scope \<Rightarrow> string \<Rightarrow> call_stmt \<Rightarrow> item list \<Rightarrow> item list M" where
  "emitRmOptions_stmt X ev scope op c opts =
     (if Name (Func c) = ''allowNotFound'' then
        bnd (maybeEmitBoolExpr ev scope (Args c)) (\<lambda>v.
        ret (opts @ [WithAllowNotFound v]))
      else if Name (Func c) = ''allowWildcard'' then
        bnd (maybeEmitBoolExpr ev scope (Args c)) (\<lambda>v.
        ret (opts @ [WithAllowWildcard v]))
      else emitOptionDefault ev scope op c opts)"

definition emitRmOptions ::
  "extern \<Rightarrow> evaluators \<Rightarrow> Scope \<Rightarrow> string \<Rightarrow> stmt list \<Rightarrow> item list M" where
  "emitRmOptions X ev scope op stmts = forStmts (emitRmOptions_stmt X ev scope op) stmts []"

text \<open>\<open>emitCopyOptions\<close> fills one \<open>CopyInfo\<close> and puts it in front of the other items.\<close>

definition setCopyInfo ::
  "evaluators \<Rightarrow> Scope \<Rightarrow> call_stmt \<Rightarrow> CopyInfo \<times> item list \<Rightarrow> (bool \<Rightarrow> CopyInfo \<Rightarrow> CopyInfo)
     \<Rightarrow> (CopyInfo \<times> item list) M" where
  "setCopyInfo ev scope c acc upd =
     bnd (maybeEmitBoolExpr ev scope (Args c)) (\<lambda>v. ret (upd v (fst acc), snd acc))"

definition emitCopyOptions_stmt ::
  "extern \<Rightarrow> evaluators \<Rightarrow> Scope \<Rightarrow> string \<Rightarrow> call_stmt \<Rightarrow> CopyInfo \<times> item list
     \<Rightarrow> (CopyInfo \<times> item list) M" where
  "emitCopyOptions_stmt X ev scope op c acc =
     (if Name (Func c) = ''followSymlinks'' then
        setCopyInfo ev scope c acc (\<lambda>v cp. cp\<lparr>FollowSymlinks := v\<rparr>)
      else if Name (Func c) = ''contentsOnly'' then
        setCopyInfo ev scope c acc (\<lambda>v cp. cp\<lparr>CopyDirContentsOnly := v\<rparr>)
      else if Name (Func c) = ''unpack'' then
        setCopyInfo ev scope c acc (\<lambda>v cp. cp\<lparr>AttemptUnpack := v\<rparr>)
      else if Name (Func c) = ''createDestPath'' then
        setCopyInfo ev scope c acc (\<lambda>v cp. cp\<lparr>CreateDestPath := v\<rparr>)
      else if Name (Func c) = ''allowWildcards'' then
        setCopyInfo ev scope c acc (\<lambda>v cp. cp\<lparr>AllowWildcard := v\<rparr>)
      else if Name (Func c) = ''allowEmptyWildcard'' then
        setCopyInfo ev scope c acc (\<lambda>v cp. cp\<lparr>AllowEmptyWildcard := v\<rparr>)
      else if Name (Func c) = ''chown'' then
        bnd (chown ev scope c (snd acc)) (\<lambda>opts. ret (fst acc, opts))
      else if Name (Func c) = ''createdTime'' then
        bnd (createdTime X ev scope c (snd acc)) (\<lambda>opts. ret (fst acc, opts))
      else bnd (emitOptionDefault ev scope op c (snd acc)) (\<lambda>opts. ret (fst acc, opts)))"

definition emitCopyOptions ::
  "extern \<Rightarrow> evaluators \<Rightarrow> Scope \<Rightarrow> string \<Rightarrow> stmt list \<Rightarrow> item list M" where
  "emitCopyOptions X ev scope op stmts =
     bnd (forStmts (emitCopyOptions_stmt X ev scope op) stmts (emptyCopyInfo, []))
       (\<lambda>acc. ret (CopyInfoPtr (fst acc) # snd acc))"

record sshSocketOpt =
  target :: string
  uid :: int
  gid :: int
  mode :: int

definition newSocketOpt :: sshSocketOpt where
  "newSocketOpt = \<lparr>target = [], uid = 0, gid = 0, mode = 0\<rparr>"

text \<open>\<open>if sopt == nil { sopt = &sshSocketOpt{} }\<close>\<close>

definition orNew :: "sshSocketOpt option \<Rightarrow> sshSocketOpt" where
  "orNew sopt = (case sopt of None \<Rightarrow> newSocketOpt | Some so \<Rightarrow> so)"

definition emitSSHOptions_stmt ::
  "extern \<Rightarrow> evaluators \<Rightarrow> Scope \<Rightarrow> string \<Rightarrow> call_stmt \<Rightarrow> sshSocketOpt option \<times> item list
     \<Rightarrow> (sshSocketOpt option \<times> item list) M" where
  "emitSSHOptions_stmt X ev scope op c acc =
     (if Name (Func c) = ''target'' then
        bnd (index (Args c) 0) (\<lambda>a0.
        bnd (emitStringExpr ev scope c a0) (\<lambda>t.
        ret (Some ((orNew (fst acc))\<lparr>target := t\<rparr>), snd acc)))
      else if Name (Func c) = ''id'' then
        bnd (index (Args c) 0) (\<lambda>a0.
        bnd (emitStringExpr ev scope c a0) (\<lambda>i.
        ret (fst acc, snd acc @ [SSHID i])))
      else if Name (Func c) = ''uid'' then
        bnd (index (Args c) 0) (\<lambda>a0.
        bnd (emitIntExpr ev scope a0) (\<lambda>u.
        ret (Some ((orNew (fst acc))\<lparr>uid := u\<rparr>), snd acc)))
      else if Name (Func c) = ''gid'' then
        bnd (index (Args c) 0) (\<lambda>a0.
        bnd (emitIntExpr ev scope a0) (\<lambda>g.
        ret (Some ((orNew (fst acc))\<lparr>gid := g\<rparr>), snd acc)))
      else if Name (Func c) = ''mode'' then
        bnd (index (Args c) 0) (\<lambda>a0.
        bnd (emitIntExpr ev scope a0) (\<lambda>m.
        ret (Some ((orNew (fst acc))\<lparr>mode := os_FileMode m\<rparr>), snd acc)))
      else bnd (emitOptionDefault ev scope op c (snd acc)) (\<lambda>opts. ret (fst acc, opts)))"

definition emitSSHOptions ::
  "extern \<Rightarrow> evaluators \<Rightarrow> Scope \<Rightarrow> string \<Rightarrow> stmt list \<Rightarrow> item list M" where
  "emitSSHOptions X ev scope op stmts =
     bnd (forStmts (emitSSHOptions_stmt X ev scope op) stmts (None, []))
       (\<lambda>acc. ret (case fst acc of
                     None \<Rightarrow> snd acc
                   | Some so \<Rightarrow> snd acc @ [SSHSocketOpt (target so) (uid so) (gid so) (mode so)]))"

text \<open>\<open>secretOpt\<close> has the fields of \<open>sshSocketOpt\<close> but the target, which stays empty here.\<close>

definition emitSecretOptions_stmt ::
  "extern \<Rightarrow> evaluators \<Rightarrow> Scope \<Rightarrow> string \<Rightarrow> call_stmt \<Rightarrow> sshSocketOpt option \<times> item list
     \<Rightarrow> (sshSocketOpt option \<times> item list) M" where
  "emitSecretOptions_stmt X ev scope op c acc =
     (if Name (Func c) = ''id'' then
        bnd (index (Args c) 0) (\<lambda>a0.
        bnd (emitStringExpr ev scope c a0) (\<lambda>i.
        ret (fst acc, snd acc @ [SecretID i])))
      else if Name (Func c) = ''uid'' then
        bnd (index (Args c) 0) (\<lambda>a0.
        bnd (emitIntExpr ev scope a0) (\<lambda>u.
        ret (Some ((orNew (fst acc))\<lparr>uid := u\<rparr>), snd acc)))
      else if Name (Func c) = ''gid'' then
        bnd (index (Args c) 0) (\<lambda>a0.
        bnd (emitIntExpr ev scope a0) (\<lambda>g.
        ret (Some ((orNew (fst acc))\<lparr>gid := g\<rparr>), snd acc)))
      else if Name (Func c) = ''mode'' then
        bnd (index (Args c) 0) (\<lambda>a0.
        bnd (emitIntExpr ev scope a0) (\<lambda>m.
        ret (Some ((orNew (fst acc))\<lparr>mode := os_FileMode m\<rparr>), snd acc)))
      else bnd (emitOptionDefault ev scope op c (snd acc)) (\<lambda>opts. ret (fst acc, opts)))"

definition emitSecretOptions ::
  "extern \<Rightarrow> evaluators \<Rightarrow> Scope \<Rightarrow> string \<Rightarrow> stmt list \<Rightarrow> item list M" where
  "emitSecretOptions X ev scope op stmts =
     bnd (forStmts (emitSecretOptions_stmt X ev scope op) stmts (None, []))
       (\<lambda>acc. ret (case fst acc of
                     None \<Rightarrow> snd acc
                   | Some so \<Rightarrow> snd acc @ [SecretFileOpt (uid so) (gid so) (mode so)]))"

definition sharingMode :: "string \<Rightarrow> error + CacheMountSharingMode" where
  "sharingMode m =
     (if m = ''shared'' then Inr CacheMountShared
      else if m = ''private'' then Inr CacheMountPrivate
      else if m = ''locked'' then Inr CacheMountLocked
      else Inl (Panic (PanicMsg ''unknown sharing mode'')))"

definition emitMountOptions_stmt ::
  "extern \<Rightarrow> evaluators \<Rightarrow> Scope \<Rightarrow> string \<Rightarrow> call_stmt \<Rightarrow> item list \<Rightarrow> item list M" where
  "emitMountOptions_stmt X ev scope op c opts =
     (if Name (Func c) = ''readonly'' then
        bnd (maybeEmitBoolExpr ev scope (Args c)) (\<lambda>v.
        ret (if v then opts @ [Readonly] else opts))
      else if Name (Func c) = ''tmpfs'' then
        bnd (maybeEmitBoolExpr ev scope (Args c)) (\<lambda>v.
        ret (if v then opts @ [Tmpfs] else opts))
      else if Name (Func c) = ''sourcePath'' then
        bnd (index (Args c) 0) (\<lambda>a0.
        bnd (emitStringExpr ev scope c a0) (\<lambda>path.
        ret (opts @ [SourcePath path])))
      else if Name (Func c) = ''cache'' then
        bnd (index (Args c) 0) (\<lambda>a0.
        bnd (emitStringExpr ev scope c a0) (\<lambda>i.
        bnd (index (Args c) 1) (\<lambda>a1.
        bnd (emitStringExpr ev scope c a1) (\<lambda>m.
        bnd (lift (sharingMode m)) (\<lambda>sharing.
        ret (opts @ [AsPersistentCacheDir i sharing]))))))
      else emitOptionDefault ev scope op c opts)"

definition emitMountOptions ::
  "extern \<Rightarrow> evaluators \<Rightarrow> Scope \<Rightarrow> string \<Rightarrow> stmt list \<Rightarrow> item list M" where
  "emitMountOptions X ev scope op stmts = forStmts (emitMountOptions_stmt X ev scope op) stmts []"

definition networkMode :: "string \<Rightarrow> error + NetMode" where
  "networkMode m =
     (if m = ''unset'' then Inr NetMode_UNSET
      else if m = ''host'' then Inr NetMode_HOST
      else if m = ''node'' then Inr NetMode_NONE
      else Inl (Panic (PanicMsg ''unknown network mode'')))"

definition securityMode :: "string \<Rightarrow> error + SecurityMode" where
  "securityMode m =
     (if m = ''sandbox'' then Inr SecurityMode_SANDBOX
      else if m = ''insecure'' then Inr SecurityMode_INSECURE
      else Inl (Panic (PanicMsg ''unknown network mode'')))"

text \<open>
  The body of the loop of \<open>emitExecOptions\<close> after the statement's own \<open>with\<close> clause has
  been evaluated to \<open>iopts\<close>.
\<close>

definition emitExecOptions_stmt ::
  "extern \<Rightarrow> evaluators \<Rightarrow> Scope \<Rightarrow> string \<Rightarrow> aliasCallback \<Rightarrow> call_stmt \<Rightarrow> item list
     \<Rightarrow> item list \<Rightarrow> item list M" where
  "emitExecOptions_stmt X ev scope op ac c iopts opts =
     (if Name (Func c) = ''readonlyRootfs'' then
        bnd (maybeEmitBoolExpr ev scope (Args c)) (\<lambda>v.
        ret (if v then opts @ [ReadonlyRootFS] else opts))
      else if Name (Func c) = ''env'' then
        bnd (index (Args c) 0) (\<lambda>a0.
        bnd (emitStringExpr ev scope c a0) (\<lambda>key.
        bnd (index (Args c) 1) (\<lambda>a1.
        bnd (emitStringExpr ev scope c a1) (\<lambda>value.
        ret (opts @ [AddEnv key value])))))
      else if Name (Func c) = ''dir'' then
        bnd (index (Args c) 0) (\<lambda>a0.
        bnd (emitStringExpr ev scope c a0) (\<lambda>path.
        ret (opts @ [Dir path])))
      else if Name (Func c) = ''user'' then
        bnd (index (Args c) 0) (\<lambda>a0.
        bnd (emitStringExpr ev scope c a0) (\<lambda>name.
        ret (opts @ [User name])))
      else if Name (Func c) = ''network'' then
        bnd (index (Args c) 0) (\<lambda>a0.
        bnd (emitStringExpr ev scope c a0) (\<lambda>m.
        bnd (lift (networkMode m)) (\<lambda>netMode.
        ret (opts @ [Network netMode]))))
      else if Name (Func c) = ''security'' then
        bnd (index (Args c) 0) (\<lambda>a0.
        bnd (emitStringExpr ev scope c a0) (\<lambda>m.
        bnd (lift (securityMode m)) (\<lambda>secMode.
        ret (opts @ [Security secMode]))))
      else if Name (Func c) = ''host'' then
        bnd (index (Args c) 0) (\<lambda>a0.
        bnd (emitStringExpr ev scope c a0) (\<lambda>host.
        bnd (index (Args c) 1) (\<lambda>a1.
        bnd (emitStringExpr ev scope c a1) (\<lambda>address.
        ret (opts @ [AddExtraHost host (ParseIP X address)])))))
      else if Name (Func c) = ''ssh'' then
        bnd (lift (assertOptions X SSHOption iopts)) (\<lambda>sshOpts.
        ret (opts @ [AddSSHSocket sshOpts]))
      else if Name (Func c) = ''secret'' then
        bnd (index (Args c) 0) (\<lambda>a0.
        bnd (emitStringExpr ev scope c a0) (\<lambda>t.
        bnd (lift (assertOptions X SecretOption iopts)) (\<lambda>secretOpts.
        ret (opts @ [AddSecret t secretOpts]))))
      else if Name (Func c) = ''mount'' then
        bnd (index (Args c) 0) (\<lambda>a0.
        bnd (emitFilesystemExpr ev scope None a0 ac) (\<lambda>input.
        bnd (index (Args c) 1) (\<lambda>a1.
        bnd (emitStringExpr ev scope c a1) (\<lambda>t.
        bnd (lift (assertOptions X MountOption iopts)) (\<lambda>mountOpts.
        ret (opts @ [AddMount t input mountOpts]))))))
      else emitOptionDefault ev scope op c opts)"

lemma bnd_cong [fundef_cong]:
  "m = m' \<Longrightarrow> (\<And>x. f x = f' x) \<Longrightarrow> bnd m f = bnd m' f'"
  by (auto simp: bnd_def fun_eq_iff split: prod.splits sum.splits)

lemma forStmts_cong [fundef_cong]:
  "stmts = stmts' \<Longrightarrow> acc = acc' \<Longrightarrow>
   (\<And>c a. Some c \<in> Call ` set stmts' \<Longrightarrow> f c a = g c a) \<Longrightarrow>
   forStmts f stmts acc = forStmts g stmts' acc'"
proof (induction stmts' arbitrary: stmts acc acc')
  case Nil
  then show ?case by simp
next
  case (Cons stmt rest)
  have rest: "\<And>a. forStmts f rest a = forStmts g rest a"
    using Cons.prems(3) by (intro Cons.IH) auto
  show ?case
  proof (cases "Call stmt")
    case None
    then show ?thesis using Cons.prems rest by simp
  next
    case (Some c)
    then have "f c acc' = g c acc'"
      using Cons.prems(3) [of c acc'] by (simp add: image_iff)
    moreover have "forStmts f rest = forStmts g rest"
      using rest by (simp add: fun_eq_iff)
    ultimately show ?thesis using Cons.prems(1,2) Some by simp
  qed
qed

lemma size_NonEmptyStmts_loop:
  "size_list size (NonEmptyStmts_loop stmts) \<le> size_list size stmts"
  by (induction stmts) auto

lemma size_call_in_stmts:
  "Some c \<in> Call ` set stmts \<Longrightarrow> size c < size_list size stmts"
proof (induction stmts)
  case Nil
  then show ?case by simp
next
  case (Cons stmt rest)
  show ?case
  proof (cases "Call stmt = Some c")
    case True
    then show ?thesis by (cases stmt) simp
  next
    case False
    then have "Some c \<in> Call ` set rest" using Cons.prems by auto
    then show ?thesis using Cons.IH by simp
  qed
qed

function emitWithOption ::
  "extern \<Rightarrow> evaluators \<Rightarrow> Scope \<Rightarrow> call_stmt \<Rightarrow> with_opt option \<Rightarrow> aliasCallback \<Rightarrow> item list M"
and emitOptions ::
  "extern \<Rightarrow> evaluators \<Rightarrow> Scope \<Rightarrow> string \<Rightarrow> stmt list \<Rightarrow> aliasCallback \<Rightarrow> item list M"
and emitExecOptions ::
  "extern \<Rightarrow> evaluators \<Rightarrow> Scope \<Rightarrow> string \<Rightarrow> stmt list \<Rightarrow> aliasCallback \<Rightarrow> item list M"
where
  "emitWithOption X ev scope parent wopt ac =
     (case wopt of
        None \<Rightarrow> ret []
      | Some w \<Rightarrow>
          (case w_Ident w of
             Some i \<Rightarrow>
               (case Lookup scope (Name i) of
                  None \<Rightarrow> throw (Panic NilDereference)
                | Some obj \<Rightarrow>
                    (case Kind obj of
                       ExprKind \<Rightarrow>
                         (case Data obj of
                            VOptions os \<Rightarrow> ret os
                          | _ \<Rightarrow> throw (Panic TypeAssertion))
                     | _ \<Rightarrow> throw (Panic (PanicMsg ''unknown with option kind''))))
           | None \<Rightarrow>
               (case w_FuncLit w of
                  Some lit \<Rightarrow>
                    emitOptions X ev scope (Name (Func parent)) (NonEmptyStmts (fl_Body lit)) ac
                | None \<Rightarrow> throw (Panic (PanicMsg ''unknown with option'')))))"
| "emitOptions X ev scope op stmts ac =
     (if op = ''image'' then emitImageOptions X ev scope op stmts
      else if op = ''http'' then emitHTTPOptions X ev scope op stmts
      else if op = ''git'' then emitGitOptions X ev scope op stmts
      else if op = ''local'' then emitLocalOptions X ev scope op stmts
      else if op = ''generate'' then emitGenerateOptions X ev scope op stmts ac
      else if op = ''run'' then emitExecOptions X ev scope op stmts ac
      else if op = ''ssh'' then emitSSHOptions X ev scope op stmts
      else if op = ''secret'' then emitSecretOptions X ev scope op stmts
      else if op = ''mount'' then emitMountOptions X ev scope op stmts
      else if op = ''mkdir'' then emitMkdirOptions X ev scope op stmts
      else if op = ''mkfile'' then emitMkfileOptions X ev scope op stmts
      else if op = ''rm'' then emitRmOptions X ev scope op stmts
      else if op = ''copy'' then emitCopyOptions X ev scope op stmts
      else throw (Panic (PanicMsg ''call stmt does not support options'')))"
| "emitExecOptions X ev scope op stmts ac =
     forStmts
       (\<lambda>c opts. bnd (emitWithOption X ev scope c (c_WithOpt c) ac)
          (\<lambda>iopts. emitExecOptions_stmt X ev scope op ac c iopts opts))
       stmts []"
  by pat_completeness auto
termination
proof (relation "measure (\<lambda>x. case x of
          Inl (X, ev, scope, parent, wopt, ac) \<Rightarrow> 2 * size_option size wopt
        | Inr (Inl (X, ev, scope, op, stmts, ac)) \<Rightarrow> 2 * size_list size stmts + 1
        | Inr (Inr (X, ev, scope, op, stmts, ac)) \<Rightarrow> 2 * size_list size stmts)")
  show "wf (measure (\<lambda>x. case x of
          Inl (X, ev, scope, parent, wopt, ac) \<Rightarrow> 2 * size_option size wopt
        | Inr (Inl (X, ev, scope, op, stmts, ac)) \<Rightarrow> 2 * size_list size stmts + 1
        | Inr (Inr (X, ev, scope, op, stmts, ac)) \<Rightarrow> 2 * size_list size stmts))"
    by simp
next
  fix X :: extern and ev :: evaluators and scope :: Scope and parent :: call_stmt
    and wopt :: "with_opt option" and ac :: aliasCallback and w lit
  assume w: "wopt = Some w" "w_Ident w = None" "w_FuncLit w = Some lit"
  show "(Inr (Inl (X, ev, scope, Name (Func parent), NonEmptyStmts (fl_Body lit), ac)),
              Inl (X, ev, scope, parent, wopt, ac))
             \<in> measure (\<lambda>x. case x of
          Inl (X, ev, scope, parent, wopt, ac) \<Rightarrow> 2 * size_option size wopt
        | Inr (Inl (X, ev, scope, op, stmts, ac)) \<Rightarrow> 2 * size_list size stmts + 1
        | Inr (Inr (X, ev, scope, op, stmts, ac)) \<Rightarrow> 2 * size_list size stmts)"
  proof (cases "fl_Body lit")
    case None
    then show ?thesis using w by (simp add: NonEmptyStmts_def)
  next
    case (Some body)
    have "size_list size (NonEmptyStmts_loop (bs_List body)) \<le> size_list size (bs_List body)"
      by (rule size_NonEmptyStmts_loop)
    moreover have "size_list size (bs_List body) < size body"
      by (cases body) simp
    moreover have "size body < size lit"
      using Some by (cases lit) simp
    moreover have "size lit < size w"
      using w by (cases w) simp
    ultimately show ?thesis
      using Some w by (simp add: NonEmptyStmts_def)
  qed
next
  fix X :: extern and ev :: evaluators and scope :: Scope and op :: string
    and stmts :: "stmt list" and ac :: aliasCallback
  assume "op = ''run''"
  then show "(Inr (Inr (X, ev, scope, op, stmts, ac)), Inr (Inl (X, ev, scope, op, stmts, ac)))
             \<in> measure (\<lambda>x. case x of
          Inl (X, ev, scope, parent, wopt, ac) \<Rightarrow> 2 * size_option size wopt
        | Inr (Inl (X, ev, scope, op, stmts, ac)) \<Rightarrow> 2 * size_list size stmts + 1
        | Inr (Inr (X, ev, scope, op, stmts, ac)) \<Rightarrow> 2 * size_list size stmts)"
    by simp
next
  fix X :: extern and ev :: evaluators and scope :: Scope and op :: string
    and stmts :: "stmt list" and ac :: aliasCallback and c
  assume "Some c \<in> Call ` set stmts"
  from size_call_in_stmts [OF this]
  show "(Inl (X, ev, scope, c, c_WithOpt c, ac), Inr (Inr (X, ev, scope, op, stmts, ac)))
             \<in> measure (\<lambda>x. case x of
          Inl (X, ev, scope, parent, wopt, ac) \<Rightarrow> 2 * size_option size wopt
        | Inr (Inl (X, ev, scope, op, stmts, ac)) \<Rightarrow> 2 * size_list size stmts + 1
        | Inr (Inr (X, ev, scope, op, stmts, ac)) \<Rightarrow> 2 * size_list size stmts)"
    by (cases c) (auto split: option.splits)
qed

section \<open>The evaluator (package codegen)\<close>

definition newID :: "extern \<Rightarrow> string M" where
  "newID X = (\<lambda>s. (Inr (NewID X (idgen s)), s\<lparr>idgen := Suc (idgen s)\<rparr>))"

definition setLocal :: "string \<Rightarrow> string \<Rightarrow> unit M" where
  "setLocal i path = modify (\<lambda>s. s\<lparr>Locals := (Locals s)(i \<mapsto> path)\<rparr>)"

definition emitFilesystemSourceStmt ::
  "extern \<Rightarrow> evaluators \<Rightarrow> Scope \<Rightarrow> call_stmt \<Rightarrow> aliasCallback \<Rightarrow> State M" where
  "emitFilesystemSourceStmt X ev scope call ac =
     bnd (emitWithOption X ev scope call (c_WithOpt call) ac) (\<lambda>iopts.
       if Name (Func call) = ''scratch'' then ret Scratch
       else if Name (Func call) = ''image'' then
         bnd (index (Args call) 0) (\<lambda>a0.
         bnd (emitStringExpr ev scope call a0) (\<lambda>ref.
         bnd (lift (assertOptions X ImageOption iopts)) (\<lambda>opts.
         ret (Image ref opts))))
       else if Name (Func call) = ''http'' then
         bnd (index (Args call) 0) (\<lambda>a0.
         bnd (emitStringExpr ev scope call a0) (\<lambda>url.
         bnd (lift (assertOptions X HTTPOption iopts)) (\<lambda>opts.
         ret (HTTP url opts))))
       else if Name (Func call) = ''git'' then
         bnd (index (Args call) 0) (\<lambda>a0.
         bnd (emitStringExpr ev scope call a0) (\<lambda>remote.
         bnd (index (Args call) 1) (\<lambda>a1.
         bnd (emitStringExpr ev scope call a1) (\<lambda>ref.
         bnd (lift (assertOptions X GitOption iopts)) (\<lambda>opts.
         ret (Git remote ref opts))))))
       else if Name (Func call) = ''local'' then
         bnd (index (Args call) 0) (\<lambda>a0.
         bnd (emitStringExpr ev scope call a0) (\<lambda>path.
         bnd (newID X) (\<lambda>i.
         bnd (setLocal i path) (\<lambda>_.
         bnd (lift (assertOptions X LocalOption iopts)) (\<lambda>opts.
         ret (Local i []))))))
       else if Name (Func call) = ''generate'' then
         bnd (index (Args call) 0) (\<lambda>a0.
         bnd (emitFilesystemExpr ev scope None a0 ac) (\<lambda>frontend.
         bnd (lift (assertOptions X FrontendOption iopts)) (\<lambda>opts.
         ret (Frontend frontend (IgnoreCache # opts)))))
       else throw (Panic (PanicMsg ''unknown fs source stmt'')))"

definition emitStringSourceStmt ::
  "extern \<Rightarrow> evaluators \<Rightarrow> Scope \<Rightarrow> call_stmt \<Rightarrow> aliasCallback \<Rightarrow> string M" where
  "emitStringSourceStmt X ev scope call ac =
     (if Name (Func call) = ''value'' then
        bnd (index (Args call) 0) (\<lambda>a0. emitStringExpr ev scope call a0)
      else if Name (Func call) = ''format'' then
        bnd (index (Args call) 0) (\<lambda>a0.
        bnd (emitStringExpr ev scope call a0) (\<lambda>formatStr.
        bnd (mapM (emitStringExpr ev scope call) (drop 1 (Args call))) (\<lambda>as.
        ret (Sprintf X formatStr as))))
      else throw (Panic (PanicMsg ''unknown string source stmt'')))"

definition emitSourceStmt ::
  "extern \<Rightarrow> evaluators \<Rightarrow> Scope \<Rightarrow> ObjType \<Rightarrow> call_stmt \<Rightarrow> aliasCallback \<Rightarrow> val M" where
  "emitSourceStmt X ev scope typ call ac =
     (if Builtins X typ (Name (Func call)) then
        (if typ = Filesystem then
           bnd (emitFilesystemSourceStmt X ev scope call ac) (\<lambda>st. ret (VState st))
         else if typ = StrT then
           bnd (emitStringSourceStmt X ev scope call ac) (\<lambda>str. ret (VStr str))
         else throw (Panic (PanicMsg ''unimplemented'')))
      else
        (case Lookup scope (Name (Func call)) of
           None \<Rightarrow> throw (Panic (PanicMsg (Name (Func call))))
         | Some obj \<Rightarrow>
             (case Node obj of
                FuncDeclNode n \<Rightarrow> emitFuncDecl ev scope n call [] noopAliasCallback
              | AliasDeclNode n \<Rightarrow> emitAliasDecl ev scope n call
              | FieldNode f \<Rightarrow> ret (Data obj)
              | _ \<Rightarrow> throw (Panic (PanicMsg ''unknown obj type'')))))"

subsection \<open>Chain statements\<close>

text \<open>
  The command of \<open>run\<close>: one argument is split into shell words and kept as it is when it
  is a single word, wrapped into \<open>/bin/sh -c\<close> otherwise; any other number of arguments is
  joined with shell quoting.
\<close>

definition runShlex :: "extern \<Rightarrow> evaluators \<Rightarrow> Scope \<Rightarrow> call_stmt \<Rightarrow> string M" where
  "runShlex X ev scope call =
     (if length (Args call) = 1 then
        bnd (index (Args call) 0) (\<lambda>a0.
        bnd (emitStringExpr ev scope call a0) (\<lambda>commandStr.
        bnd (lift (Split X commandStr)) (\<lambda>parts.
        ret (if length parts = 1 then commandStr
             else Join X [''/bin/sh'', ''-c'', commandStr]))))
      else
        bnd (mapM (emitStringExpr ev scope call) (Args call)) (\<lambda>runArgs.
        ret (Join X runArgs)))"

text \<open>
  The scan of an inline \<open>with\<close> block of \<open>run\<close> for aliased mounts: the targets in order,
  and the map from a target to the call that mounts it (a later mount of the same target
  replaces an earlier one).
\<close>

fun runMounts_loop ::
  "evaluators \<Rightarrow> Scope \<Rightarrow> call_stmt \<Rightarrow> stmt list \<Rightarrow> string list \<times> (string \<rightharpoonup> call_stmt)
     \<Rightarrow> (string list \<times> (string \<rightharpoonup> call_stmt)) M" where
  "runMounts_loop ev scope call [] acc = ret acc"
| "runMounts_loop ev scope call (stmt # rest) acc =
     (case Call stmt of
        None \<Rightarrow> throw (Panic NilDereference)
      | Some c \<Rightarrow>
          if Name (Func c) \<noteq> ''mount'' \<or> c_Alias c = None then
            runMounts_loop ev scope call rest acc
          else
            bnd (index (Args c) 1) (\<lambda>a1.
            bnd (emitStringExpr ev scope call a1) (\<lambda>t.
            runMounts_loop ev scope call rest (fst acc @ [t], (snd acc)(t \<mapsto> c)))))"

definition runMounts ::
  "evaluators \<Rightarrow> Scope \<Rightarrow> call_stmt \<Rightarrow> (string list \<times> (string \<rightharpoonup> call_stmt)) M" where
  "runMounts ev scope call =
     (case c_WithOpt call of
        None \<Rightarrow> ret ([], Map.empty)
      | Some w \<Rightarrow>
          (case w_Ident w of
             Some i \<Rightarrow> ret ([], Map.empty)
           | None \<Rightarrow>
               (case w_FuncLit w of
                  Some lit \<Rightarrow>
                    runMounts_loop ev scope call (NonEmptyStmts (fl_Body lit)) ([], Map.empty)
                | None \<Rightarrow> throw (Panic (PanicMsg ''unknown with option'')))))"

text \<open>
  The closure \<open>run\<close> returns: it execs, hands the mount of each aliased target to the alias
  callback, and yields the root of the exec.
\<close>

definition runClosure ::
  "aliasCallback \<Rightarrow> item list \<Rightarrow> string list \<Rightarrow> (string \<rightharpoonup> call_stmt) \<Rightarrow> State \<Rightarrow> State M" where
  "runClosure ac opts targets calls st =
     (\<lambda>s. (Inr (State_Run st opts),
           fold (\<lambda>t s'. case calls t of
                           Some c \<Rightarrow> ac c (VState (State_GetMount st opts t)) s'
                         | None \<Rightarrow> s')
                targets s))"

type_synonym StateOption = "(State \<Rightarrow> State M) option"

definition emitFilesystemChainStmt ::
  "extern \<Rightarrow> evaluators \<Rightarrow> Scope \<Rightarrow> ObjType \<Rightarrow> call_stmt \<Rightarrow> aliasCallback \<Rightarrow> StateOption M" where
  "emitFilesystemChainStmt X ev scope typ call ac =
     bnd (emitWithOption X ev scope call (c_WithOpt call) ac) (\<lambda>iopts.
       if Name (Func call) = ''run'' then
         bnd (runShlex X ev scope call) (\<lambda>shlex.
         bnd (lift (assertOptions X RunOption iopts)) (\<lambda>opts.
         bnd (runMounts ev scope call) (\<lambda>m.
         ret (Some (runClosure ac (opts @ [Shlex shlex]) (fst m) (snd m))))))
       else if Name (Func call) = ''env'' then
         bnd (index (Args call) 0) (\<lambda>a0.
         bnd (emitStringExpr ev scope call a0) (\<lambda>key.
         bnd (index (Args call) 1) (\<lambda>a1.
         bnd (emitStringExpr ev scope call a1) (\<lambda>value.
         ret (Some (\<lambda>st. ret (State_AddEnv st key value)))))))
       else if Name (Func call) = ''dir'' then
         bnd (index (Args call) 0) (\<lambda>a0.
         bnd (emitStringExpr ev scope call a0) (\<lambda>path.
         ret (Some (\<lambda>st. ret (State_Dir st path)))))
       else if Name (Func call) = ''user'' then
         bnd (index (Args call) 0) (\<lambda>a0.
         bnd (emitStringExpr ev scope call a0) (\<lambda>name.
         ret (Some (\<lambda>st. ret (State_User st name)))))
       else if Name (Func call) = ''entrypoint'' then
         bnd (mapM (emitStringExpr ev scope call) (Args call)) (\<lambda>stArgs.
         ret (Some (\<lambda>st. ret (State_Args st stArgs))))
       else if Name (Func call) = ''mkdir'' then
         bnd (index (Args call) 0) (\<lambda>a0.
         bnd (emitStringExpr ev scope call a0) (\<lambda>path.
         bnd (index (Args call) 1) (\<lambda>a1.
         bnd (emitIntExpr ev scope a1) (\<lambda>m.
         bnd (emitWithOption X ev scope call (c_WithOpt call) ac) (\<lambda>iopts'.
         bnd (lift (assertOptions X MkdirOption iopts')) (\<lambda>opts.
         ret (Some (\<lambda>st. ret (State_File st (Mkdir path (os_FileMode m) opts))))))))))
       else if Name (Func call) = ''mkfile'' then
         bnd (index (Args call) 0) (\<lambda>a0.
         bnd (emitStringExpr ev scope call a0) (\<lambda>path.
         bnd (index (Args call) 1) (\<lambda>a1.
         bnd (emitIntExpr ev scope a1) (\<lambda>m.
         bnd (index (Args call) 2) (\<lambda>a2.
         bnd (emitStringExpr ev scope call a2) (\<lambda>content.
         bnd (lift (assertOptions X MkfileOption iopts)) (\<lambda>opts.
         ret (Some (\<lambda>st. ret (State_File st (Mkfile path (os_FileMode m) content opts)))))))))))
       else if Name (Func call) = ''rm'' then
         bnd (index (Args call) 0) (\<lambda>a0.
         bnd (emitStringExpr ev scope call a0) (\<lambda>path.
         bnd (lift (assertOptions X RmOption iopts)) (\<lambda>opts.
         ret (Some (\<lambda>st. ret (State_File st (Rm path opts)))))))
       else if Name (Func call) = ''copy'' then
         bnd (index (Args call) 0) (\<lambda>a0.
         bnd (emitFilesystemExpr ev scope None a0 ac) (\<lambda>input.
         bnd (index (Args call) 1) (\<lambda>a1.
         bnd (emitStringExpr ev scope call a1) (\<lambda>src.
         bnd (index (Args call) 2) (\<lambda>a2.
         bnd (emitStringExpr ev scope call a2) (\<lambda>dest.
         bnd (lift (assertOptions X CopyOption iopts)) (\<lambda>opts.
         ret (Some (\<lambda>st. ret (State_File st (Copy input src dest opts)))))))))))
       else ret None)"

definition emitStringChainStmt ::
  "extern \<Rightarrow> evaluators \<Rightarrow> Scope \<Rightarrow> call_stmt \<Rightarrow> (string \<Rightarrow> string M) M" where
  "emitStringChainStmt X ev scope call = throw (Panic (PanicMsg ''unimplemented''))"

text \<open>
  \<open>emitChainStmt\<close> wraps the typed chain into one on \<open>interface{}\<close>: applied, it asserts
  the type of the value and then calls the chain, which is nil for a call that
  \<open>emitFilesystemChainStmt\<close> has no case for.
\<close>

definition emitChainStmt ::
  "extern \<Rightarrow> evaluators \<Rightarrow> Scope \<Rightarrow> ObjType \<Rightarrow> call_stmt \<Rightarrow> aliasCallback \<Rightarrow> (val \<Rightarrow> val M) M" where
  "emitChainStmt X ev scope typ call ac =
     (if typ = Filesystem then
        bnd (emitFilesystemChainStmt X ev scope typ call ac) (\<lambda>chain.
        ret (\<lambda>v. case v of
                   VState st \<Rightarrow>
                     (case chain of
                        None \<Rightarrow> throw (Panic NilDereference)
                      | Some so \<Rightarrow> bnd (so st) (\<lambda>st'. ret (VState st')))
                 | _ \<Rightarrow> throw (Panic TypeAssertion)))
      else if typ = StrT then
        bnd (emitStringChainStmt X ev scope call) (\<lambda>chain.
        ret (\<lambda>v. case v of
                   VStr str \<Rightarrow> bnd (chain str) (\<lambda>str'. ret (VStr str'))
                 | _ \<Rightarrow> throw (Panic TypeAssertion)))
      else throw (Panic (PanicMsg ''unknown chain stmt'')))"

subsection \<open>Blocks\<close>

text \<open>
  The first loop of \<open>emitBlock\<close>: it calls the debug hook on the leading debug calls and
  breaks at the first other statement with \<open>index\<close> set to its position; when the list
  runs out, \<open>index\<close> is still 0.
\<close>

fun emitBlock_skip :: "extern \<Rightarrow> Scope \<Rightarrow> val \<Rightarrow> stmt list \<Rightarrow> nat \<Rightarrow> nat M" where
  "emitBlock_skip X scope v [] i = ret 0"
| "emitBlock_skip X scope v (stmt # rest) i =
     (case Call stmt of
        None \<Rightarrow> throw (Panic NilDereference)
      | Some c \<Rightarrow>
          if Contains (Debugs X) (Name (Func c)) then
            bnd (debugHook scope (CallNode c) v) (\<lambda>_. emitBlock_skip X scope v rest (Suc i))
          else ret i)"

definition initialValue :: "ObjType \<Rightarrow> val" where
  "initialValue typ =
     (if typ = Filesystem then VState Scratch else if typ = StrT then VStr [] else VNil)"

definition aliased :: "aliasCallback \<Rightarrow> call_stmt \<Rightarrow> val \<Rightarrow> unit M" where
  "aliased ac call v = (if c_Alias call \<noteq> None then modify (ac call v) else ret ())"

text \<open>The second loop of \<open>emitBlock\<close>, over \<open>stmts[index+1:]\<close>.\<close>

fun emitBlock_chain ::
  "extern \<Rightarrow> evaluators \<Rightarrow> Scope \<Rightarrow> ObjType \<Rightarrow> aliasCallback \<Rightarrow> stmt list \<Rightarrow> val \<Rightarrow> val M" where
  "emitBlock_chain X ev scope typ ac [] v = ret v"
| "emitBlock_chain X ev scope typ ac (stmt # rest) v =
     (case Call stmt of
        None \<Rightarrow> throw (Panic NilDereference)
      | Some call \<Rightarrow>
          if Contains (Debugs X) (Name (Func call)) then
            bnd (debugHook scope (CallNode call) v) (\<lambda>_.
            emitBlock_chain X ev scope typ ac rest v)
          else
            bnd (debugHook scope (CallNode call) v) (\<lambda>_.
            bnd (emitChainStmt X ev scope typ call ac) (\<lambda>chain.
            bnd (chain v) (\<lambda>v'.
            bnd (aliased ac call v') (\<lambda>_.
            emitBlock_chain X ev scope typ ac rest v')))))"

definition emitBlock ::
  "extern \<Rightarrow> evaluators \<Rightarrow> Scope \<Rightarrow> ObjType \<Rightarrow> stmt list \<Rightarrow> aliasCallback \<Rightarrow> val M" where
  "emitBlock X ev scope typ stmts ac =
     bnd (emitBlock_skip X scope (initialValue typ) stmts 0) (\<lambda>i.
     bnd (index stmts i) (\<lambda>stmt.
       case Call stmt of
         None \<Rightarrow> throw (Panic NilDereference)
       | Some sourceStmt \<Rightarrow>
           bnd (debugHook scope (CallNode sourceStmt) (initialValue typ)) (\<lambda>_.
           bnd (emitSourceStmt X ev scope typ sourceStmt ac) (\<lambda>v.
           bnd (aliased ac sourceStmt v) (\<lambda>_.
           emitBlock_chain X ev scope typ ac (drop (i + 1) stmts) v)))))"

definition emitFilesystemBlock ::
  "extern \<Rightarrow> evaluators \<Rightarrow> Scope \<Rightarrow> stmt list \<Rightarrow> aliasCallback \<Rightarrow> State M" where
  "emitFilesystemBlock X ev scope stmts ac =
     bnd (emitBlock X ev scope Filesystem stmts ac) (\<lambda>v.
       case v of VState st \<Rightarrow> ret st | _ \<Rightarrow> throw (Panic TypeAssertion))"

definition emitStringBlock ::
  "extern \<Rightarrow> evaluators \<Rightarrow> Scope \<Rightarrow> stmt list \<Rightarrow> string M" where
  "emitStringBlock X ev scope stmts =
     bnd (emitBlock X ev scope StrT stmts noopAliasCallback) (\<lambda>v.
       case v of VStr str \<Rightarrow> ret str | _ \<Rightarrow> throw (Panic TypeAssertion))"

definition emitFuncLit ::
  "extern \<Rightarrow> evaluators \<Rightarrow> Scope \<Rightarrow> func_lit \<Rightarrow> string \<Rightarrow> aliasCallback \<Rightarrow> val M" where
  "emitFuncLit X ev scope lit op ac =
     (if Type_Type (fl_Type lit) = IntT \<or> Type_Type (fl_Type lit) = BoolT then
        throw (Panic (PanicMsg ''unimplemented''))
      else if Type_Type (fl_Type lit) = Filesystem then
        bnd (emitFilesystemBlock X ev scope (NonEmptyStmts (fl_Body lit)) ac) (\<lambda>st.
        ret (VState st))
      else if Type_Type (fl_Type lit) = StrT then
        bnd (emitStringBlock X ev scope (NonEmptyStmts (fl_Body lit))) (\<lambda>str.
        ret (VStr str))
      else if Type_Type (fl_Type lit) = Option then
        bnd (emitOptions X ev scope op (NonEmptyStmts (fl_Body lit)) ac) (\<lambda>opts.
        ret (VOptions opts))
      else ret VNil)"

subsection \<open>The entry point\<close>

type_synonym CodeGenOption = "env \<Rightarrow> error option \<times> env"

definition WithDebugger :: "Debugger \<Rightarrow> CodeGenOption" where
  "WithDebugger dbgr = (\<lambda>i. (None, i\<lparr>Debug := dbgr\<rparr>))"

fun applyOptions :: "CodeGenOption list \<Rightarrow> env \<Rightarrow> error option \<times> env" where
  "applyOptions [] info = (None, info)"
| "applyOptions (opt # opts) info =
     (case opt info of
        (Some err, info') \<Rightarrow> (Some err, info')
      | (None, info') \<Rightarrow> applyOptions opts info')"

text \<open>
  \<open>Generate\<close> returns \<open>(st, info, err)\<close> or panics. \<open>seed\<close> is the state of the identifier
  generator when it is called; \<open>newInfo\<close> is the \<open>CodeGenInfo\<close> it starts from.
\<close>

definition newInfo :: "nat \<Rightarrow> env" where
  "newInfo seed = \<lparr>Debug = NewNoopDebugger, Locals = Map.empty, idgen = seed, captured = []\<rparr>"

definition Generate ::
  "extern \<Rightarrow> evaluators \<Rightarrow> call_stmt \<Rightarrow> File \<Rightarrow> CodeGenOption list \<Rightarrow> nat
     \<Rightarrow> panic + State \<times> env \<times> error option" where
  "Generate X ev call file opts seed =
     (let st = Scratch; info0 = newInfo seed
      in case applyOptions opts info0 of
           (Some err, info) \<Rightarrow> Inr (st, info, Some err)
         | (None, info) \<Rightarrow>
             (case Lookup (file_Scope file) (Name (Func call)) of
                None \<Rightarrow> Inr (st, info, Some (ErrUnknownTarget (Name (Func call))))
              | Some obj \<Rightarrow>
                  (case Debug info (file_Scope file) (FileNode file) VNil of
                     Some err \<Rightarrow> Inr (st, info, Some err)
                   | None \<Rightarrow>
                       (case Kind obj of
                          DeclKind \<Rightarrow>
                            (case Node obj of
                               FuncDeclNode n \<Rightarrow>
                                 if Type_Type (d_Type n) \<noteq> Filesystem then
                                   Inr (st, info, Some (ErrInvalidTarget (Func call)))
                                 else
                                   (case emitFilesystemFuncDecl ev (file_Scope file) n call
                                           noopAliasCallback info of
                                      (Inl p, info') \<Rightarrow> Inl p
                                    | (Inr (st', err), info') \<Rightarrow> Inr (st', info', err))
                             | AliasDeclNode n \<Rightarrow>
                                 (case a_Func n of
                                    None \<Rightarrow> Inl NilDereference
                                  | Some f \<Rightarrow>
                                      if Type_Type (d_Type f) \<noteq> Filesystem then
                                        Inr (st, info, Some (ErrInvalidTarget (Func call)))
                                      else
                                        (case emitFilesystemAliasDecl ev (file_Scope file) n call
                                                info of
                                           (Inl p, info') \<Rightarrow> Inl p
                                         | (Inr (st', err), info') \<Rightarrow> Inr (st', info', err)))
                             | _ \<Rightarrow> Inr (st, info, None))
                        | _ \<Rightarrow> Inr (st, info, Some (ErrInvalidTarget (Func call)))))))"

section \<open>An instance of the parameters\<close>

text \<open>
  The theorems below hold for every choice of the parameters. To run the evaluator on
  concrete programs, this section gives one choice: stand-ins for the external libraries,
  and the missing functions of the repository modelled from the spec.
\<close>

subsection \<open>Shell quoting\<close>

text \<open>
  A stand-in for the go-shellquote library. \<open>Split\<close> breaks a command line into words at
  unquoted blanks, with single quotes, double quotes and backslash escapes as in a POSIX
  shell, and fails on an unterminated quote or escape. \<open>Join\<close> quotes each word (a word
  with a blank goes into single quotes, other special characters get a backslash) and
  joins the words with a space.
\<close>

definition squote :: char where "squote = CHR 0x27"
definition dquote :: char where "dquote = CHR 0x22"
definition bslash :: char where "bslash = CHR 0x5C"
definition newlineChar :: char where "newlineChar = CHR 0x0A"
definition tabChar :: char where "tabChar = CHR 0x09"

definition splitChars :: "char list" where
  "splitChars = [CHR '' '', newlineChar, tabChar]"

definition doubleEscapeChars :: "char list" where
  "doubleEscapeChars = [CHR ''$'', CHR 0x60, dquote, newlineChar, bslash]"

definition specialChars :: "char list" where
  "specialChars = [bslash, squote, dquote, CHR 0x60, CHR ''$'', CHR ''{'', CHR ''['', CHR ''|'',
     CHR ''&'', CHR '';'', CHR ''<'', CHR ''>'', CHR ''('', CHR '')'', CHR ''*'', CHR ''?'', CHR ''!'']"

datatype split_mode = Between | Raw | Single | Double

fun split_go :: "split_mode \<Rightarrow> string \<Rightarrow> string \<Rightarrow> string list \<Rightarrow> error + string list" where
  "split_go Between [] buf ws = Inr ws"
| "split_go Raw [] buf ws = Inr (ws @ [buf])"
| "split_go Single [] buf ws = Inl (ErrExternal ''Unterminated single-quoted string'')"
| "split_go Double [] buf ws = Inl (ErrExternal ''Unterminated double-quoted string'')"
| "split_go Between (c # cs) buf ws =
     (if c \<in> set splitChars then split_go Between cs [] ws
      else if c = squote then split_go Single cs [] ws
      else if c = dquote then split_go Double cs [] ws
      else if c = bslash then
        (case cs of
           [] \<Rightarrow> Inl (ErrExternal ''Unterminated backslash-escape'')
         | d # ds \<Rightarrow> if d = newlineChar then split_go Between ds [] ws
                     else split_go Raw ds [d] ws)
      else split_go Raw cs [c] ws)"
| "split_go Raw (c # cs) buf ws =
     (if c \<in> set splitChars then split_go Between cs [] (ws @ [buf])
      else if c = squote then split_go Single cs buf ws
      else if c = dquote then split_go Double cs buf ws
      else if c = bslash then
        (case cs of
           [] \<Rightarrow> Inl (ErrExternal ''Unterminated backslash-escape'')
         | d # ds \<Rightarrow> if d = newlineChar then split_go Raw ds buf ws
                     else split_go Raw ds (buf @ [d]) ws)
      else split_go Raw cs (buf @ [c]) ws)"
| "split_go Single (c # cs) buf ws =
     (if c = squote then split_go Raw cs buf ws else split_go Single cs (buf @ [c]) ws)"
| "split_go Double (c # cs) buf ws =
     (if c = dquote then split_go Raw cs buf ws
      else if c = bslash then
        (case cs of
           [] \<Rightarrow> Inl (ErrExternal ''Unterminated double-quoted string'')
         | d # ds \<Rightarrow> if d \<in> set doubleEscapeChars then
                       (if d = newlineChar then split_go Double ds buf ws
                        else split_go Double ds (buf @ [d]) ws)
                     else split_go Double ds (buf @ [bslash, d]) ws)
      else split_go Double cs (buf @ [c]) ws)"

definition shellquote_Split :: "string \<Rightarrow> error + string list" where
  "shellquote_Split input = split_go Between input [] []"

fun escapeChars :: "bool \<Rightarrow> string \<Rightarrow> string" where
  "escapeChars atStart [] = []"
| "escapeChars atStart (c # cs) =
     (if c \<in> set specialChars \<or> (atStart \<and> c = CHR ''~'')
      then bslash # c # escapeChars False cs
      else c # escapeChars False cs)"

fun quoteSegments :: "string \<Rightarrow> string \<Rightarrow> string" where
  "quoteSegments seg [] = (if seg = [] then [] else squote # seg @ [squote])"
| "quoteSegments seg (c # cs) =
     (if c = squote then
        (if seg = [] then [] else squote # seg @ [squote]) @ [bslash, squote] @ quoteSegments [] cs
      else quoteSegments (seg @ [c]) cs)"

definition quote :: "string \<Rightarrow> string" where
  "quote word =
     (if word = [] then [squote, squote]
      else if \<exists>c \<in> set word. c \<in> set splitChars then quoteSegments [] word
      else escapeChars True word)"

fun joinWords :: "string list \<Rightarrow> string" where
  "joinWords [] = []"
| "joinWords [w] = w"
| "joinWords (w # ws) = w @ CHR '' '' # joinWords ws"

definition shellquote_Join :: "string list \<Rightarrow> string" where
  "shellquote_Join args = joinWords (map quote args)"

subsection \<open>Formatting, time, identifiers, option interfaces\<close>

text \<open>
  A stand-in for \<open>fmt.Sprintf\<close> on string operands, for directives made of a percent sign
  and a verb (flags, width, precision and argument indexes are not modelled). The verbs
  \<open>%s\<close> and \<open>%v\<close> print the operand, \<open>%q\<close> quotes it as \<open>strconv.Quote\<close> does (bytes above
  \<open>0x7F\<close> are kept, as for printable UTF-8 text), \<open>%x\<close> and \<open>%X\<close> print its bytes in
  hexadecimal, \<open>%T\<close> prints its type, and \<open>%%\<close> is a percent sign that takes no operand. Any
  other verb prints as a bad verb, \<open>%!d(string=...)\<close>; a verb with no operand left prints as
  missing; a percent sign at the end prints as \<open>%!(NOVERB)\<close>; operands left over are listed
  at the end as \<open>%!(EXTRA string=..., ...)\<close>.
\<close>

definition hexChar :: "bool \<Rightarrow> nat \<Rightarrow> char" where
  "hexChar upper n = (if upper then ''0123456789ABCDEF'' else ''0123456789abcdef'') ! n"

fun hexString :: "bool \<Rightarrow> string \<Rightarrow> string" where
  "hexString upper [] = []"
| "hexString upper (c # cs) =
     hexChar upper (of_char c div 16) # hexChar upper (of_char c mod 16) # hexString upper cs"

definition quoteChar :: "char \<Rightarrow> string" where
  "quoteChar c =
     (if c = dquote \<or> c = bslash then [bslash, c]
      else if c = CHR 0x07 then [bslash, CHR ''a'']
      else if c = CHR 0x08 then [bslash, CHR ''b'']
      else if c = CHR 0x0C then [bslash, CHR ''f'']
      else if c = newlineChar then [bslash, CHR ''n'']
      else if c = CHR 0x0D then [bslash, CHR ''r'']
      else if c = tabChar then [bslash, CHR ''t'']
      else if c = CHR 0x0B then [bslash, CHR ''v'']
      else if (of_char c :: nat) < 32 \<or> c = CHR 0x7F then bslash # CHR ''x'' # hexString False [c]
      else [c])"

definition strconv_Quote :: "string \<Rightarrow> string" where
  "strconv_Quote s = dquote # concat (map quoteChar s) @ [dquote]"

definition formatVerb :: "char \<Rightarrow> string \<Rightarrow> string" where
  "formatVerb verb a =
     (if verb = CHR ''s'' \<or> verb = CHR ''v'' then a
      else if verb = CHR ''q'' then strconv_Quote a
      else if verb = CHR ''x'' then hexString False a
      else if verb = CHR ''X'' then hexString True a
      else if verb = CHR ''T'' then ''string''
      else ''%!'' @ [verb] @ ''(string='' @ a @ '')'')"

fun extraOperands :: "string list \<Rightarrow> string" where
  "extraOperands [] = []"
| "extraOperands [a] = ''string='' @ a"
| "extraOperands (a # as) = ''string='' @ a @ '', '' @ extraOperands as"

definition extraString :: "string list \<Rightarrow> string" where
  "extraString as = (if as = [] then [] else ''%!(EXTRA '' @ extraOperands as @ '')'')"

fun sprintf :: "string \<Rightarrow> string list \<Rightarrow> string" where
  "sprintf [] as = extraString as"
| "sprintf [c] as = (if c = CHR ''%'' then ''%!(NOVERB)'' else [c]) @ extraString as"
| "sprintf (c # d # cs) as =
     (if c \<noteq> CHR ''%'' then c # sprintf (d # cs) as
      else if d = CHR ''%'' then CHR ''%'' # sprintf cs as
      else (case as of
              [] \<Rightarrow> ''%!'' @ [d] @ ''(MISSING)'' @ sprintf cs []
            | a # as' \<Rightarrow> formatVerb d a @ sprintf cs as'))"

text \<open>
  A stand-in for \<open>time.Parse(time.RFC3339, v)\<close>, field by field along the layout
  \<open>2006-01-02T15:04:05Z07:00\<close>: a year of four digits, month, day, minute and second of two
  digits, an hour of one or two digits, an optional fraction of a second (a dot or a comma
  and digits, of which nine count), then \<open>Z\<close> or an offset \<open>+hh:mm\<close> or \<open>-hh:mm\<close>, and nothing
  after it. The month, the day within its month, the hour, the minute and the second are
  checked for range, the offset for at most 24 hours and 60 minutes. The result is the
  instant in nanoseconds since the Unix epoch; every failure is the one parse error.
\<close>

definition isDigit :: "char \<Rightarrow> bool" where
  "isDigit c = (c \<in> set ''0123456789'')"

fun digitsValue :: "string \<Rightarrow> int \<Rightarrow> int" where
  "digitsValue [] acc = acc"
| "digitsValue (c # cs) acc =
     digitsValue cs (if isDigit c then acc * 10 + (int (of_char c) - 48) else acc)"

definition getnum :: "string \<Rightarrow> bool \<Rightarrow> (int \<times> string) option" where
  "getnum s fixed =
     (case s of
        [] \<Rightarrow> None
      | c # r \<Rightarrow>
          if \<not> isDigit c then None
          else (case r of
                  [] \<Rightarrow> if fixed then None else Some (digitsValue [c] 0, r)
                | d # r' \<Rightarrow>
                    if isDigit d then Some (digitsValue [c, d] 0, r')
                    else if fixed then None else Some (digitsValue [c] 0, r)))"

definition getyear :: "string \<Rightarrow> (int \<times> string) option" where
  "getyear s =
     (if 4 \<le> length s \<and> list_all isDigit (take 4 s) then Some (digitsValue (take 4 s) 0, drop 4 s)
      else None)"

definition literal :: "char \<Rightarrow> string \<Rightarrow> string option" where
  "literal c s = (case s of [] \<Rightarrow> None | d # r \<Rightarrow> if d = c then Some r else None)"

definition getfraction :: "string \<Rightarrow> int \<times> string" where
  "getfraction s =
     (case s of
        c # d # r \<Rightarrow>
          if (c = CHR ''.'' \<or> c = CHR '','') \<and> isDigit d then
            (digitsValue (take 9 (takeWhile isDigit (d # r) @ replicate 9 (CHR ''0''))) 0,
             dropWhile isDigit (d # r))
          else (0, s)
      | _ \<Rightarrow> (0, s))"

definition getzone :: "string \<Rightarrow> (int \<times> string) option" where
  "getzone s =
     (case s of
        [] \<Rightarrow> None
      | c # r \<Rightarrow>
          if c = CHR ''Z'' then Some (0, r)
          else if length s < 6 \<or> s ! 3 \<noteq> CHR '':'' then None
          else (case (getnum (take 2 r) True, getnum (take 2 (drop 4 s)) True) of
                  (Some (hr, _), Some (mm, _)) \<Rightarrow>
                    if 24 < hr \<or> 60 < mm then None
                    else if c = CHR ''+'' then Some ((hr * 60 + mm) * 60, drop 6 s)
                    else if c = CHR ''-'' then Some (- ((hr * 60 + mm) * 60), drop 6 s)
                    else None
                | _ \<Rightarrow> None))"

definition isLeap :: "int \<Rightarrow> bool" where
  "isLeap y = (y mod 4 = 0 \<and> (y mod 100 \<noteq> 0 \<or> y mod 400 = 0))"

definition daysIn :: "int \<Rightarrow> int \<Rightarrow> int" where
  "daysIn m y =
     (if m = 2 then (if isLeap y then 29 else 28)
      else if m = 4 \<or> m = 6 \<or> m = 9 \<or> m = 11 then 30 else 31)"

definition daysSinceEpoch :: "int \<Rightarrow> int \<Rightarrow> int \<Rightarrow> int" where
  "daysSinceEpoch y m d =
     (let y' = (if m \<le> 2 then y - 1 else y);
          era = y' div 400;
          yoe = y' - era * 400;
          doy = (153 * (if 2 < m then m - 3 else m + 9) + 2) div 5 + d - 1;
          doe = yoe * 365 + yoe div 4 - yoe div 100 + doy
      in era * 146097 + doe - 719468)"

definition parseFields ::
  "string \<Rightarrow> (int \<times> int \<times> int \<times> int \<times> int \<times> int \<times> int \<times> int) option" where
  "parseFields v =
     Option.bind (getyear v) (\<lambda>(year, v).
     Option.bind (literal (CHR ''-'') v) (\<lambda>v.
     Option.bind (getnum v True) (\<lambda>(month, v).
     Option.bind (literal (CHR ''-'') v) (\<lambda>v.
     Option.bind (getnum v True) (\<lambda>(day, v).
     Option.bind (literal (CHR ''T'') v) (\<lambda>v.
     Option.bind (getnum v False) (\<lambda>(hour, v).
     Option.bind (literal (CHR '':'') v) (\<lambda>v.
     Option.bind (getnum v True) (\<lambda>(minute, v).
     Option.bind (literal (CHR '':'') v) (\<lambda>v.
     Option.bind (getnum v True) (\<lambda>(sec, v).
     (case getfraction v of (nsec, v) \<Rightarrow>
     Option.bind (getzone v) (\<lambda>(offset, v).
     if v = [] then Some (year, month, day, hour, minute, sec, nsec, offset)
     else None)))))))))))))"

definition parseRFC3339 :: "string \<Rightarrow> error + gotime" where
  "parseRFC3339 v =
     (case parseFields v of
        None \<Rightarrow> Inl (ErrExternal ''parsing time: not RFC 3339'')
      | Some (year, month, day, hour, minute, sec, nsec, offset) \<Rightarrow>
          if 1 \<le> month \<and> month \<le> 12 \<and> 1 \<le> day \<and> day \<le> daysIn month year \<and>
             hour < 24 \<and> minute < 60 \<and> sec < 60
          then Inr (GoTime
                 ((daysSinceEpoch year month day * 86400 + hour * 3600 + minute * 60 + sec
                    - offset) * 1000000000 + nsec))
          else Inl (ErrExternal ''parsing time: not RFC 3339''))"

text \<open>
  A stand-in for \<open>net.ParseIP\<close>: the sixteen bytes of the address, or nothing (\<open>nil\<close>) when
  the text is no address. The first dot, colon or percent sign of the text decides between
  the dotted decimal form (four fields of at most 255, without leading zeros) and the
  IPv6 form (groups of one to four hexadecimal digits, at most one \<open>::\<close> that stands for at
  least one group of zeros, an optional dotted decimal tail for the last four bytes, no
  zone).
\<close>

definition isHex :: "char \<Rightarrow> bool" where
  "isHex c = (c \<in> set ''0123456789abcdefABCDEF'')"

definition hexValue :: "char \<Rightarrow> nat" where
  "hexValue c =
     (if isDigit c then of_char c - 48
      else if c \<in> set ''abcdef'' then of_char c - 87
      else of_char c - 55)"

fun splitOn :: "char \<Rightarrow> string \<Rightarrow> string \<Rightarrow> string list" where
  "splitOn sep [] cur = [cur]"
| "splitOn sep (c # cs) cur =
     (if c = sep then cur # splitOn sep cs [] else splitOn sep cs (cur @ [c]))"

definition ipv4Field :: "string \<Rightarrow> bool" where
  "ipv4Field f =
     (f \<noteq> [] \<and> list_all isDigit f \<and> (length f = 1 \<or> hd f \<noteq> CHR ''0'') \<and>
      digitsValue f 0 \<le> 255)"

definition parseIPv4Fields :: "string \<Rightarrow> string option" where
  "parseIPv4Fields s =
     (let fs = splitOn (CHR ''.'') s [] in
      if length fs = 4 \<and> list_all ipv4Field fs
      then Some (map (\<lambda>f. char_of (nat (digitsValue f 0))) fs)
      else None)"

fun parseIPv6_loop ::
  "nat \<Rightarrow> string \<Rightarrow> string \<Rightarrow> nat option \<Rightarrow> (string \<times> nat option \<times> string) option" where
  "parseIPv6_loop 0 s ip ellipsis = Some (ip, ellipsis, s)"
| "parseIPv6_loop (Suc n) s ip ellipsis =
     (let digits = takeWhile isHex s; r = dropWhile isHex s in
      if digits = [] \<or> 4 < length digits then None
      else if r \<noteq> [] \<and> hd r = CHR ''.'' then
        (if ellipsis = None \<and> length ip \<noteq> 12 then None
         else if 16 < length ip + 4 then None
         else (case parseIPv4Fields s of
                 None \<Rightarrow> None
               | Some octets \<Rightarrow> Some (ip @ octets, ellipsis, [])))
      else
        (let acc = foldl (\<lambda>a c. a * 16 + hexValue c) 0 digits;
             ip' = ip @ [char_of (acc div 256), char_of (acc mod 256)]
         in case r of
              [] \<Rightarrow> Some (ip', ellipsis, [])
            | c # t \<Rightarrow>
                if c \<noteq> CHR '':'' then None
                else (case t of
                        [] \<Rightarrow> None
                      | d # u \<Rightarrow>
                          if d = CHR '':'' then
                            (if ellipsis \<noteq> None then None
                             else if u = [] then Some (ip', Some (length ip'), [])
                             else parseIPv6_loop n u ip' (Some (length ip')))
                          else parseIPv6_loop n t ip' ellipsis)))"

definition parseIPv6 :: "string \<Rightarrow> string option" where
  "parseIPv6 s =
     (if CHR ''%'' \<in> set s then None
      else if s = ''::'' then Some (replicate 16 (CHR 0x00))
      else
        (case (if take 2 s = ''::'' then parseIPv6_loop 8 (drop 2 s) [] (Some 0)
               else parseIPv6_loop 8 s [] None) of
           None \<Rightarrow> None
         | Some (ip, ellipsis, rest) \<Rightarrow>
             if rest \<noteq> [] then None
             else if length ip < 16 then
               (case ellipsis of
                  None \<Rightarrow> None
                | Some e \<Rightarrow> Some (take e ip @ replicate (16 - length ip) (CHR 0x00) @ drop e ip))
             else if ellipsis \<noteq> None then None
             else Some ip))"

definition parseIP :: "string \<Rightarrow> string option" where
  "parseIP s =
     (case dropWhile (\<lambda>c. c \<notin> set ''.:%'') s of
        [] \<Rightarrow> None
      | c # _ \<Rightarrow>
          if c = CHR ''.'' then
            map_option (\<lambda>octets. replicate 10 (CHR 0x00) @ [CHR 0xFF, CHR 0xFF] @ octets)
              (parseIPv4Fields s)
          else if c = CHR '':'' then parseIPv6 s
          else None)"

text \<open>A stand-in for the identifier generator: the \<open>n\<close>-th identifier it draws.\<close>

definition newIdentifier :: "nat \<Rightarrow> string" where
  "newIdentifier n = ''id'' @ replicate n (CHR ''+'')"

text \<open>
  Which option interface of the library each item implements. The item of \<open>readonly\<close> is
  the function \<open>llb.Readonly\<close> itself, not a value of type \<open>llb.MountOption\<close>: it implements
  none of the interfaces.
\<close>

fun llb_implements :: "item \<Rightarrow> opt_iface \<Rightarrow> bool" where
  "llb_implements WithDefault I = (I = ImageOption)"
| "llb_implements (Checksum d) I = (I = HTTPOption)"
| "llb_implements (Chmod m) I = (I = HTTPOption)"
| "llb_implements (llb_Filename f) I = (I = HTTPOption)"
| "llb_implements KeepGitDir I = (I = GitOption)"
| "llb_implements (IncludePatterns p) I = (I = LocalOption)"
| "llb_implements (ExcludePatterns p) I = (I = LocalOption)"
| "llb_implements (FollowPaths p) I = (I = LocalOption)"
| "llb_implements IgnoreCache I = (I = FrontendOption \<or> I = RunOption)"
| "llb_implements (WithFrontendInput k v) I = (I = FrontendOption)"
| "llb_implements (WithFrontendOpt k v) I = (I = FrontendOption)"
| "llb_implements (WithParents b) I = (I = MkdirOption)"
| "llb_implements (WithUser u) I = (I = MkdirOption \<or> I = MkfileOption \<or> I = CopyOption)"
| "llb_implements (WithCreatedTime t) I = (I = MkdirOption \<or> I = MkfileOption \<or> I = CopyOption)"
| "llb_implements (WithAllowNotFound b) I = (I = RmOption)"
| "llb_implements (WithAllowWildcard b) I = (I = RmOption)"
| "llb_implements (CopyInfoPtr cp) I = (I = CopyOption)"
| "llb_implements (SSHID i) I = (I = SSHOption)"
| "llb_implements (SSHSocketOpt t u g m) I = (I = SSHOption)"
| "llb_implements (SecretID i) I = (I = SecretOption)"
| "llb_implements (SecretFileOpt u g m) I = (I = SecretOption)"
| "llb_implements Readonly I = False"
| "llb_implements Tmpfs I = (I = MountOption)"
| "llb_implements (SourcePath p) I = (I = MountOption)"
| "llb_implements (AsPersistentCacheDir i m) I = (I = MountOption)"
| "llb_implements (OpaqueOption n) I = False"
| "llb_implements other I = (I = RunOption)"

text \<open>
  Modelled from the spec: the builtin table and the debug names of package report are not
  among the sources. The table holds the \<open>fs\<close> source and chain builtins and the \<open>string\<close>
  source builtins of the registry; the debug family is taken to be the one call
  \<open>breakpoint\<close>.
\<close>

definition builtinTable :: "ObjType \<Rightarrow> string \<Rightarrow> bool" where
  "builtinTable typ name =
     (if typ = Filesystem then
        name \<in> set [''scratch'', ''image'', ''http'', ''git'', ''local'', ''generate'', ''run'',
                        ''env'', ''dir'', ''user'', ''entrypoint'', ''mkdir'', ''mkfile'', ''rm'',
                        ''copy'']
      else if typ = StrT then name \<in> set [''value'', ''format'']
      else False)"

definition stdExtern :: extern where
  "stdExtern = \<lparr>Debugs = [''breakpoint''], Builtins = builtinTable,
     Split = shellquote_Split, Join = shellquote_Join, Sprintf = sprintf,
     ParseRFC3339 = parseRFC3339, ParseIP = parseIP, NewID = newIdentifier,
     implements = llb_implements\<rparr>"

subsection \<open>Expressions and user functions\<close>

text \<open>
  Modelled from the spec: the expression evaluators and the evaluation of user functions
  and aliases are functions of package codegen that are not among the sources. Section 4.6
  of the spec gives them: a literal evaluates to its value; an identifier bound to a field
  evaluates to the bound value; an identifier bound to a declaration is invoked as a
  nullary call if its return type is the expected one; a block literal evaluates its body
  as a block of its declared type; a user function evaluates its body in a child scope
  whose parameters are bound to the evaluated arguments; an alias evaluates its function
  and yields the value the alias callback captured at its call statement. Each function
  takes the evaluators it calls for nested expressions, which is where the depth limit of
  the spec enters.
\<close>

definition asState :: "val \<Rightarrow> State M" where
  "asState v = (case v of VState st \<Rightarrow> ret st | _ \<Rightarrow> throw (Panic TypeAssertion))"

definition asString :: "val \<Rightarrow> string M" where
  "asString v = (case v of VStr str \<Rightarrow> ret str | _ \<Rightarrow> throw (Panic TypeAssertion))"

definition asInt :: "val \<Rightarrow> int M" where
  "asInt v = (case v of VInt n \<Rightarrow> ret n | _ \<Rightarrow> throw (Panic TypeAssertion))"

definition asBool :: "val \<Rightarrow> bool M" where
  "asBool v = (case v of VBool b \<Rightarrow> ret b | _ \<Rightarrow> throw (Panic TypeAssertion))"

definition asOptions :: "val \<Rightarrow> item list M" where
  "asOptions v = (case v of VOptions os \<Rightarrow> ret os | _ \<Rightarrow> throw (Panic TypeAssertion))"

definition nullaryCall :: "ident \<Rightarrow> call_stmt" where
  "nullaryCall i = CallStmt noPos i [] None None"

text \<open>An identifier in an expression of type \<open>typ\<close>.\<close>

definition spec_identExpr ::
  "extern \<Rightarrow> evaluators \<Rightarrow> Scope \<Rightarrow> ObjType \<Rightarrow> string \<Rightarrow> aliasCallback \<Rightarrow> ident \<Rightarrow> val M" where
  "spec_identExpr X ev scope typ op ac i =
     (case Lookup scope (Name i) of
        None \<Rightarrow> throw (Panic NilDereference)
      | Some obj \<Rightarrow>
          (case Kind obj of
             DeclKind \<Rightarrow>
               (case Node obj of
                  FuncDeclNode n \<Rightarrow>
                    if Type_Type (d_Type n) = typ
                    then emitFuncDecl ev scope n (nullaryCall i) op ac
                    else throw (Panic TypeAssertion)
                | AliasDeclNode a \<Rightarrow> emitAliasDecl ev scope a (nullaryCall i)
                | _ \<Rightarrow> throw (Panic (PanicMsg ''unknown obj type'')))
           | _ \<Rightarrow> ret (Data obj)))"

definition spec_emitStringExpr ::
  "extern \<Rightarrow> evaluators \<Rightarrow> Scope \<Rightarrow> call_stmt \<Rightarrow> expr \<Rightarrow> string M" where
  "spec_emitStringExpr X ev scope call e =
     (case e_Ident e of
        Some i \<Rightarrow> bnd (spec_identExpr X ev scope StrT [] noopAliasCallback i) asString
      | None \<Rightarrow>
          (case e_BasicLit e of
             Some l \<Rightarrow> (case Str l of Some str \<Rightarrow> ret str | None \<Rightarrow> throw (Panic NilDereference))
           | None \<Rightarrow>
               (case e_FuncLit e of
                  Some lit \<Rightarrow> bnd (emitFuncLit X ev scope lit [] noopAliasCallback) asString
                | None \<Rightarrow> throw (Panic (PanicMsg ''unknown string expr'')))))"

definition spec_emitIntExpr :: "extern \<Rightarrow> evaluators \<Rightarrow> Scope \<Rightarrow> expr \<Rightarrow> int M" where
  "spec_emitIntExpr X ev scope e =
     (case e_Ident e of
        Some i \<Rightarrow> bnd (spec_identExpr X ev scope IntT [] noopAliasCallback i) asInt
      | None \<Rightarrow>
          (case e_BasicLit e of
             Some l \<Rightarrow>
               (case Decimal l of
                  Some n \<Rightarrow> ret n
                | None \<Rightarrow>
                    (case Numeric l of
                       Some n \<Rightarrow> ret (Value n)
                     | None \<Rightarrow> throw (Panic NilDereference)))
           | None \<Rightarrow> throw (Panic (PanicMsg ''unknown int expr''))))"

definition spec_emitBoolExpr :: "extern \<Rightarrow> evaluators \<Rightarrow> Scope \<Rightarrow> expr \<Rightarrow> bool M" where
  "spec_emitBoolExpr X ev scope e =
     (case e_Ident e of
        Some i \<Rightarrow> bnd (spec_identExpr X ev scope BoolT [] noopAliasCallback i) asBool
      | None \<Rightarrow>
          (case e_BasicLit e of
             Some l \<Rightarrow> (case Bool l of Some b \<Rightarrow> ret b | None \<Rightarrow> throw (Panic NilDereference))
           | None \<Rightarrow> throw (Panic (PanicMsg ''unknown bool expr''))))"

text \<open>An optional boolean argument: absent, it counts as true.\<close>

definition spec_maybeEmitBoolExpr ::
  "extern \<Rightarrow> evaluators \<Rightarrow> Scope \<Rightarrow> expr list \<Rightarrow> bool M" where
  "spec_maybeEmitBoolExpr X ev scope args =
     (case args of [] \<Rightarrow> ret True | a # rest \<Rightarrow> spec_emitBoolExpr X ev scope a)"

text \<open>
  A filesystem expression. An identifier that the scope does not bind and the registry
  lists as an \<open>fs\<close> builtin (as \<open>scratch\<close> in \<open>mount scratch "/out"\<close>) is invoked as a nullary
  call in a block of its own.
\<close>

definition spec_emitFilesystemExpr ::
  "extern \<Rightarrow> evaluators \<Rightarrow> Scope \<Rightarrow> call_stmt option \<Rightarrow> expr \<Rightarrow> aliasCallback \<Rightarrow> State M" where
  "spec_emitFilesystemExpr X ev scope call e ac =
     (case e_Ident e of
        Some i \<Rightarrow>
          if Lookup scope (Name i) = None \<and> Builtins X Filesystem (Name i) then
            emitFilesystemBlock X ev scope [Stmt (Some (nullaryCall i)) None None] ac
          else bnd (spec_identExpr X ev scope Filesystem [] ac i) asState
      | None \<Rightarrow>
          (case e_BasicLit e of
             Some l \<Rightarrow> throw (Panic TypeAssertion)
           | None \<Rightarrow>
               (case e_FuncLit e of
                  Some lit \<Rightarrow> bnd (emitFuncLit X ev scope lit [] ac) asState
                | None \<Rightarrow> throw (Panic (PanicMsg ''unknown fs expr'')))))"

definition spec_emitOptionExpr ::
  "extern \<Rightarrow> evaluators \<Rightarrow> Scope \<Rightarrow> call_stmt \<Rightarrow> string \<Rightarrow> expr \<Rightarrow> item list M" where
  "spec_emitOptionExpr X ev scope call op e =
     (case e_Ident e of
        Some i \<Rightarrow> bnd (spec_identExpr X ev scope Option op noopAliasCallback i) asOptions
      | None \<Rightarrow>
          (case e_BasicLit e of
             Some l \<Rightarrow> throw (Panic TypeAssertion)
           | None \<Rightarrow>
               (case e_FuncLit e of
                  Some lit \<Rightarrow> bnd (emitFuncLit X ev scope lit op noopAliasCallback) asOptions
                | None \<Rightarrow> throw (Panic (PanicMsg ''unknown option expr'')))))"

text \<open>One argument of a user function call, evaluated at the type of its parameter.\<close>

definition spec_bindArg ::
  "extern \<Rightarrow> evaluators \<Rightarrow> Scope \<Rightarrow> call_stmt \<Rightarrow> string \<Rightarrow> aliasCallback \<Rightarrow> field \<times> expr
     \<Rightarrow> (string \<times> Object) M" where
  "spec_bindArg X ev scope call op ac pa =
     bnd (if Type_Type (f_Type (fst pa)) = Filesystem then
            bnd (emitFilesystemExpr ev scope (Some call) (snd pa) ac) (\<lambda>st. ret (VState st))
          else if Type_Type (f_Type (fst pa)) = StrT then
            bnd (emitStringExpr ev scope call (snd pa)) (\<lambda>str. ret (VStr str))
          else if Type_Type (f_Type (fst pa)) = IntT then
            bnd (emitIntExpr ev scope (snd pa)) (\<lambda>n. ret (VInt n))
          else if Type_Type (f_Type (fst pa)) = BoolT then
            bnd (maybeEmitBoolExpr ev scope [snd pa]) (\<lambda>b. ret (VBool b))
          else if Type_Type (f_Type (fst pa)) = Option then
            bnd (emitOptionExpr ev scope call op (snd pa)) (\<lambda>os. ret (VOptions os))
          else throw (Panic (PanicMsg ''unknown parameter type'')))
       (\<lambda>v. ret (Name (f_Name (fst pa)),
                  \<lparr>Kind = FieldKind, Node = FieldNode (fst pa), Data = v\<rparr>))"

definition spec_emitFuncDecl ::
  "extern \<Rightarrow> evaluators \<Rightarrow> Scope \<Rightarrow> func_decl \<Rightarrow> call_stmt \<Rightarrow> string \<Rightarrow> aliasCallback \<Rightarrow> val M" where
  "spec_emitFuncDecl X ev scope fn call op ac =
     (if length (Args call) \<noteq> length (d_Params fn) then
        throw (ErrExternal ''wrong number of arguments'')
      else
        bnd (mapM (spec_bindArg X ev scope call op ac) (zip (d_Params fn) (Args call)))
          (\<lambda>bindings.
            if Type_Type (d_Type fn) = Filesystem then
              bnd (emitFilesystemBlock X ev (Scope bindings (Some scope))
                     (NonEmptyStmts (d_Body fn)) ac) (\<lambda>st. ret (VState st))
            else if Type_Type (d_Type fn) = StrT then
              bnd (emitStringBlock X ev (Scope bindings (Some scope))
                     (NonEmptyStmts (d_Body fn))) (\<lambda>str. ret (VStr str))
            else if Type_Type (d_Type fn) = Option then
              bnd (emitOptions X ev (Scope bindings (Some scope)) op
                     (NonEmptyStmts (d_Body fn)) ac) (\<lambda>os. ret (VOptions os))
            else throw (Panic (PanicMsg ''unimplemented''))))"

text \<open>
  An alias: its function is evaluated with a callback that captures the value passed for
  the alias's own call statement; the last value captured is the alias's value. What the
  callback captured is local to this evaluation.
\<close>

definition aliasValue :: "(call_stmt \<times> val) list \<Rightarrow> val" where
  "aliasValue cs = (case cs of [] \<Rightarrow> VNil | _ \<Rightarrow> snd (last cs))"

definition spec_emitAliasDecl ::
  "extern \<Rightarrow> evaluators \<Rightarrow> Scope \<Rightarrow> alias_decl \<Rightarrow> call_stmt \<Rightarrow> val M" where
  "spec_emitAliasDecl X ev scope a call =
     (case a_Func a of
        None \<Rightarrow> throw (Panic NilDereference)
      | Some fn \<Rightarrow>
          (\<lambda>s. case emitFuncDecl ev scope fn call []
                       (\<lambda>c v. if a_Call a = Some c then captureAlias c v else (\<lambda>s'. s'))
                       (s\<lparr>captured := []\<rparr>) of
                 (Inl e, s') \<Rightarrow> (Inl e, s'\<lparr>captured := captured s\<rparr>)
               | (Inr v, s') \<Rightarrow> (Inr (aliasValue (captured s')), s'\<lparr>captured := captured s\<rparr>)))"

definition topLevel :: "val M \<Rightarrow> env \<Rightarrow> (panic + State \<times> error option) \<times> env" where
  "topLevel m s =
     (case m s of
        (Inl (Panic p), s') \<Rightarrow> (Inl p, s')
      | (Inl e, s') \<Rightarrow> (Inr (Scratch, Some e), s')
      | (Inr (VState st), s') \<Rightarrow> (Inr (st, None), s')
      | (Inr v, s') \<Rightarrow> (Inl TypeAssertion, s'))"

definition noEvaluators :: evaluators where
  "noEvaluators = \<lparr>
     emitStringExpr = (\<lambda>scope call e. throw ErrRecursionLimit),
     emitIntExpr = (\<lambda>scope e. throw ErrRecursionLimit),
     maybeEmitBoolExpr = (\<lambda>scope args. throw ErrRecursionLimit),
     emitFilesystemExpr = (\<lambda>scope call e ac. throw ErrRecursionLimit),
     emitOptionExpr = (\<lambda>scope call op e. throw ErrRecursionLimit),
     emitFuncDecl = (\<lambda>scope fn call op ac. throw ErrRecursionLimit),
     emitAliasDecl = (\<lambda>scope a call. throw ErrRecursionLimit),
     emitFilesystemFuncDecl = (\<lambda>scope fn call ac. topLevel (throw ErrRecursionLimit)),
     emitFilesystemAliasDecl = (\<lambda>scope a call. topLevel (throw ErrRecursionLimit))\<rparr>"

text \<open>
  The evaluators with a depth limit: each level of nesting (an argument expression, a user
  function, an alias) uses up one unit, and at depth 0 evaluation fails with the recursion
  limit, as the spec mandates.
\<close>

primrec specEvaluators :: "extern \<Rightarrow> nat \<Rightarrow> evaluators" where
  "specEvaluators X 0 = noEvaluators"
| "specEvaluators X (Suc n) = \<lparr>
     emitStringExpr = spec_emitStringExpr X (specEvaluators X n),
     emitIntExpr = spec_emitIntExpr X (specEvaluators X n),
     maybeEmitBoolExpr = spec_maybeEmitBoolExpr X (specEvaluators X n),
     emitFilesystemExpr = spec_emitFilesystemExpr X (specEvaluators X n),
     emitOptionExpr = spec_emitOptionExpr X (specEvaluators X n),
     emitFuncDecl = spec_emitFuncDecl X (specEvaluators X n),
     emitAliasDecl = spec_emitAliasDecl X (specEvaluators X n),
     emitFilesystemFuncDecl =
       (\<lambda>scope fn call ac. topLevel (spec_emitFuncDecl X (specEvaluators X n) scope fn call [] ac)),
     emitFilesystemAliasDecl =
       (\<lambda>scope a call. topLevel (spec_emitAliasDecl X (specEvaluators X n) scope a call))\<rparr>"

section \<open>Basic facts\<close>

text \<open>
  The equations of the mutually recursive option emitters rewrite into each other without
  end, so they are applied by hand.
\<close>

declare emitWithOption.simps [simp del]
declare emitOptions.simps [simp del]
declare emitExecOptions.simps [simp del]

lemma bnd_ret [simp]: "bnd (ret x) f = f x"
  by (simp add: bnd_def ret_def)

lemma bnd_throw [simp]: "bnd (throw e) f = throw e"
  by (simp add: bnd_def throw_def)

lemma bnd_lift_Inr [simp]: "bnd (lift (Inr x)) f = f x"
  by (simp add: bnd_def lift_def)

lemma bnd_lift_Inl [simp]: "bnd (lift (Inl e)) f = throw e"
  by (simp add: bnd_def lift_def throw_def)

lemma bnd_assoc [simp]: "bnd (bnd m f) g = bnd m (\<lambda>x. bnd (f x) g)"
  by (auto simp: bnd_def fun_eq_iff split: prod.splits sum.splits)

lemma bnd_Inr: "m s = (Inr x, s') \<Longrightarrow> bnd m f s = f x s'"
  by (simp add: bnd_def)

lemma bnd_Inl: "m s = (Inl e, s') \<Longrightarrow> bnd m f s = (Inl e, s')"
  by (simp add: bnd_def)

lemma ret_apply [simp]: "ret x s = (Inr x, s)"
  by (simp add: ret_def)

lemma throw_apply [simp]: "throw e s = (Inl e, s)"
  by (simp add: throw_def)

lemma index_0 [simp]: "index (x # xs) 0 = ret x"
  by (simp add: index_def)

lemma index_Suc [simp]: "index (x # xs) (Suc n) = index xs n"
  by (simp add: index_def)

lemma index_Nil [simp]: "index [] n = throw (Panic IndexOutOfRange)"
  by (simp add: index_def)

lemma emitWithOption_None [simp]: "emitWithOption X ev scope parent None ac = ret []"
  by (simp add: emitWithOption.simps)

lemma emitExecOptions_Cons:
  "emitExecOptions X ev scope op (Stmt (Some c) nl doc # rest) ac =
     bnd (emitWithOption X ev scope c (c_WithOpt c) ac) (\<lambda>iopts.
     bnd (emitExecOptions_stmt X ev scope op ac c iopts [])
       (forStmts
          (\<lambda>c opts. bnd (emitWithOption X ev scope c (c_WithOpt c) ac)
             (\<lambda>iopts. emitExecOptions_stmt X ev scope op ac c iopts opts))
          rest))"
  by (simp add: emitExecOptions.simps)

lemma spec_emitStringExpr_lit [simp]:
  "spec_emitStringExpr X ev scope c (NewStringExpr v) = ret v"
  by (simp add: spec_emitStringExpr_def NewStringExpr_def)

subsection \<open>Enumerated option strings and timestamps\<close>

lemma parseRFC3339_yesterday:
  "parseRFC3339 ''yesterday'' = Inl (ErrExternal ''parsing time: not RFC 3339'')"
  by code_simp

lemma enum_network:
  assumes "Name (Func c) = ''network''" and "c_WithOpt c = None" and "Args c = a # args"
    and "emitStringExpr ev scope c a s = (Inr m, s')"
  shows "(m = ''unset'' \<longrightarrow> emitOptions X ev scope ''run'' [Stmt (Some c) None None] ac s
            = (Inr [Network NetMode_UNSET], s')) \<and>
   (m = ''host'' \<longrightarrow> emitOptions X ev scope ''run'' [Stmt (Some c) None None] ac s
            = (Inr [Network NetMode_HOST], s')) \<and>
   (m = ''node'' \<longrightarrow> emitOptions X ev scope ''run'' [Stmt (Some c) None None] ac s
            = (Inr [Network NetMode_NONE], s')) \<and>
   (m \<notin> {''unset'', ''host'', ''node''} \<longrightarrow>
      emitOptions X ev scope ''run'' (Stmt (Some c) None None # rest) ac s
        = (Inl (Panic (PanicMsg ''unknown network mode'')), s'))"
  using assms(1-3)
  by (simp add: emitOptions.simps emitExecOptions_Cons emitExecOptions_stmt_def networkMode_def
        bnd_Inr [of "emitStringExpr ev scope c a" s m s', OF assms(4)])

lemma enum_security:
  assumes "Name (Func c) = ''security''" and "c_WithOpt c = None" and "Args c = a # args"
    and "emitStringExpr ev scope c a s = (Inr m, s')"
  shows "(m = ''sandbox'' \<longrightarrow> emitOptions X ev scope ''run'' [Stmt (Some c) None None] ac s
            = (Inr [Security SecurityMode_SANDBOX], s')) \<and>
   (m = ''insecure'' \<longrightarrow> emitOptions X ev scope ''run'' [Stmt (Some c) None None] ac s
            = (Inr [Security SecurityMode_INSECURE], s')) \<and>
   (m \<notin> {''sandbox'', ''insecure''} \<longrightarrow>
      emitOptions X ev scope ''run'' (Stmt (Some c) None None # rest) ac s
        = (Inl (Panic (PanicMsg ''unknown network mode'')), s'))"
  using assms(1-3)
  by (simp add: emitOptions.simps emitExecOptions_Cons emitExecOptions_stmt_def securityMode_def
        bnd_Inr [of "emitStringExpr ev scope c a" s m s', OF assms(4)])

lemma enum_cache:
  assumes "Name (Func c) = ''cache''" and "Args c = a0 # a1 # args"
    and "emitStringExpr ev scope c a0 s = (Inr i, s1)"
    and "emitStringExpr ev scope c a1 s1 = (Inr m, s')"
  shows "(m = ''shared'' \<longrightarrow> emitOptions X ev scope ''mount'' [Stmt (Some c) None None] ac s
            = (Inr [AsPersistentCacheDir i CacheMountShared], s')) \<and>
   (m = ''private'' \<longrightarrow> emitOptions X ev scope ''mount'' [Stmt (Some c) None None] ac s
            = (Inr [AsPersistentCacheDir i CacheMountPrivate], s')) \<and>
   (m = ''locked'' \<longrightarrow> emitOptions X ev scope ''mount'' [Stmt (Some c) None None] ac s
            = (Inr [AsPersistentCacheDir i CacheMountLocked], s')) \<and>
   (m \<notin> {''shared'', ''private'', ''locked''} \<longrightarrow>
      emitOptions X ev scope ''mount'' (Stmt (Some c) None None # rest) ac s
        = (Inl (Panic (PanicMsg ''unknown sharing mode'')), s'))"
  using assms(1-2)
  by (simp add: emitOptions.simps emitMountOptions_def emitMountOptions_stmt_def sharingMode_def
        bnd_Inr [of "emitStringExpr ev scope c a0" s i s1, OF assms(3)]
        bnd_Inr [of "emitStringExpr ev scope c a1" s1 m s', OF assms(4)])

lemma createdTime_result:
  assumes "Args c = a # args" and "emitStringExpr ev scope c a s = (Inr v, s')"
  shows "createdTime X ev scope c opts s =
     (case ParseRFC3339 X v of
        Inl e \<Rightarrow> (Inl e, s')
      | Inr t \<Rightarrow> (Inr (opts @ [WithCreatedTime t]), s'))"
  using assms(1)
  by (cases "ParseRFC3339 X v")
     (simp_all add: createdTime_def bnd_Inr [of "emitStringExpr ev scope c a" s v s', OF assms(2)])

lemma createdTime_invalid:
  assumes "Name (Func c) = ''createdTime''" and "Args c = a # args"
    and "emitStringExpr ev scope c a s = (Inr v, s')" and "ParseRFC3339 X v = Inl e"
    and "op \<in> {''mkdir'', ''mkfile'', ''copy''}"
  shows "emitOptions X ev scope op (Stmt (Some c) None None # rest) ac s = (Inl e, s')"
  using assms(1,4,5) createdTime_result [OF assms(2,3), of X]
  by (auto simp: emitOptions.simps emitMkdirOptions_def emitMkdirOptions_stmt_def
        emitMkfileOptions_def emitMkfileOptions_stmt_def emitCopyOptions_def
        emitCopyOptions_stmt_def bnd_Inl)

lemma createdTime_valid:
  assumes "Name (Func c) = ''createdTime''" and "Args c = a # args"
    and "emitStringExpr ev scope c a s = (Inr v, s')" and "ParseRFC3339 X v = Inr t"
  shows "emitOptions X ev scope ''mkdir'' [Stmt (Some c) None None] ac s
           = (Inr [WithCreatedTime t], s') \<and>
         emitOptions X ev scope ''mkfile'' [Stmt (Some c) None None] ac s
           = (Inr [WithCreatedTime t], s') \<and>
         emitOptions X ev scope ''copy'' [Stmt (Some c) None None] ac s
           = (Inr [CopyInfoPtr emptyCopyInfo, WithCreatedTime t], s')"
  using assms(1,4) createdTime_result [OF assms(2,3), of X]
  by (auto simp: emitOptions.simps emitMkdirOptions_def emitMkdirOptions_stmt_def
        emitMkfileOptions_def emitMkfileOptions_stmt_def emitCopyOptions_def
        emitCopyOptions_stmt_def bnd_Inr)

section \<open>Properties\<close>

text \<open>
  C9. \<open>FuncDecl.End\<close> reads \<open>d.Body.CloseBrace\<close>: on a declaration whose optional body is
  absent it dereferences nil and panics, and on a declaration with a body and its closing
  brace it returns the position one past the brace.
\<close>

theorem FuncDecl_End_requires_body:
  "(d_Body d = None \<longrightarrow> FuncDecl_End d = Inl (Panic NilDereference)) \<and>
   (\<forall>stmts cb. d_Body d = Some (BlockStmt stmts (Some cb)) \<longrightarrow>
      FuncDecl_End d = Inr (shiftPosition (cb_Pos cb) 1 0))"
  by (simp add: FuncDecl_End_def CloseBrace_End_def)

theorem FuncDecl_End_requires_body_witness:
  "FuncDecl_End (FuncDecl noPos (NewType Filesystem) None (NewIdent ''f'') [] None)
     = Inl (Panic NilDereference) \<and>
   FuncDecl_End (FuncDecl noPos (NewType Filesystem) None (NewIdent ''f'') []
                   (Some (BlockStmt [] (Some (CloseBrace noPos)))))
     = Inr (shiftPosition noPos 1 0)"
  using FuncDecl_End_requires_body
          [of "FuncDecl noPos (NewType Filesystem) None (NewIdent ''f'') [] None"]
        FuncDecl_End_requires_body
          [of "FuncDecl noPos (NewType Filesystem) None (NewIdent ''f'') []
                 (Some (BlockStmt [] (Some (CloseBrace noPos))))"]
  by simp

text \<open>
  C5, as the code has it. In an option block of \<open>run\<close>, a \<open>network\<close> argument \<open>unset\<close>, \<open>host\<close> or
  \<open>node\<close> and a \<open>security\<close> argument \<open>sandbox\<close> or \<open>insecure\<close> become the items with the
  corresponding modes, and in an option block of \<open>mount\<close> a \<open>cache\<close> sharing argument
  \<open>shared\<close>, \<open>private\<close> or \<open>locked\<close> becomes the cache item with that mode. On any other
  string the evaluation does not return an error: it panics, whatever statements follow.
  \<open>createdTime\<close> in an option block of \<open>mkdir\<close>, \<open>mkfile\<close> or \<open>copy\<close> returns the error of the
  timestamp parser on a string the parser rejects, and the time item on one it accepts.
\<close>

theorem option_strings:
  "(\<forall>c a args m s s' rest.
      Name (Func c) = ''network'' \<and> c_WithOpt c = None \<and> Args c = a # args \<and>
      emitStringExpr ev scope c a s = (Inr m, s') \<longrightarrow>
        (m = ''unset'' \<longrightarrow> emitOptions X ev scope ''run'' [Stmt (Some c) None None] ac s
           = (Inr [Network NetMode_UNSET], s')) \<and>
        (m = ''host'' \<longrightarrow> emitOptions X ev scope ''run'' [Stmt (Some c) None None] ac s
           = (Inr [Network NetMode_HOST], s')) \<and>
        (m = ''node'' \<longrightarrow> emitOptions X ev scope ''run'' [Stmt (Some c) None None] ac s
           = (Inr [Network NetMode_NONE], s')) \<and>
        (m \<notin> {''unset'', ''host'', ''node''} \<longrightarrow>
           emitOptions X ev scope ''run'' (Stmt (Some c) None None # rest) ac s
             = (Inl (Panic (PanicMsg ''unknown network mode'')), s'))) \<and>
   (\<forall>c a args m s s' rest.
      Name (Func c) = ''security'' \<and> c_WithOpt c = None \<and> Args c = a # args \<and>
      emitStringExpr ev scope c a s = (Inr m, s') \<longrightarrow>
        (m = ''sandbox'' \<longrightarrow> emitOptions X ev scope ''run'' [Stmt (Some c) None None] ac s
           = (Inr [Security SecurityMode_SANDBOX], s')) \<and>
        (m = ''insecure'' \<longrightarrow> emitOptions X ev scope ''run'' [Stmt (Some c) None None] ac s
           = (Inr [Security SecurityMode_INSECURE], s')) \<and>
        (m \<notin> {''sandbox'', ''insecure''} \<longrightarrow>
           emitOptions X ev scope ''run'' (Stmt (Some c) None None # rest) ac s
             = (Inl (Panic (PanicMsg ''unknown network mode'')), s'))) \<and>
   (\<forall>c a0 a1 args i m s s1 s' rest.
      Name (Func c) = ''cache'' \<and> Args c = a0 # a1 # args \<and>
      emitStringExpr ev scope c a0 s = (Inr i, s1) \<and>
      emitStringExpr ev scope c a1 s1 = (Inr m, s') \<longrightarrow>
        (m = ''shared'' \<longrightarrow> emitOptions X ev scope ''mount'' [Stmt (Some c) None None] ac s
           = (Inr [AsPersistentCacheDir i CacheMountShared], s')) \<and>
        (m = ''private'' \<longrightarrow> emitOptions X ev scope ''mount'' [Stmt (Some c) None None] ac s
           = (Inr [AsPersistentCacheDir i CacheMountPrivate], s')) \<and>
        (m = ''locked'' \<longrightarrow> emitOptions X ev scope ''mount'' [Stmt (Some c) None None] ac s
           = (Inr [AsPersistentCacheDir i CacheMountLocked], s')) \<and>
        (m \<notin> {''shared'', ''private'', ''locked''} \<longrightarrow>
           emitOptions X ev scope ''mount'' (Stmt (Some c) None None # rest) ac s
             = (Inl (Panic (PanicMsg ''unknown sharing mode'')), s'))) \<and>
   (\<forall>c a args v s s' rest op.
      Name (Func c) = ''createdTime'' \<and> Args c = a # args \<and>
      emitStringExpr ev scope c a s = (Inr v, s') \<and>
      op \<in> {''mkdir'', ''mkfile'', ''copy''} \<longrightarrow>
        (\<forall>e. ParseRFC3339 X v = Inl e \<longrightarrow>
           emitOptions X ev scope op (Stmt (Some c) None None # rest) ac s = (Inl e, s')) \<and>
        (\<forall>t. ParseRFC3339 X v = Inr t \<longrightarrow>
           emitOptions X ev scope ''mkdir'' [Stmt (Some c) None None] ac s
             = (Inr [WithCreatedTime t], s') \<and>
           emitOptions X ev scope ''mkfile'' [Stmt (Some c) None None] ac s
             = (Inr [WithCreatedTime t], s') \<and>
           emitOptions X ev scope ''copy'' [Stmt (Some c) None None] ac s
             = (Inr [CopyInfoPtr emptyCopyInfo, WithCreatedTime t], s')))"
proof (intro conjI allI impI)
  fix c a args m s s' rest
  assume h: "Name (Func c) = ''network'' \<and> c_WithOpt c = None \<and> Args c = a # args \<and>
      emitStringExpr ev scope c a s = (Inr m, s')"
  note n = enum_network [of c a args ev scope s m s' X ac rest]
  { assume "m = ''unset''"
    then show "emitOptions X ev scope ''run'' [Stmt (Some c) None None] ac s
        = (Inr [Network NetMode_UNSET], s')" using h n by blast }
  { assume "m = ''host''"
    then show "emitOptions X ev scope ''run'' [Stmt (Some c) None None] ac s
        = (Inr [Network NetMode_HOST], s')" using h n by blast }
  { assume "m = ''node''"
    then show "emitOptions X ev scope ''run'' [Stmt (Some c) None None] ac s
        = (Inr [Network NetMode_NONE], s')" using h n by blast }
  { assume "m \<notin> {''unset'', ''host'', ''node''}"
    then show "emitOptions X ev scope ''run'' (Stmt (Some c) None None # rest) ac s
        = (Inl (Panic (PanicMsg ''unknown network mode'')), s')" using h n by blast }
next
  fix c a args m s s' rest
  assume h: "Name (Func c) = ''security'' \<and> c_WithOpt c = None \<and> Args c = a # args \<and>
      emitStringExpr ev scope c a s = (Inr m, s')"
  note n = enum_security [of c a args ev scope s m s' X ac rest]
  { assume "m = ''sandbox''"
    then show "emitOptions X ev scope ''run'' [Stmt (Some c) None None] ac s
        = (Inr [Security SecurityMode_SANDBOX], s')" using h n by blast }
  { assume "m = ''insecure''"
    then show "emitOptions X ev scope ''run'' [Stmt (Some c) None None] ac s
        = (Inr [Security SecurityMode_INSECURE], s')" using h n by blast }
  { assume "m \<notin> {''sandbox'', ''insecure''}"
    then show "emitOptions X ev scope ''run'' (Stmt (Some c) None None # rest) ac s
        = (Inl (Panic (PanicMsg ''unknown network mode'')), s')" using h n by blast }
next
  fix c a0 a1 args i m s s1 s' rest
  assume h: "Name (Func c) = ''cache'' \<and> Args c = a0 # a1 # args \<and>
      emitStringExpr ev scope c a0 s = (Inr i, s1) \<and>
      emitStringExpr ev scope c a1 s1 = (Inr m, s')"
  note n = enum_cache [of c a0 a1 args ev scope s i s1 m s' X ac rest]
  { assume "m = ''shared''"
    then show "emitOptions X ev scope ''mount'' [Stmt (Some c) None None] ac s
        = (Inr [AsPersistentCacheDir i CacheMountShared], s')" using h n by blast }
  { assume "m = ''private''"
    then show "emitOptions X ev scope ''mount'' [Stmt (Some c) None None] ac s
        = (Inr [AsPersistentCacheDir i CacheMountPrivate], s')" using h n by blast }
  { assume "m = ''locked''"
    then show "emitOptions X ev scope ''mount'' [Stmt (Some c) None None] ac s
        = (Inr [AsPersistentCacheDir i CacheMountLocked], s')" using h n by blast }
  { assume "m \<notin> {''shared'', ''private'', ''locked''}"
    then show "emitOptions X ev scope ''mount'' (Stmt (Some c) None None # rest) ac s
        = (Inl (Panic (PanicMsg ''unknown sharing mode'')), s')" using h n by blast }
next
  fix c a args v s s' rest op e
  assume h: "Name (Func c) = ''createdTime'' \<and> Args c = a # args \<and>
      emitStringExpr ev scope c a s = (Inr v, s') \<and> op \<in> {''mkdir'', ''mkfile'', ''copy''}"
    and p: "ParseRFC3339 X v = Inl e"
  show "emitOptions X ev scope op (Stmt (Some c) None None # rest) ac s = (Inl e, s')"
    using h p createdTime_invalid [of c a args ev scope s v s' X e op rest ac] by blast
next
  fix c a args v s s' rest op t
  assume h: "Name (Func c) = ''createdTime'' \<and> Args c = a # args \<and>
      emitStringExpr ev scope c a s = (Inr v, s') \<and> op \<in> {''mkdir'', ''mkfile'', ''copy''}"
    and p: "ParseRFC3339 X v = Inr t"
  note n = createdTime_valid [of c a args ev scope s v s' X t ac]
  show "emitOptions X ev scope ''mkdir'' [Stmt (Some c) None None] ac s
      = (Inr [WithCreatedTime t], s')" using h p n by blast
  show "emitOptions X ev scope ''mkfile'' [Stmt (Some c) None None] ac s
      = (Inr [WithCreatedTime t], s')" using h p n by blast
  show "emitOptions X ev scope ''copy'' [Stmt (Some c) None None] ac s
      = (Inr [CopyInfoPtr emptyCopyInfo, WithCreatedTime t], s')" using h p n by blast
qed

theorem option_strings_witness:
  "emitOptions stdExtern (specEvaluators stdExtern 1) (Scope [] None) ''run''
     [NewCallStmt ''network'' [NewStringExpr ''host''] None None] noopAliasCallback (newInfo 0)
   = (Inr [Network NetMode_HOST], newInfo 0) \<and>
   emitOptions stdExtern (specEvaluators stdExtern 1) (Scope [] None) ''mkdir''
     [NewCallStmt ''createdTime'' [NewStringExpr ''yesterday''] None None] noopAliasCallback
     (newInfo 0)
   = (Inl (ErrExternal ''parsing time: not RFC 3339''), newInfo 0)"
proof -
  note T = option_strings [of "specEvaluators stdExtern 1" "Scope [] None" stdExtern
             noopAliasCallback]
  have 1: "emitOptions stdExtern (specEvaluators stdExtern 1) (Scope [] None) ''run''
     [NewCallStmt ''network'' [NewStringExpr ''host''] None None] noopAliasCallback (newInfo 0)
   = (Inr [Network NetMode_HOST], newInfo 0)"
    using T [THEN conjunct1, rule_format,
             of "CallStmt noPos (NewIdent ''network'') [NewStringExpr ''host''] None None"
                "NewStringExpr ''host''" "[]" "newInfo 0" "''host''" "newInfo 0"]
    by (simp add: NewCallStmt_def NewIdent_def)
  have 2: "emitOptions stdExtern (specEvaluators stdExtern 1) (Scope [] None) ''mkdir''
     [NewCallStmt ''createdTime'' [NewStringExpr ''yesterday''] None None] noopAliasCallback
     (newInfo 0)
   = (Inl (ErrExternal ''parsing time: not RFC 3339''), newInfo 0)"
    using T [THEN conjunct2, THEN conjunct2, THEN conjunct2, rule_format,
             of "CallStmt noPos (NewIdent ''createdTime'') [NewStringExpr ''yesterday''] None None"
                "NewStringExpr ''yesterday''" "[]" "newInfo 0" "''yesterday''" "newInfo 0"
                "''mkdir''" "[]"]
    by (simp add: NewCallStmt_def NewIdent_def stdExtern_def parseRFC3339_yesterday)
  show ?thesis using 1 2 by simp
qed

text \<open>
  An unknown \<open>network\<close> string: the evaluation panics; no error is returned.
\<close>

theorem network_unknown_counterexample:
  "emitOptions stdExtern (specEvaluators stdExtern 1) (Scope [] None) ''run''
     [NewCallStmt ''network'' [NewStringExpr ''bridge''] None None] noopAliasCallback (newInfo 0)
   = (Inl (Panic (PanicMsg ''unknown network mode'')), newInfo 0)"
  using enum_network [of "CallStmt noPos (NewIdent ''network'') [NewStringExpr ''bridge''] None None"
           "NewStringExpr ''bridge''" "[]" "specEvaluators stdExtern 1" "Scope [] None" "newInfo 0"
           "''bridge''" "newInfo 0" stdExtern noopAliasCallback "[]"]
  by (simp add: NewCallStmt_def NewIdent_def)

subsection \<open>Source statements and their options\<close>

lemma stdExtern_sel [simp]:
  "Debugs stdExtern = [''breakpoint'']" "Builtins stdExtern = builtinTable"
  "Split stdExtern = shellquote_Split" "Join stdExtern = shellquote_Join"
  "Sprintf stdExtern = sprintf" "ParseRFC3339 stdExtern = parseRFC3339"
  "ParseIP stdExtern = parseIP" "NewID stdExtern = newIdentifier"
  "implements stdExtern = llb_implements"
  by (simp_all add: stdExtern_def)

lemma specEvaluators_sel [simp]:
  "emitStringExpr (specEvaluators X (Suc n)) = spec_emitStringExpr X (specEvaluators X n)"
  "emitIntExpr (specEvaluators X (Suc n)) = spec_emitIntExpr X (specEvaluators X n)"
  "maybeEmitBoolExpr (specEvaluators X (Suc n)) = spec_maybeEmitBoolExpr X (specEvaluators X n)"
  "emitFilesystemExpr (specEvaluators X (Suc n)) = spec_emitFilesystemExpr X (specEvaluators X n)"
  "emitOptionExpr (specEvaluators X (Suc n)) = spec_emitOptionExpr X (specEvaluators X n)"
  "emitFuncDecl (specEvaluators X (Suc n)) = spec_emitFuncDecl X (specEvaluators X n)"
  "emitAliasDecl (specEvaluators X (Suc n)) = spec_emitAliasDecl X (specEvaluators X n)"
  "emitFilesystemFuncDecl (specEvaluators X (Suc n)) =
     (\<lambda>scope fn call ac. topLevel (spec_emitFuncDecl X (specEvaluators X n) scope fn call [] ac))"
  "emitFilesystemAliasDecl (specEvaluators X (Suc n)) =
     (\<lambda>scope a call. topLevel (spec_emitAliasDecl X (specEvaluators X n) scope a call))"
  by simp_all

lemma assertOptions_Inr: "assertOptions X I iopts = Inr opts \<Longrightarrow> opts = iopts"
  by (induction iopts arbitrary: opts) (auto split: if_splits sum.splits)

lemma assertOptions_all:
  "(\<exists>opts. assertOptions X I iopts = Inr opts) = list_all (\<lambda>i. implements X i I) iopts"
  by (induction iopts) (auto split: sum.splits)

lemma assertOptions_ok:
  "list_all (\<lambda>i. implements X i I) iopts \<Longrightarrow> assertOptions X I iopts = Inr iopts"
  using assertOptions_all [of X I iopts] assertOptions_Inr by blast

lemma local_stmt:
  assumes "Name (Func call) = ''local''"
    and w: "emitWithOption X ev scope call (c_WithOpt call) ac s = (Inr iopts, s1)"
    and "Args call = a # args"
    and p: "emitStringExpr ev scope call a s1 = (Inr path, s2)"
    and "list_all (\<lambda>i. implements X i LocalOption) iopts"
  shows "emitFilesystemSourceStmt X ev scope call ac s
     = (Inr (Local (NewID X (idgen s2)) []),
        s2\<lparr>idgen := Suc (idgen s2), Locals := (Locals s2)(NewID X (idgen s2) \<mapsto> path)\<rparr>)"
  using assms(1,3) assertOptions_ok [OF assms(5)]
  by (simp add: emitFilesystemSourceStmt_def newID_def setLocal_def modify_def
        bnd_Inr [of "emitWithOption X ev scope call (c_WithOpt call) ac" s iopts s1, OF w]
        bnd_Inr [of "emitStringExpr ev scope call a" s1 path s2, OF p])
     (simp add: bnd_def)

lemma Generate_FuncDecl:
  assumes "applyOptions opts (newInfo seed) = (None, info)"
    and "Lookup (file_Scope file) (Name (Func call)) = Some obj"
    and "Debug info (file_Scope file) (FileNode file) VNil = None"
    and "Kind obj = DeclKind" and "Node obj = FuncDeclNode n"
    and "Type_Type (d_Type n) = Filesystem"
    and "emitFilesystemFuncDecl ev (file_Scope file) n call noopAliasCallback info
           = (Inr (st, err), info')"
  shows "Generate X ev call file opts seed = Inr (st, info', err)"
  using assms by (simp add: Generate_def)

text \<open>The programs \<open>local "." with option { includePatterns "*.go"; }\<close> and
  \<open>image "alpine" with option { resolve; }\<close>.\<close>

definition localWithPatterns :: call_stmt where
  "localWithPatterns = CallStmt noPos (NewIdent ''local'') [NewStringExpr ''.'']
     (Some (NewWithFuncLit
              [NewCallStmt ''includePatterns'' [NewStringExpr ''*.go''] None None])) None"

definition imageWithResolve :: call_stmt where
  "imageWithResolve = CallStmt noPos (NewIdent ''image'') [NewStringExpr ''alpine'']
     (Some (NewWithFuncLit [NewCallStmt ''resolve'' [] None None])) None"

text \<open>
  C6 at a \<open>local\<close> call with a \<open>with\<close> clause: the option block evaluates to the include
  patterns, and the emitted \<open>Local\<close> source carries no option at all, where the \<open>image\<close>
  call next to it hands its option on.
\<close>

theorem local_drops_its_options:
  "emitWithOption stdExtern (specEvaluators stdExtern (Suc 0)) (Scope [] None) localWithPatterns
     (c_WithOpt localWithPatterns) noopAliasCallback (newInfo 0)
     = (Inr [IncludePatterns [''*.go'']], newInfo 0) \<and>
   fst (emitFilesystemSourceStmt stdExtern (specEvaluators stdExtern (Suc 0)) (Scope [] None)
          localWithPatterns noopAliasCallback (newInfo 0))
     = Inr (Local ''id'' []) \<and>
   fst (emitFilesystemSourceStmt stdExtern (specEvaluators stdExtern (Suc 0)) (Scope [] None)
          imageWithResolve noopAliasCallback (newInfo 0))
     = Inr (Image ''alpine'' [WithDefault])"
proof -
  have w: "emitWithOption stdExtern (specEvaluators stdExtern (Suc 0)) (Scope [] None)
     localWithPatterns (c_WithOpt localWithPatterns) noopAliasCallback (newInfo 0)
     = (Inr [IncludePatterns [''*.go'']], newInfo 0)"
    by (simp add: localWithPatterns_def emitWithOption.simps NewWithFuncLit_def NewFuncLit_def
          NonEmptyStmts_def NewCallStmt_def emitOptions.simps emitLocalOptions_def
          emitLocalOptions_stmt_def NewIdent_def bnd_def)
  have l: "fst (emitFilesystemSourceStmt stdExtern (specEvaluators stdExtern (Suc 0))
          (Scope [] None) localWithPatterns noopAliasCallback (newInfo 0))
     = Inr (Local ''id'' [])"
    using local_stmt [OF _ w, of "NewStringExpr ''.''" "[]" "''.''" "newInfo 0"]
    by (simp add: localWithPatterns_def NewIdent_def newInfo_def newIdentifier_def)
  have i: "fst (emitFilesystemSourceStmt stdExtern (specEvaluators stdExtern (Suc 0))
          (Scope [] None) imageWithResolve noopAliasCallback (newInfo 0))
     = Inr (Image ''alpine'' [WithDefault])"
    by code_simp
  show ?thesis using w l i by simp
qed

text \<open>The program \<open>fs default() { local "."; }\<close>.\<close>

definition localDecl :: func_decl where
  "localDecl = FuncDecl noPos (NewType Filesystem) None (NewIdent ''default'') []
     (Some (BlockStmt [NewCallStmt ''local'' [NewStringExpr ''.''] None None]
              (Some (CloseBrace noPos))))"

definition localFile :: File where
  "localFile = File (Scope
     [(''default'', \<lparr>Kind = DeclKind, Node = FuncDeclNode localDecl, Data = VNil\<rparr>)] None)"

lemmas cst_defs = NewCallStmt_def NewIdent_def NewStringExpr_def NewIdentExpr_def NewWithFuncLit_def
  NewFuncLit_def NewType_def NonEmptyStmts_def NewFuncLitExpr_def nullaryCall_def

lemmas block_defs = emitBlock_def emitFilesystemBlock_def emitStringBlock_def emitSourceStmt_def
  emitChainStmt_def initialValue_def aliased_def debugHook_def Contains_def
  builtinTable_def Type_Type_def Filesystem_def StrT_def IntT_def BoolT_def Option_def
  modify_def newInfo_def NewNoopDebugger_def noopAliasCallback_def

lemma inj_newIdentifier: "inj newIdentifier"
proof (rule injI)
  fix n m
  assume "newIdentifier n = newIdentifier m"
  then have "length (newIdentifier n) = length (newIdentifier m)" by simp
  then show "n = m" by (simp add: newIdentifier_def)
qed

subsection \<open>The command of run\<close>

lemma runClosure_value: "fst (runClosure ac opts targets calls st s) = Inr (State_Run st opts)"
  by (simp add: runClosure_def)

lemma run_one_arg:
  assumes "Name (Func call) = ''run''"
    and w: "emitWithOption X ev scope call (c_WithOpt call) ac s = (Inr iopts, s1)"
    and "Args call = [a]"
    and p: "emitStringExpr ev scope call a s1 = (Inr cmd, s2)"
    and "Split X cmd = Inr parts"
    and "list_all (\<lambda>i. implements X i RunOption) iopts"
    and m: "runMounts ev scope call s2 = (Inr mt, s3)"
  shows "emitFilesystemChainStmt X ev scope typ call ac s
     = (Inr (Some (runClosure ac
                     (iopts @ [Shlex (if length parts = 1 then cmd
                                      else Join X [''/bin/sh'', ''-c'', cmd])])
                     (fst mt) (snd mt))), s3)"
  using assms(1,3,5) assertOptions_ok [OF assms(6)]
  by (simp add: emitFilesystemChainStmt_def runShlex_def
        bnd_Inr [of "emitWithOption X ev scope call (c_WithOpt call) ac" s iopts s1, OF w]
        bnd_Inr [of "emitStringExpr ev scope call a" s1 cmd s2, OF p]
        bnd_Inr [of "runMounts ev scope call" s2 mt s3, OF m])

lemma run_one_arg_unsplittable:
  assumes "Name (Func call) = ''run''"
    and w: "emitWithOption X ev scope call (c_WithOpt call) ac s = (Inr iopts, s1)"
    and "Args call = [a]"
    and p: "emitStringExpr ev scope call a s1 = (Inr cmd, s2)"
    and "Split X cmd = Inl e"
  shows "emitFilesystemChainStmt X ev scope typ call ac s = (Inl e, s2)"
  using assms(1,3,5)
  by (simp add: emitFilesystemChainStmt_def runShlex_def
        bnd_Inr [of "emitWithOption X ev scope call (c_WithOpt call) ac" s iopts s1, OF w]
        bnd_Inr [of "emitStringExpr ev scope call a" s1 cmd s2, OF p])

lemma run_many_args:
  assumes "Name (Func call) = ''run''"
    and w: "emitWithOption X ev scope call (c_WithOpt call) ac s = (Inr iopts, s1)"
    and "length (Args call) \<noteq> 1"
    and p: "mapM (emitStringExpr ev scope call) (Args call) s1 = (Inr runArgs, s2)"
    and "list_all (\<lambda>i. implements X i RunOption) iopts"
    and m: "runMounts ev scope call s2 = (Inr mt, s3)"
  shows "emitFilesystemChainStmt X ev scope typ call ac s
     = (Inr (Some (runClosure ac (iopts @ [Shlex (Join X runArgs)]) (fst mt) (snd mt))), s3)"
  using assms(1,3) assertOptions_ok [OF assms(5)]
  by (simp add: emitFilesystemChainStmt_def runShlex_def
        bnd_Inr [of "emitWithOption X ev scope call (c_WithOpt call) ac" s iopts s1, OF w]
        bnd_Inr [of "mapM (emitStringExpr ev scope call) (Args call)" s1 runArgs s2, OF p]
        bnd_Inr [of "runMounts ev scope call" s2 mt s3, OF m])

text \<open>
  C2, as the code has it. A \<open>run\<close> call with exactly one argument splits the evaluated command
  string into shell words: when it is one word the string is the emitted command as it is,
  otherwise the emitted command is the shell-quoted join of \<open>/bin/sh\<close>, \<open>-c\<close> and the string,
  and when the string cannot be split the error of the split is returned. A \<open>run\<close> call
  with any other number of arguments emits the shell-quoted join of the evaluated
  arguments. The command is the last option of the exec, after the items of the \<open>with\<close>
  clause.
\<close>

theorem run_command:
  "(\<forall>call ac s iopts s1 a cmd s2 mt s3 typ.
      Name (Func call) = ''run'' \<and>
      emitWithOption X ev scope call (c_WithOpt call) ac s = (Inr iopts, s1) \<and>
      Args call = [a] \<and>
      emitStringExpr ev scope call a s1 = (Inr cmd, s2) \<and>
      list_all (\<lambda>i. implements X i RunOption) iopts \<and>
      runMounts ev scope call s2 = (Inr mt, s3) \<longrightarrow>
        (\<forall>parts. Split X cmd = Inr parts \<longrightarrow>
           (\<exists>so. emitFilesystemChainStmt X ev scope typ call ac s = (Inr (Some so), s3) \<and>
                 (\<forall>st t. fst (so st t)
                    = Inr (State_Run st
                             (iopts @ [Shlex (if length parts = 1 then cmd
                                              else Join X [''/bin/sh'', ''-c'', cmd])]))))) \<and>
        (\<forall>e. Split X cmd = Inl e \<longrightarrow>
           emitFilesystemChainStmt X ev scope typ call ac s = (Inl e, s2))) \<and>
   (\<forall>call ac s iopts s1 runArgs s2 mt s3 typ.
      Name (Func call) = ''run'' \<and>
      emitWithOption X ev scope call (c_WithOpt call) ac s = (Inr iopts, s1) \<and>
      length (Args call) \<noteq> 1 \<and>
      mapM (emitStringExpr ev scope call) (Args call) s1 = (Inr runArgs, s2) \<and>
      list_all (\<lambda>i. implements X i RunOption) iopts \<and>
      runMounts ev scope call s2 = (Inr mt, s3) \<longrightarrow>
        (\<exists>so. emitFilesystemChainStmt X ev scope typ call ac s = (Inr (Some so), s3) \<and>
              (\<forall>st t. fst (so st t) = Inr (State_Run st (iopts @ [Shlex (Join X runArgs)])))))"
proof (intro conjI allI impI)
  fix call ac s iopts s1 a cmd s2 mt s3 ty parts
  assume h: "Name (Func call) = ''run'' \<and>
      emitWithOption X ev scope call (c_WithOpt call) ac s = (Inr iopts, s1) \<and>
      Args call = [a] \<and>
      emitStringExpr ev scope call a s1 = (Inr cmd, s2) \<and>
      list_all (\<lambda>i. implements X i RunOption) iopts \<and>
      runMounts ev scope call s2 = (Inr mt, s3)"
    and sp: "Split X cmd = Inr parts"
  let ?so = "runClosure ac
               (iopts @ [Shlex (if length parts = 1 then cmd
                                else Join X [''/bin/sh'', ''-c'', cmd])])
               (fst mt) (snd mt)"
  have "emitFilesystemChainStmt X ev scope ty call ac s = (Inr (Some ?so), s3)"
    using h sp run_one_arg [of call X ev scope ac s iopts s1 a cmd s2 parts mt s3 ty] by blast
  then show "\<exists>so. emitFilesystemChainStmt X ev scope ty call ac s = (Inr (Some so), s3) \<and>
                 (\<forall>st t. fst (so st t)
                    = Inr (State_Run st
                             (iopts @ [Shlex (if length parts = 1 then cmd
                                              else Join X [''/bin/sh'', ''-c'', cmd])])))"
    by (intro exI [of _ ?so]) (simp add: runClosure_value)
next
  fix call ac s iopts s1 a cmd s2 mt s3 ty e
  assume h: "Name (Func call) = ''run'' \<and>
      emitWithOption X ev scope call (c_WithOpt call) ac s = (Inr iopts, s1) \<and>
      Args call = [a] \<and>
      emitStringExpr ev scope call a s1 = (Inr cmd, s2) \<and>
      list_all (\<lambda>i. implements X i RunOption) iopts \<and>
      runMounts ev scope call s2 = (Inr mt, s3)"
    and sp: "Split X cmd = Inl e"
  show "emitFilesystemChainStmt X ev scope ty call ac s = (Inl e, s2)"
    using h sp run_one_arg_unsplittable [of call X ev scope ac s iopts s1 a cmd s2 e ty]
    by blast
next
  fix call ac s iopts s1 runArgs s2 mt s3 ty
  assume h: "Name (Func call) = ''run'' \<and>
      emitWithOption X ev scope call (c_WithOpt call) ac s = (Inr iopts, s1) \<and>
      length (Args call) \<noteq> 1 \<and>
      mapM (emitStringExpr ev scope call) (Args call) s1 = (Inr runArgs, s2) \<and>
      list_all (\<lambda>i. implements X i RunOption) iopts \<and>
      runMounts ev scope call s2 = (Inr mt, s3)"
  let ?so = "runClosure ac (iopts @ [Shlex (Join X runArgs)]) (fst mt) (snd mt)"
  have "emitFilesystemChainStmt X ev scope ty call ac s = (Inr (Some ?so), s3)"
    using h run_many_args [of call X ev scope ac s iopts s1 runArgs s2 mt s3 ty] by blast
  then show "\<exists>so. emitFilesystemChainStmt X ev scope ty call ac s = (Inr (Some so), s3) \<and>
              (\<forall>st t. fst (so st t) = Inr (State_Run st (iopts @ [Shlex (Join X runArgs)])))"
    by (intro exI [of _ ?so]) (simp add: runClosure_value)
qed

text \<open>\<open>run "ls"\<close> passes its one word through, and \<open>run "a" "b c"\<close> emits the quoted join.\<close>

theorem run_command_witness:
  "(\<exists>so. emitFilesystemChainStmt stdExtern (specEvaluators stdExtern (Suc 0)) (Scope [] None)
            Filesystem (CallStmt noPos (NewIdent ''run'') [NewStringExpr ''ls''] None None)
            noopAliasCallback (newInfo 0) = (Inr (Some so), newInfo 0) \<and>
         fst (so Scratch (newInfo 0)) = Inr (State_Run Scratch [Shlex ''ls''])) \<and>
   (\<exists>so. emitFilesystemChainStmt stdExtern (specEvaluators stdExtern (Suc 0)) (Scope [] None)
            Filesystem
            (CallStmt noPos (NewIdent ''run'') [NewStringExpr ''a'', NewStringExpr ''b c''] None None)
            noopAliasCallback (newInfo 0) = (Inr (Some so), newInfo 0) \<and>
         fst (so Scratch (newInfo 0))
           = Inr (State_Run Scratch [Shlex (''a '' @ [squote] @ ''b c'' @ [squote])]))"
proof -
  note T = run_command [of stdExtern "specEvaluators stdExtern (Suc 0)" "Scope [] None"]
  have sp: "shellquote_Split ''ls'' = Inr [''ls'']" by code_simp
  have jn: "shellquote_Join [''a'', ''b c''] = ''a '' @ [squote] @ ''b c'' @ [squote]"
    by code_simp
  have 1: "\<exists>so. emitFilesystemChainStmt stdExtern (specEvaluators stdExtern (Suc 0))
            (Scope [] None) Filesystem
            (CallStmt noPos (NewIdent ''run'') [NewStringExpr ''ls''] None None)
            noopAliasCallback (newInfo 0) = (Inr (Some so), newInfo 0) \<and>
         (\<forall>st t. fst (so st t) = Inr (State_Run st
            ([] @ [Shlex (if length [''ls''] = 1 then ''ls''
                          else Join stdExtern [''/bin/sh'', ''-c'', ''ls''])])))"
    using T [THEN conjunct1, rule_format,
             of "CallStmt noPos (NewIdent ''run'') [NewStringExpr ''ls''] None None"
                noopAliasCallback "newInfo 0" "[]" "newInfo 0" "NewStringExpr ''ls''" "''ls''"
                "newInfo 0" "([], Map.empty)" "newInfo 0" Filesystem,
             THEN conjunct1, rule_format, of "[''ls'']"] sp
    by (simp add: NewIdent_def runMounts_def)
  have 2: "\<exists>so. emitFilesystemChainStmt stdExtern (specEvaluators stdExtern (Suc 0))
            (Scope [] None) Filesystem
            (CallStmt noPos (NewIdent ''run'') [NewStringExpr ''a'', NewStringExpr ''b c''] None None)
            noopAliasCallback (newInfo 0) = (Inr (Some so), newInfo 0) \<and>
         (\<forall>st t. fst (so st t) = Inr (State_Run st
            ([] @ [Shlex (Join stdExtern [''a'', ''b c''])])))"
    using T [THEN conjunct2, rule_format,
             of "CallStmt noPos (NewIdent ''run'') [NewStringExpr ''a'', NewStringExpr ''b c''] None None"
                noopAliasCallback "newInfo 0" "[]" "newInfo 0" "[''a'', ''b c'']"
                "newInfo 0" "([], Map.empty)" "newInfo 0" Filesystem]
    by (simp add: NewIdent_def runMounts_def bnd_def)
  show ?thesis using 1 2 jn by auto
qed

text \<open>
  The second scenario of the spec, \<open>image "alpine"; run "echo hi"\<close>: the command has two
  words, so what is emitted is the \<open>/bin/sh -c\<close> wrapping and not the string itself.
\<close>

definition scenario2 :: "stmt list" where
  "scenario2 = [NewCallStmt ''image'' [NewStringExpr ''alpine''] None None,
                NewCallStmt ''run'' [NewStringExpr ''echo hi''] None None]"

theorem run_echo_hi_counterexample:
  "fst (emitBlock stdExtern (specEvaluators stdExtern (Suc 0)) (Scope [] None) Filesystem scenario2
          noopAliasCallback (newInfo 0))
     = Inr (VState (State_Run (Image ''alpine'' [])
                      [Shlex (''/bin/sh -c '' @ [squote] @ ''echo hi'' @ [squote])])) \<and>
   ''/bin/sh -c '' @ [squote] @ ''echo hi'' @ [squote] \<noteq> ''echo hi''"
  by code_simp

subsection \<open>Targets of Generate\<close>

text \<open>
  C1, as the code has it. \<open>Generate\<close> applies its options first and returns the error of the
  first option that fails. A target name that the file scope does not bind fails with the
  unknown-target error. Then the debugger is called once, and its error is returned. A
  binding whose kind is not a declaration, a function declaration whose effective type is
  not \<open>fs\<close>, and an alias of a function whose effective type is not \<open>fs\<close> fail with
  \<open>InvalidTarget\<close>. In each of these cases the state returned is scratch.
\<close>

theorem Generate_invalid_target:
  "(\<forall>err info. applyOptions opts (newInfo seed) = (Some err, info) \<longrightarrow>
      Generate X ev call file opts seed = Inr (Scratch, info, Some err)) \<and>
   (\<forall>info. applyOptions opts (newInfo seed) = (None, info) \<longrightarrow>
      (Lookup (file_Scope file) (Name (Func call)) = None \<longrightarrow>
         Generate X ev call file opts seed
           = Inr (Scratch, info, Some (ErrUnknownTarget (Name (Func call))))) \<and>
      (\<forall>obj. Lookup (file_Scope file) (Name (Func call)) = Some obj \<longrightarrow>
         (\<forall>err. Debug info (file_Scope file) (FileNode file) VNil = Some err \<longrightarrow>
            Generate X ev call file opts seed = Inr (Scratch, info, Some err)) \<and>
         (Debug info (file_Scope file) (FileNode file) VNil = None \<longrightarrow>
            (Kind obj \<noteq> DeclKind \<longrightarrow>
               Generate X ev call file opts seed
                 = Inr (Scratch, info, Some (ErrInvalidTarget (Func call)))) \<and>
            (\<forall>n. Kind obj = DeclKind \<and> Node obj = FuncDeclNode n \<and>
                 Type_Type (d_Type n) \<noteq> Filesystem \<longrightarrow>
               Generate X ev call file opts seed
                 = Inr (Scratch, info, Some (ErrInvalidTarget (Func call)))) \<and>
            (\<forall>n f. Kind obj = DeclKind \<and> Node obj = AliasDeclNode n \<and> a_Func n = Some f \<and>
                 Type_Type (d_Type f) \<noteq> Filesystem \<longrightarrow>
               Generate X ev call file opts seed
                 = Inr (Scratch, info, Some (ErrInvalidTarget (Func call)))))))"
proof -
  have kind: "\<And>k. k \<noteq> DeclKind \<Longrightarrow> (case k of DeclKind \<Rightarrow> a | _ \<Rightarrow> b) = b" for a b :: "'z"
    by (case_tac k) simp_all
  show ?thesis
    by (auto simp: Generate_def kind)
qed

text \<open>The program \<open>string greet() { value "hi"; }\<close> and a scope that binds an import.\<close>

definition greetDecl :: func_decl where
  "greetDecl = FuncDecl noPos (NewType StrT) None (NewIdent ''greet'') []
     (Some (BlockStmt [NewCallStmt ''value'' [NewStringExpr ''hi''] None None]
              (Some (CloseBrace noPos))))"

definition greetFile :: File where
  "greetFile = File (Scope
     [(''greet'', \<lparr>Kind = DeclKind, Node = FuncDeclNode greetDecl, Data = VNil\<rparr>),
      (''lib'', \<lparr>Kind = DeclKind, Node = ImportDeclNode (NewIdent ''lib''), Data = VNil\<rparr>)] None)"

theorem Generate_invalid_target_witness:
  "Generate stdExtern (specEvaluators stdExtern (Suc 0)) (nullaryCall (NewIdent ''greet''))
     greetFile [] 0
   = Inr (Scratch, newInfo 0, Some (ErrInvalidTarget (NewIdent ''greet'')))"
  using Generate_invalid_target [of "[]" 0 stdExtern "specEvaluators stdExtern (Suc 0)"
          "nullaryCall (NewIdent ''greet'')" greetFile,
          THEN conjunct2, rule_format, of "newInfo 0", THEN conjunct2, rule_format,
          of "\<lparr>Kind = DeclKind, Node = FuncDeclNode greetDecl, Data = VNil\<rparr>",
          THEN conjunct2, rule_format, THEN conjunct2, THEN conjunct1, rule_format, of greetDecl]
  by (simp add: greetFile_def greetDecl_def nullaryCall_def NewIdent_def newInfo_def
        NewNoopDebugger_def NewType_def Type_Type_def StrT_def Filesystem_def)

text \<open>
  A name that the scope does not bind: the error is the unknown-target error and not
  \<open>InvalidTarget\<close>. And a name bound to an import declaration: no error is returned at all.
\<close>

theorem Generate_unknown_target_counterexample:
  "Lookup (file_Scope greetFile) ''nothing'' = None \<and>
   Generate stdExtern (specEvaluators stdExtern (Suc 0)) (nullaryCall (NewIdent ''nothing''))
     greetFile [] 0
   = Inr (Scratch, newInfo 0, Some (ErrUnknownTarget ''nothing'')) \<and>
   ErrUnknownTarget ''nothing'' \<noteq> ErrInvalidTarget (NewIdent ''nothing'') \<and>
   Generate stdExtern (specEvaluators stdExtern (Suc 0)) (nullaryCall (NewIdent ''lib''))
     greetFile [] 0
   = Inr (Scratch, newInfo 0, None)"
  by (simp add: Generate_def greetFile_def nullaryCall_def NewIdent_def newInfo_def
        NewNoopDebugger_def)

subsection \<open>Blocks without a source statement\<close>

definition isDebug :: "extern \<Rightarrow> call_stmt \<Rightarrow> bool" where
  "isDebug X c = Contains (Debugs X) (Name (Func c))"

definition isDebugStmt :: "extern \<Rightarrow> stmt \<Rightarrow> bool" where
  "isDebugStmt X stmt = (case Call stmt of None \<Rightarrow> False | Some c \<Rightarrow> isDebug X c)"

lemma bnd_fails:
  "(\<And>x t. \<exists>e t'. f x t = (Inl e, t')) \<Longrightarrow> \<exists>e t'. bnd m f s = (Inl e, t')"
  by (cases "m s") (auto simp: bnd_def split: sum.splits)

lemma debugHook_passes: "Debug s scope n v = None \<Longrightarrow> debugHook scope n v s = (Inr (), s)"
  by (simp add: debugHook_def)

lemma debugHook_state: "debugHook scope n v s = (r, s') \<Longrightarrow> s' = s"
  by (auto simp: debugHook_def split: option.splits)

lemma chain_trivia:
  "\<exists>stmt\<in>set stmts. Call stmt = None \<Longrightarrow>
   \<exists>e t. emitBlock_chain X ev scope typ ac stmts v s = (Inl e, t)"
proof (induction stmts arbitrary: v s)
  case Nil
  then show ?case by simp
next
  case (Cons stmt rest)
  show ?case
  proof (cases "Call stmt")
    case None
    then show ?thesis by simp
  next
    case (Some call)
    then have rest: "\<exists>stmt\<in>set rest. Call stmt = None" using Cons.prems by auto
    show ?thesis
      using Some Cons.IH [OF rest]
      by (auto intro!: bnd_fails)
  qed
qed

lemma chain_string:
  "\<exists>stmt\<in>set stmts. \<not> isDebugStmt X stmt \<Longrightarrow>
   \<exists>e t. emitBlock_chain X ev scope StrT ac stmts v s = (Inl e, t)"
proof (induction stmts arbitrary: v s)
  case Nil
  then show ?case by simp
next
  case (Cons stmt rest)
  show ?case
  proof (cases "Call stmt")
    case None
    then show ?thesis by simp
  next
    case (Some call)
    show ?thesis
    proof (cases "isDebug X call")
      case True
      then have "\<exists>stmt\<in>set rest. \<not> isDebugStmt X stmt"
        using Cons.prems Some by (auto simp: isDebugStmt_def)
      from Cons.IH [OF this] show ?thesis
        using Some True by (auto simp: isDebug_def intro!: bnd_fails)
    next
      case False
      then show ?thesis
        using Some
        by (auto simp: isDebug_def emitChainStmt_def emitStringChainStmt_def StrT_def
              Filesystem_def intro!: bnd_fails)
    qed
  qed
qed

lemma skip_result:
  "emitBlock_skip X scope v stmts i s = (Inr k, s') \<Longrightarrow>
   s' = s \<and>
   ((k = 0 \<and> list_all (isDebugStmt X) stmts) \<or>
    (\<exists>j<length stmts. k = i + j \<and> list_all (isDebugStmt X) (take j stmts) \<and>
       \<not> isDebugStmt X (stmts ! j) \<and> Call (stmts ! j) \<noteq> None))"
proof (induction stmts arbitrary: i)
  case Nil
  then show ?case by simp
next
  case (Cons stmt rest)
  show ?case
  proof (cases "Call stmt")
    case None
    then show ?thesis using Cons.prems by simp
  next
    case (Some c)
    show ?thesis
    proof (cases "isDebug X c")
      case False
      then have "k = i" "s' = s" using Cons.prems Some by (auto simp: isDebug_def)
      moreover have "\<not> isDebugStmt X stmt" "Call stmt \<noteq> None"
        using False Some by (auto simp: isDebugStmt_def)
      ultimately show ?thesis by (intro conjI disjI2 exI [of _ 0]) auto
    next
      case True
      then have r: "bnd (debugHook scope (CallNode c) v)
                      (\<lambda>_. emitBlock_skip X scope v rest (Suc i)) s = (Inr k, s')"
        using Cons.prems Some by (simp add: isDebug_def)
      then obtain u where h: "debugHook scope (CallNode c) v s = (Inr u, s)"
        and rec: "emitBlock_skip X scope v rest (Suc i) s = (Inr k, s')"
        by (cases "debugHook scope (CallNode c) v s")
           (auto simp: bnd_def split: sum.splits dest: debugHook_state)
      have d: "isDebugStmt X stmt" using True Some by (simp add: isDebugStmt_def)
      from Cons.IH [OF rec] have s: "s' = s" and
        alt: "(k = 0 \<and> list_all (isDebugStmt X) rest) \<or>
          (\<exists>j<length rest. k = Suc i + j \<and> list_all (isDebugStmt X) (take j rest) \<and>
             \<not> isDebugStmt X (rest ! j) \<and> Call (rest ! j) \<noteq> None)"
        by auto
      from alt show ?thesis
      proof
        assume "k = 0 \<and> list_all (isDebugStmt X) rest"
        then show ?thesis using d s by simp
      next
        assume "\<exists>j<length rest. k = Suc i + j \<and> list_all (isDebugStmt X) (take j rest) \<and>
             \<not> isDebugStmt X (rest ! j) \<and> Call (rest ! j) \<noteq> None"
        then obtain j where j: "j < length rest" "k = Suc i + j"
          "list_all (isDebugStmt X) (take j rest)" "\<not> isDebugStmt X (rest ! j)"
          "Call (rest ! j) \<noteq> None" by blast
        then show ?thesis using d s
          by (intro conjI disjI2 exI [of _ "Suc j"]) auto
      qed
    qed
  qed
qed

lemma skip_all_debug:
  "list_all (isDebugStmt X) stmts \<Longrightarrow> (\<forall>n. Debug s scope n v = None) \<Longrightarrow>
   emitBlock_skip X scope v stmts i s = (Inr 0, s)"
proof (induction stmts arbitrary: i)
  case Nil
  then show ?case by simp
next
  case (Cons stmt rest)
  then obtain c where c: "Call stmt = Some c" "isDebug X c"
    by (auto simp: isDebugStmt_def split: option.splits)
  have "debugHook scope (CallNode c) v s = (Inr (), s)"
    using Cons.prems(2) by (simp add: debugHook_passes)
  then show ?case
    using c Cons.IH [of "Suc i"] Cons.prems
    by (simp add: isDebug_def bnd_Inr [of "debugHook scope (CallNode c) v" s "()" s])
qed

lemma emitBlock_trivia:
  assumes "\<exists>stmt\<in>set stmts. Call stmt = None"
  shows "\<exists>e s'. emitBlock X ev scope typ stmts ac s = (Inl e, s')"
proof (cases "emitBlock_skip X scope (initialValue typ) stmts 0 s")
  case (Pair r s1)
  show ?thesis
  proof (cases r)
    case (Inl e)
    then show ?thesis using Pair by (simp add: emitBlock_def bnd_Inl)
  next
    case (Inr k)
    from skip_result [of X scope "initialValue typ" stmts 0 s k s1] Pair Inr
    have s1: "s1 = s" and
      alt: "(k = 0 \<and> list_all (isDebugStmt X) stmts) \<or>
        (\<exists>j<length stmts. k = 0 + j \<and> list_all (isDebugStmt X) (take j stmts) \<and>
           \<not> isDebugStmt X (stmts ! j) \<and> Call (stmts ! j) \<noteq> None)"
      by auto
    have notall: "\<not> list_all (isDebugStmt X) stmts"
      using assms by (force simp: list_all_iff isDebugStmt_def)
    with alt have k: "k < length stmts" "list_all (isDebugStmt X) (take k stmts)"
      "Call (stmts ! k) \<noteq> None" by auto
    obtain stmt where stmt: "stmt \<in> set stmts" "Call stmt = None" using assms by blast
    then obtain p where p: "p < length stmts" "stmts ! p = stmt" by (auto simp: in_set_conv_nth)
    have "k < p"
    proof (rule ccontr)
      assume "\<not> k < p"
      then have "p < k \<or> p = k" by auto
      then show False
      proof
        assume "p < k"
        then have "stmts ! p \<in> set (take k stmts)"
          using k(1) by (auto simp: in_set_conv_nth intro!: exI [of _ p])
        then have "isDebugStmt X (stmts ! p)" using k(2) by (auto simp: list_all_iff)
        then show False using p stmt by (simp add: isDebugStmt_def)
      next
        assume "p = k"
        then show False using k(3) p stmt by simp
      qed
    qed
    then have "stmt \<in> set (drop (k + 1) stmts)"
      using p by (auto simp: in_set_conv_nth intro!: exI [of _ "p - (k + 1)"])
    then have tr: "\<exists>stmt\<in>set (drop (k + 1) stmts). Call stmt = None" using stmt by blast
    obtain c where c: "Call (stmts ! k) = Some c" using k(3) by auto
    have "emitBlock X ev scope typ stmts ac s =
        bnd (debugHook scope (CallNode c) (initialValue typ)) (\<lambda>_.
        bnd (emitSourceStmt X ev scope typ c ac) (\<lambda>v.
        bnd (aliased ac c v) (\<lambda>_.
        emitBlock_chain X ev scope typ ac (drop (k + 1) stmts) v))) s"
      using Pair Inr s1 k(1) c
      by (simp add: emitBlock_def index_def
            bnd_Inr [of "emitBlock_skip X scope (initialValue typ) stmts 0" s k s])
    then show ?thesis
      using chain_trivia [OF tr] by (auto intro!: bnd_fails)
  qed
qed


lemma emitBlock_all_debug:
  assumes "list_all (isDebugStmt X) (Stmt (Some c) nl doc # rest)"
    and "\<forall>n. Debug s scope n (initialValue typ) = None"
  shows "emitBlock X ev scope typ (Stmt (Some c) nl doc # rest) ac s =
     bnd (emitSourceStmt X ev scope typ c ac) (\<lambda>v.
     bnd (aliased ac c v) (\<lambda>_.
     emitBlock_chain X ev scope typ ac rest v)) s"
proof -
  have sk: "emitBlock_skip X scope (initialValue typ) (Stmt (Some c) nl doc # rest) 0 s
      = (Inr 0, s)"
    using assms by (rule skip_all_debug)
  have hk: "debugHook scope (CallNode c) (initialValue typ) s = (Inr (), s)"
    using assms(2) by (simp add: debugHook_passes)
  have "emitBlock X ev scope typ (Stmt (Some c) nl doc # rest) ac s =
      bnd (debugHook scope (CallNode c) (initialValue typ)) (\<lambda>_.
      bnd (emitSourceStmt X ev scope typ c ac) (\<lambda>v.
      bnd (aliased ac c v) (\<lambda>_.
      emitBlock_chain X ev scope typ ac rest v))) s"
    unfolding emitBlock_def
    by (subst bnd_Inr [of "emitBlock_skip X scope (initialValue typ)
                             (Stmt (Some c) nl doc # rest) 0" s 0 s, OF sk]) simp
  then show ?thesis
    by (simp add: bnd_Inr [of "debugHook scope (CallNode c) (initialValue typ)" s "()" s, OF hk])
qed

lemma emitSourceStmt_unbound:
  "\<not> Builtins X typ (Name (Func c)) \<Longrightarrow> Lookup scope (Name (Func c)) = None \<Longrightarrow>
   emitSourceStmt X ev scope typ c ac = throw (Panic (PanicMsg (Name (Func c))))"
  by (simp add: emitSourceStmt_def)

lemma emitSourceStmt_not_a_source:
  assumes "Builtins X typ (Name (Func c))" and "c_WithOpt c = None"
    and "Name (Func c) \<notin> set [''scratch'', ''image'', ''http'', ''git'', ''local'',
                                ''generate'', ''value'', ''format'']"
  shows "\<exists>m. emitSourceStmt X ev scope typ c ac = throw (Panic (PanicMsg m))"
proof -
  consider "typ = Filesystem" | "typ \<noteq> Filesystem" "typ = StrT"
    | "typ \<noteq> Filesystem" "typ \<noteq> StrT" by blast
  then show ?thesis
  proof cases
    case 1
    then have "emitSourceStmt X ev scope typ c ac
        = throw (Panic (PanicMsg ''unknown fs source stmt''))"
      using assms
      by (simp add: emitSourceStmt_def emitFilesystemSourceStmt_def del: throw_apply ret_apply)
    then show ?thesis by blast
  next
    case 2
    then have "emitSourceStmt X ev scope typ c ac
        = throw (Panic (PanicMsg ''unknown string source stmt''))"
      using assms
      by (simp add: emitSourceStmt_def emitStringSourceStmt_def del: throw_apply ret_apply)
    then show ?thesis by blast
  next
    case 3
    then have "emitSourceStmt X ev scope typ c ac = throw (Panic (PanicMsg ''unimplemented''))"
      using assms by (simp add: emitSourceStmt_def)
    then show ?thesis by blast
  qed
qed

lemma NonEmptyStmts_no_trivia:
  "list_all (\<lambda>stmt. s_Newline stmt = None \<and> s_Doc stmt = None) (NonEmptyStmts b)"
proof -
  have "list_all (\<lambda>stmt. s_Newline stmt = None \<and> s_Doc stmt = None) (NonEmptyStmts_loop stmts)"
    for stmts
    by (induction stmts) auto
  then show ?thesis by (simp add: NonEmptyStmts_def split: option.splits)
qed

subsection \<open>String blocks\<close>

declare specEvaluators.simps(2) [simp del]

lemma bnd_Pair_Inr [simp]: "bnd (Pair (Inr x)) f = f x"
  by (simp add: bnd_def)

lemma bnd_Pair_Inl [simp]: "bnd (Pair (Inl e)) f = Pair (Inl e)"
  by (simp add: bnd_def)

lemma types_distinct [simp]:
  "StrT \<noteq> Filesystem" "StrT \<noteq> IntT" "StrT \<noteq> BoolT" "Filesystem \<noteq> StrT"
  "Filesystem \<noteq> IntT" "Filesystem \<noteq> BoolT"
  by (simp_all add: StrT_def Filesystem_def IntT_def BoolT_def)

lemma aliased_noop [simp]: "aliased noopAliasCallback c v = ret ()"
  by (simp add: aliased_def noopAliasCallback_def modify_def ret_def)

lemma emitBlock_single:
  assumes "\<not> isDebug X c" and "Debug s scope (CallNode c) (initialValue typ) = None"
    and "emitSourceStmt X ev scope typ c noopAliasCallback s = (Inr v, s')"
  shows "emitBlock X ev scope typ [Stmt (Some c) nl doc] noopAliasCallback s = (Inr v, s')"
  using assms(1)
  by (simp add: emitBlock_def isDebug_def
        bnd_Inr [of "debugHook scope (CallNode c) (initialValue typ)" s "()" s,
                 OF debugHook_passes [OF assms(2)]]
        bnd_Inr [of "emitSourceStmt X ev scope typ c noopAliasCallback" s v s', OF assms(3)])

lemma string_source_value:
  assumes "Builtins X StrT (Name (Func c))" and "Name (Func c) = ''value''"
    and "Args c = a # args" and e: "emitStringExpr ev scope c a s = (Inr str, s')"
  shows "emitSourceStmt X ev scope StrT c ac s = (Inr (VStr str), s')"
  using assms(1-3)
  by (simp add: emitSourceStmt_def emitStringSourceStmt_def
        bnd_Inr [of "emitStringExpr ev scope c a" s str s', OF e])

lemma string_source_format:
  assumes "Builtins X StrT (Name (Func c))" and "Name (Func c) = ''format''"
    and "Args c = a # args" and e: "emitStringExpr ev scope c a s = (Inr fmt, s1)"
    and m: "mapM (emitStringExpr ev scope c) args s1 = (Inr as, s')"
  shows "emitSourceStmt X ev scope StrT c ac s = (Inr (VStr (Sprintf X fmt as)), s')"
  using assms(1-3)
  by (simp add: emitSourceStmt_def emitStringSourceStmt_def
        bnd_Inr [of "emitStringExpr ev scope c a" s fmt s1, OF e]
        bnd_Inr [of "mapM (emitStringExpr ev scope c) args" s1 as s', OF m])

lemma string_lit_single:
  assumes "Type_Type (fl_Type lit) = StrT"
    and "NonEmptyStmts (fl_Body lit) = [Stmt (Some c) nl doc]"
    and "\<not> isDebug X c" and "Debug s scope (CallNode c) (VStr []) = None"
    and "emitSourceStmt X ev scope StrT c noopAliasCallback s = (Inr (VStr str), s')"
  shows "emitFuncLit X ev scope lit op ac s = (Inr (VStr str), s')"
proof -
  have "emitBlock X ev scope StrT [Stmt (Some c) nl doc] noopAliasCallback s
      = (Inr (VStr str), s')"
    using assms(3-5) by (intro emitBlock_single) (simp_all add: initialValue_def)
  then show ?thesis
    using assms(1,2)
    by (simp add: emitFuncLit_def emitStringBlock_def
          bnd_Inr [of "emitBlock X ev scope StrT [Stmt (Some c) nl doc] noopAliasCallback"
                      s "VStr str" s'])
qed

lemma string_lit_chain:
  assumes "Type_Type (fl_Type lit) = StrT"
    and "NonEmptyStmts (fl_Body lit) = Stmt (Some c1) n1 d1 # Stmt (Some c2) n2 d2 # rest"
    and "\<not> isDebug X c1" and "\<not> isDebug X c2"
    and h1: "Debug s scope (CallNode c1) (VStr []) = None"
    and src: "emitSourceStmt X ev scope StrT c1 noopAliasCallback s = (Inr v, s1)"
    and h2: "Debug s1 scope (CallNode c2) v = None"
  shows "emitFuncLit X ev scope lit op ac s = (Inl (Panic (PanicMsg ''unimplemented'')), s1)"
proof -
  have "emitBlock X ev scope StrT (Stmt (Some c1) n1 d1 # Stmt (Some c2) n2 d2 # rest)
          noopAliasCallback s = (Inl (Panic (PanicMsg ''unimplemented'')), s1)"
    using assms(3,4)
    by (simp add: emitBlock_def isDebug_def initialValue_def emitChainStmt_def
          emitStringChainStmt_def
          bnd_Inr [of "debugHook scope (CallNode c1) (VStr [])" s "()" s,
                   OF debugHook_passes [OF h1]]
          bnd_Inr [of "emitSourceStmt X ev scope StrT c1 noopAliasCallback" s v s1, OF src]
          bnd_Inr [of "debugHook scope (CallNode c2) v" s1 "()" s1,
                   OF debugHook_passes [OF h2]])
  then show ?thesis
    using assms(1,2) by (simp add: emitFuncLit_def emitStringBlock_def bnd_Inl)
qed

lemma filter_beyond:
  assumes "2 \<le> length (filter P xs)" and "j < length xs" and "list_all (\<lambda>x. \<not> P x) (take j xs)"
  shows "\<exists>x\<in>set (drop (j + 1) xs). P x"
proof -
  have xs: "xs = take j xs @ xs ! j # drop (Suc j) xs"
    using assms(2) by (rule id_take_nth_drop)
  have "filter P (take j xs) = []"
    using assms(3) by (auto simp: list_all_iff filter_empty_conv)
  then have "length (filter P xs) \<le> 1 + length (filter P (drop (Suc j) xs))"
    by (subst xs) simp
  then have "filter P (drop (Suc j) xs) \<noteq> []" using assms(1) by auto
  then show ?thesis by (auto simp: filter_empty_conv)
qed

lemma string_block_no_value:
  assumes "2 \<le> length (filter (\<lambda>stmt. \<not> isDebugStmt X stmt) stmts)"
  shows "\<exists>e s'. emitBlock X ev scope StrT stmts ac s = (Inl e, s')"
proof (cases "emitBlock_skip X scope (initialValue StrT) stmts 0 s")
  case (Pair r s1)
  show ?thesis
  proof (cases r)
    case (Inl e)
    then show ?thesis using Pair by (simp add: emitBlock_def bnd_Inl)
  next
    case (Inr k)
    from skip_result [of X scope "initialValue StrT" stmts 0 s k s1] Pair Inr
    have s1: "s1 = s" and
      alt: "(k = 0 \<and> list_all (isDebugStmt X) stmts) \<or>
        (\<exists>j<length stmts. k = 0 + j \<and> list_all (isDebugStmt X) (take j stmts) \<and>
           \<not> isDebugStmt X (stmts ! j) \<and> Call (stmts ! j) \<noteq> None)"
      by auto
    have "\<not> list_all (isDebugStmt X) stmts"
    proof
      assume "list_all (isDebugStmt X) stmts"
      then have "filter (\<lambda>stmt. \<not> isDebugStmt X stmt) stmts = []"
        by (auto simp: list_all_iff filter_empty_conv)
      then show False using assms by simp
    qed
    with alt have k: "k < length stmts" "list_all (isDebugStmt X) (take k stmts)"
      "Call (stmts ! k) \<noteq> None" by auto
    have "list_all (\<lambda>x. \<not> \<not> isDebugStmt X x) (take k stmts)" using k(2) by simp
    from filter_beyond [OF assms k(1) this]
    have nd: "\<exists>stmt\<in>set (drop (k + 1) stmts). \<not> isDebugStmt X stmt" .
    obtain c where c: "Call (stmts ! k) = Some c" using k(3) by auto
    have "emitBlock X ev scope StrT stmts ac s =
        bnd (debugHook scope (CallNode c) (initialValue StrT)) (\<lambda>_.
        bnd (emitSourceStmt X ev scope StrT c ac) (\<lambda>v.
        bnd (aliased ac c v) (\<lambda>_.
        emitBlock_chain X ev scope StrT ac (drop (k + 1) stmts) v))) s"
      using Pair Inr s1 k(1) c
      by (simp add: emitBlock_def index_def
            bnd_Inr [of "emitBlock_skip X scope (initialValue StrT) stmts 0" s k s])
    then show ?thesis
      using chain_string [OF nd] by (auto intro!: bnd_fails)
  qed
qed

lemma string_lit_no_value:
  assumes "Type_Type (fl_Type lit) = StrT"
    and "2 \<le> length (filter (\<lambda>stmt. \<not> isDebugStmt X stmt) (NonEmptyStmts (fl_Body lit)))"
  shows "\<exists>e s'. emitFuncLit X ev scope lit op ac s = (Inl e, s')"
proof -
  obtain e s' where
    "emitBlock X ev scope StrT (NonEmptyStmts (fl_Body lit)) noopAliasCallback s = (Inl e, s')"
    using string_block_no_value [OF assms(2)] by blast
  then show ?thesis
    using assms(1) by (simp add: emitFuncLit_def emitStringBlock_def bnd_Inl)
qed

text \<open>
  C8, as the code has it. A block literal of type \<open>string\<close> whose only statement (newlines
  and comments apart) is a call of the source builtin \<open>value\<close> or \<open>format\<close> evaluates to the
  string of that statement, when the arguments evaluate and the debugger raises no error.
  A string block with two or more statements that are not debug calls never evaluates to a
  value: when its first two statements are such calls and the first evaluates, the string
  chain evaluator is reached and panics as unimplemented.
\<close>

theorem string_blocks_source_only:
  "(\<forall>lit c nl doc a args str s s' op ac.
      Type_Type (fl_Type lit) = StrT \<and>
      NonEmptyStmts (fl_Body lit) = [Stmt (Some c) nl doc] \<and>
      \<not> isDebug X c \<and> Builtins X StrT (Name (Func c)) \<and>
      Debug s scope (CallNode c) (VStr []) = None \<and>
      Name (Func c) = ''value'' \<and> Args c = a # args \<and>
      emitStringExpr ev scope c a s = (Inr str, s') \<longrightarrow>
        emitFuncLit X ev scope lit op ac s = (Inr (VStr str), s')) \<and>
   (\<forall>lit c nl doc a args fmt as s s1 s' op ac.
      Type_Type (fl_Type lit) = StrT \<and>
      NonEmptyStmts (fl_Body lit) = [Stmt (Some c) nl doc] \<and>
      \<not> isDebug X c \<and> Builtins X StrT (Name (Func c)) \<and>
      Debug s scope (CallNode c) (VStr []) = None \<and>
      Name (Func c) = ''format'' \<and> Args c = a # args \<and>
      emitStringExpr ev scope c a s = (Inr fmt, s1) \<and>
      mapM (emitStringExpr ev scope c) args s1 = (Inr as, s') \<longrightarrow>
        emitFuncLit X ev scope lit op ac s = (Inr (VStr (Sprintf X fmt as)), s')) \<and>
   (\<forall>lit c1 n1 d1 c2 n2 d2 rest v s s1 op ac.
      Type_Type (fl_Type lit) = StrT \<and>
      NonEmptyStmts (fl_Body lit) = Stmt (Some c1) n1 d1 # Stmt (Some c2) n2 d2 # rest \<and>
      \<not> isDebug X c1 \<and> \<not> isDebug X c2 \<and>
      Debug s scope (CallNode c1) (VStr []) = None \<and>
      emitSourceStmt X ev scope StrT c1 noopAliasCallback s = (Inr v, s1) \<and>
      Debug s1 scope (CallNode c2) v = None \<longrightarrow>
        emitFuncLit X ev scope lit op ac s = (Inl (Panic (PanicMsg ''unimplemented'')), s1)) \<and>
   (\<forall>lit s op ac.
      Type_Type (fl_Type lit) = StrT \<and>
      2 \<le> length (filter (\<lambda>stmt. \<not> isDebugStmt X stmt) (NonEmptyStmts (fl_Body lit))) \<longrightarrow>
        (\<exists>e s'. emitFuncLit X ev scope lit op ac s = (Inl e, s')))"
proof (intro conjI allI impI)
  fix lit c nl doc a args str s s' op ac
  assume h: "Type_Type (fl_Type lit) = StrT \<and>
      NonEmptyStmts (fl_Body lit) = [Stmt (Some c) nl doc] \<and>
      \<not> isDebug X c \<and> Builtins X StrT (Name (Func c)) \<and>
      Debug s scope (CallNode c) (VStr []) = None \<and>
      Name (Func c) = ''value'' \<and> Args c = a # args \<and>
      emitStringExpr ev scope c a s = (Inr str, s')"
  then have "emitSourceStmt X ev scope StrT c noopAliasCallback s = (Inr (VStr str), s')"
    using string_source_value [of X c a args ev scope s str s' noopAliasCallback] by blast
  then show "emitFuncLit X ev scope lit op ac s = (Inr (VStr str), s')"
    using h string_lit_single [of lit c nl doc X s scope ev str s' op ac] by blast
next
  fix lit c nl doc a args fmt as s s1 s' op ac
  assume h: "Type_Type (fl_Type lit) = StrT \<and>
      NonEmptyStmts (fl_Body lit) = [Stmt (Some c) nl doc] \<and>
      \<not> isDebug X c \<and> Builtins X StrT (Name (Func c)) \<and>
      Debug s scope (CallNode c) (VStr []) = None \<and>
      Name (Func c) = ''format'' \<and> Args c = a # args \<and>
      emitStringExpr ev scope c a s = (Inr fmt, s1) \<and>
      mapM (emitStringExpr ev scope c) args s1 = (Inr as, s')"
  then have "emitSourceStmt X ev scope StrT c noopAliasCallback s
      = (Inr (VStr (Sprintf X fmt as)), s')"
    using string_source_format [of X c a args ev scope s fmt s1 as s' noopAliasCallback]
    by blast
  then show "emitFuncLit X ev scope lit op ac s = (Inr (VStr (Sprintf X fmt as)), s')"
    using h string_lit_single [of lit c nl doc X s scope ev "Sprintf X fmt as" s' op ac]
    by blast
next
  fix lit c1 n1 d1 c2 n2 d2 rest v s s1 op ac
  assume "Type_Type (fl_Type lit) = StrT \<and>
      NonEmptyStmts (fl_Body lit) = Stmt (Some c1) n1 d1 # Stmt (Some c2) n2 d2 # rest \<and>
      \<not> isDebug X c1 \<and> \<not> isDebug X c2 \<and>
      Debug s scope (CallNode c1) (VStr []) = None \<and>
      emitSourceStmt X ev scope StrT c1 noopAliasCallback s = (Inr v, s1) \<and>
      Debug s1 scope (CallNode c2) v = None"
  then show "emitFuncLit X ev scope lit op ac s
      = (Inl (Panic (PanicMsg ''unimplemented'')), s1)"
    using string_lit_chain [of lit c1 n1 d1 c2 n2 d2 rest X s scope ev v s1 op ac] by blast
next
  fix lit s op ac
  assume "Type_Type (fl_Type lit) = StrT \<and>
      2 \<le> length (filter (\<lambda>stmt. \<not> isDebugStmt X stmt) (NonEmptyStmts (fl_Body lit)))"
  then show "\<exists>e s'. emitFuncLit X ev scope lit op ac s = (Inl e, s')"
    using string_lit_no_value [of lit X ev scope op ac s] by blast
qed


text \<open>
  The blocks \<open>string { format "hello %s" "world"; }\<close> and
  \<open>string { value "a"; value "b"; }\<close>.
\<close>

theorem string_blocks_source_only_witness:
  "emitFuncLit stdExtern (specEvaluators stdExtern (Suc 0)) (Scope [] None)
     (NewFuncLit StrT
        [NewCallStmt ''format'' [NewStringExpr ''hello %s'', NewStringExpr ''world''] None None])
     [] noopAliasCallback (newInfo 0)
   = (Inr (VStr ''hello world''), newInfo 0) \<and>
   emitFuncLit stdExtern (specEvaluators stdExtern (Suc 0)) (Scope [] None)
     (NewFuncLit StrT
        [NewCallStmt ''value'' [NewStringExpr ''a''] None None,
         NewCallStmt ''value'' [NewStringExpr ''b''] None None])
     [] noopAliasCallback (newInfo 0)
   = (Inl (Panic (PanicMsg ''unimplemented'')), newInfo 0)"
proof -
  note T = string_blocks_source_only [of stdExtern "Scope [] None"
             "specEvaluators stdExtern (Suc 0)"]
  have f: "sprintf ''hello %s'' [''world''] = ''hello world''" by code_simp
  have 1: "emitFuncLit stdExtern (specEvaluators stdExtern (Suc 0)) (Scope [] None)
     (NewFuncLit StrT
        [NewCallStmt ''format'' [NewStringExpr ''hello %s'', NewStringExpr ''world''] None None])
     [] noopAliasCallback (newInfo 0)
   = (Inr (VStr (Sprintf stdExtern ''hello %s'' [''world''])), newInfo 0)"
    using T [THEN conjunct2, THEN conjunct1, rule_format,
        of "NewFuncLit StrT
              [NewCallStmt ''format'' [NewStringExpr ''hello %s'', NewStringExpr ''world'']
                 None None]"
           "CallStmt noPos (NewIdent ''format'')
              [NewStringExpr ''hello %s'', NewStringExpr ''world''] None None"
           None None "newInfo 0" "NewStringExpr ''hello %s''" "[NewStringExpr ''world'']"
           "''hello %s''" "newInfo 0" "[''world'']" "newInfo 0" "[]" noopAliasCallback]
    by (simp add: NewFuncLit_def NewType_def Type_Type_def StrT_def NonEmptyStmts_def
          NewCallStmt_def NewIdent_def isDebug_def Contains_def builtinTable_def newInfo_def
          NewNoopDebugger_def Filesystem_def bnd_def)
  have 2: "emitFuncLit stdExtern (specEvaluators stdExtern (Suc 0)) (Scope [] None)
     (NewFuncLit StrT
        [NewCallStmt ''value'' [NewStringExpr ''a''] None None,
         NewCallStmt ''value'' [NewStringExpr ''b''] None None])
     [] noopAliasCallback (newInfo 0)
   = (Inl (Panic (PanicMsg ''unimplemented'')), newInfo 0)"
    using T [THEN conjunct2, THEN conjunct2, THEN conjunct1, rule_format,
        of "NewFuncLit StrT
              [NewCallStmt ''value'' [NewStringExpr ''a''] None None,
               NewCallStmt ''value'' [NewStringExpr ''b''] None None]"
           "CallStmt noPos (NewIdent ''value'') [NewStringExpr ''a''] None None" None None
           "CallStmt noPos (NewIdent ''value'') [NewStringExpr ''b''] None None" None None
           "[]" "newInfo 0" "VStr ''a''" "newInfo 0" "[]" noopAliasCallback]
    by (simp add: NewFuncLit_def NewType_def Type_Type_def StrT_def NonEmptyStmts_def
          NewCallStmt_def NewIdent_def isDebug_def Contains_def builtinTable_def newInfo_def
          NewNoopDebugger_def emitSourceStmt_def emitStringSourceStmt_def Filesystem_def)
  show ?thesis using 1 2 f by simp
qed

text \<open>
  The block \<open>string { value "x"; breakpoint; }\<close> has two statements that are no trivia, and
  it evaluates to a value: the debug call is passed over, and no chain is evaluated.
\<close>

theorem string_block_debug_counterexample:
  "length (NonEmptyStmts (fl_Body (NewFuncLit StrT
      [NewCallStmt ''value'' [NewStringExpr ''x''] None None,
       NewCallStmt ''breakpoint'' [] None None]))) = 2 \<and>
   emitFuncLit stdExtern (specEvaluators stdExtern (Suc 0)) (Scope [] None)
     (NewFuncLit StrT
        [NewCallStmt ''value'' [NewStringExpr ''x''] None None,
         NewCallStmt ''breakpoint'' [] None None])
     [] noopAliasCallback (newInfo 0)
   = (Inr (VStr ''x''), newInfo 0)"
  by (simp add: NewFuncLit_def NewType_def Type_Type_def StrT_def NonEmptyStmts_def
        NewCallStmt_def NewIdent_def Contains_def builtinTable_def newInfo_def
        NewNoopDebugger_def emitSourceStmt_def emitStringSourceStmt_def Filesystem_def
        emitFuncLit_def emitStringBlock_def emitBlock_def initialValue_def debugHook_def
        IntT_def BoolT_def bnd_def)

subsection \<open>Blocks of call statements\<close>

text \<open>
  On a list of call statements the index arithmetic of \<open>emitBlock\<close> resolves: the first
  loop calls the debug hook on the leading debug calls; the source statement is the first
  statement that is no debug call, and the first statement of all when there is none; the
  second loop runs over the statements after the source statement.
\<close>

definition callStmt :: "call_stmt \<Rightarrow> stmt" where
  "callStmt c = Stmt (Some c) None None"

fun debugCalls :: "Scope \<Rightarrow> val \<Rightarrow> call_stmt list \<Rightarrow> unit M" where
  "debugCalls scope V [] = ret ()"
| "debugCalls scope V (c # cs) =
     bnd (debugHook scope (CallNode c) V) (\<lambda>_. debugCalls scope V cs)"

fun chainCalls ::
  "extern \<Rightarrow> evaluators \<Rightarrow> Scope \<Rightarrow> ObjType \<Rightarrow> aliasCallback \<Rightarrow> call_stmt list \<Rightarrow> val \<Rightarrow> val M"
  where
  "chainCalls X ev scope typ ac [] V = ret V"
| "chainCalls X ev scope typ ac (c # cs) V =
     bnd (debugHook scope (CallNode c) V) (\<lambda>_.
       if isDebug X c then chainCalls X ev scope typ ac cs V
       else
         bnd (emitChainStmt X ev scope typ c ac) (\<lambda>chain.
         bnd (chain V) (\<lambda>V'.
         bnd (aliased ac c V') (\<lambda>_.
         chainCalls X ev scope typ ac cs V'))))"

definition sourceCalls ::
  "extern \<Rightarrow> evaluators \<Rightarrow> Scope \<Rightarrow> ObjType \<Rightarrow> aliasCallback \<Rightarrow> call_stmt \<Rightarrow> call_stmt list
     \<Rightarrow> val M" where
  "sourceCalls X ev scope typ ac source remaining =
     bnd (debugHook scope (CallNode source) (initialValue typ)) (\<lambda>_.
     bnd (emitSourceStmt X ev scope typ source ac) (\<lambda>V.
     bnd (aliased ac source V) (\<lambda>_.
     chainCalls X ev scope typ ac remaining V)))"

definition blockCalls ::
  "extern \<Rightarrow> evaluators \<Rightarrow> Scope \<Rightarrow> ObjType \<Rightarrow> call_stmt list \<Rightarrow> aliasCallback \<Rightarrow> val M" where
  "blockCalls X ev scope typ calls ac =
     bnd (debugCalls scope (initialValue typ) (takeWhile (isDebug X) calls)) (\<lambda>_.
       case dropWhile (isDebug X) calls of
         [] \<Rightarrow>
           (case calls of
              [] \<Rightarrow> throw (Panic IndexOutOfRange)
            | first # others \<Rightarrow> sourceCalls X ev scope typ ac first others)
       | source # remaining \<Rightarrow> sourceCalls X ev scope typ ac source remaining)"

lemma skip_calls:
  "emitBlock_skip X scope v (map callStmt calls) i =
     bnd (debugCalls scope v (takeWhile (isDebug X) calls)) (\<lambda>_.
       ret (if dropWhile (isDebug X) calls = [] then 0
            else i + length (takeWhile (isDebug X) calls)))"
proof (induction calls arbitrary: i)
  case Nil
  then show ?case by simp
next
  case (Cons c cs)
  show ?case
  proof (cases "isDebug X c")
    case True
    then show ?thesis
      using Cons.IH [of "Suc i"] by (simp add: callStmt_def isDebug_def)
  next
    case False
    then show ?thesis by (simp add: callStmt_def isDebug_def)
  qed
qed

lemma chain_calls:
  "emitBlock_chain X ev scope typ ac (map callStmt cs) v = chainCalls X ev scope typ ac cs v"
  by (induction cs arbitrary: v) (simp_all add: callStmt_def isDebug_def)

lemma emitBlock_calls:
  "emitBlock X ev scope typ (map callStmt calls) ac = blockCalls X ev scope typ calls ac"
proof (cases "dropWhile (isDebug X) calls")
  case Nil
  then have t: "takeWhile (isDebug X) calls = calls"
    using takeWhile_dropWhile_id [of "isDebug X" calls] by simp
  show ?thesis
  proof (cases calls)
    case Nil
    then show ?thesis by (simp add: emitBlock_def blockCalls_def)
  next
    case (Cons first others)
    have d: "dropWhile (isDebug X) (first # others) = []"
      using \<open>dropWhile (isDebug X) calls = []\<close> Cons by simp
    have tk: "takeWhile (isDebug X) (first # others) = first # others"
      using t Cons by simp
    show ?thesis
      unfolding Cons emitBlock_def blockCalls_def skip_calls d tk sourceCalls_def
      by (simp add: chain_calls callStmt_def)
  qed
next
  case (Cons source remaining)
  let ?pre = "takeWhile (isDebug X) calls"
  have calls: "calls = ?pre @ source # remaining"
    using Cons takeWhile_dropWhile_id [of "isDebug X" calls] by simp
  have len: "length ?pre < length (map callStmt calls)"
    by (subst (2) calls) simp
  have nth: "map callStmt calls ! length ?pre = callStmt source"
    by (subst calls) (simp add: nth_append)
  have drp: "drop (length ?pre + 1) (map callStmt calls) = map callStmt remaining"
    by (subst calls) simp
  show ?thesis
    using Cons len nth drp
    by (simp add: emitBlock_def blockCalls_def sourceCalls_def skip_calls chain_calls index_def
          callStmt_def)
qed

definition NewNumericExpr :: "int \<Rightarrow> int \<Rightarrow> expr" where
  "NewNumericExpr v base = Expr None (Some (BasicLit None None (Some (NumericLit v base)) None)) None"

subsection \<open>Alias callbacks\<close>

text \<open>
  The aliased mounts of a statement list, and of the inline \<open>with\<close> block of a call: the
  statements that the scan of \<open>run\<close> stops at.
\<close>

fun mountAliases :: "stmt list \<Rightarrow> call_stmt list" where
  "mountAliases [] = []"
| "mountAliases (stmt # rest) =
     (case Call stmt of
        None \<Rightarrow> mountAliases rest
      | Some c \<Rightarrow>
          if Name (Func c) = ''mount'' \<and> c_Alias c \<noteq> None then c # mountAliases rest
          else mountAliases rest)"

definition aliasedMounts :: "call_stmt \<Rightarrow> call_stmt list" where
  "aliasedMounts call =
     (case c_WithOpt call of
        None \<Rightarrow> []
      | Some w \<Rightarrow>
          (case w_Ident w of
             Some i \<Rightarrow> []
           | None \<Rightarrow>
               (case w_FuncLit w of
                  Some lit \<Rightarrow> mountAliases (NonEmptyStmts (fl_Body lit))
                | None \<Rightarrow> [])))"

text \<open>How often the capturing callback has been called for a statement.\<close>

definition reports :: "call_stmt \<Rightarrow> env \<Rightarrow> nat" where
  "reports c s = length (filter (\<lambda>e. fst e = c) (captured s))"

lemma bnd_Inr_iff:
  "(bnd m f s = (Inr y, s')) = (\<exists>x s1. m s = (Inr x, s1) \<and> f x s1 = (Inr y, s'))"
  by (cases "m s") (auto simp: bnd_def split: sum.splits)

lemma lift_Inr_iff: "(lift r s = (Inr y, s')) = (r = Inr y \<and> s' = s)"
  by (auto simp: lift_def)

lemma index_Inr_iff: "(index xs i s = (Inr y, s')) = (i < length xs \<and> y = xs ! i \<and> s' = s)"
  by (auto simp: index_def)

lemma runMounts_loop_result:
  "runMounts_loop ev scope call stmts acc s = (Inr acc', s') \<Longrightarrow>
   \<exists>new. fst acc' = fst acc @ new \<and>
         (\<forall>t. t \<notin> set new \<longrightarrow> snd acc' t = snd acc t) \<and>
         list_all2 (\<lambda>c t. 1 < length (Args c) \<and>
                      (\<exists>sa sb. emitStringExpr ev scope call (Args c ! 1) sa = (Inr t, sb)))
           (mountAliases stmts) new \<and>
         (distinct new \<longrightarrow> map (snd acc') new = map Some (mountAliases stmts))"
proof (induction stmts arbitrary: acc s)
  case Nil
  then show ?case by simp
next
  case (Cons stmt rest)
  show ?case
  proof (cases "Call stmt")
    case None
    then show ?thesis using Cons.prems by simp
  next
    case (Some c)
    show ?thesis
    proof (cases "Name (Func c) = ''mount'' \<and> c_Alias c \<noteq> None")
      case False
      then have "runMounts_loop ev scope call rest acc s = (Inr acc', s')"
        using Cons.prems Some by auto
      from Cons.IH [OF this] show ?thesis using False Some by auto
    next
      case True
      then have "bnd (index (Args c) 1) (\<lambda>a1.
                 bnd (emitStringExpr ev scope call a1) (\<lambda>t.
                 runMounts_loop ev scope call rest (fst acc @ [t], (snd acc)(t \<mapsto> c)))) s
                 = (Inr acc', s')"
        using Cons.prems Some by (auto split: if_splits)
      then obtain t s1 where len: "1 < length (Args c)"
        and t: "emitStringExpr ev scope call (Args c ! 1) s = (Inr t, s1)"
        and rec: "runMounts_loop ev scope call rest (fst acc @ [t], (snd acc)(t \<mapsto> c)) s1
                    = (Inr acc', s')"
        by (auto simp: bnd_Inr_iff index_Inr_iff)
      from Cons.IH [OF rec] obtain new where new:
        "fst acc' = (fst acc @ [t]) @ new"
        "\<forall>u. u \<notin> set new \<longrightarrow> snd acc' u = ((snd acc)(t \<mapsto> c)) u"
        "list_all2 (\<lambda>c t. 1 < length (Args c) \<and>
                      (\<exists>sa sb. emitStringExpr ev scope call (Args c ! 1) sa = (Inr t, sb)))
           (mountAliases rest) new"
        "distinct new \<longrightarrow> map (snd acc') new = map Some (mountAliases rest)"
        by auto
      have m: "mountAliases (stmt # rest) = c # mountAliases rest"
        using True Some by simp
      show ?thesis
      proof (intro exI [of _ "t # new"] conjI allI impI)
        show "fst acc' = fst acc @ t # new" using new(1) by simp
      next
        fix u assume "u \<notin> set (t # new)"
        then show "snd acc' u = snd acc u" using new(2) by auto
      next
        show "list_all2 (\<lambda>c t. 1 < length (Args c) \<and>
                      (\<exists>sa sb. emitStringExpr ev scope call (Args c ! 1) sa = (Inr t, sb)))
           (mountAliases (stmt # rest)) (t # new)"
          using new(3) len t m by auto
      next
        assume d: "distinct (t # new)"
        then have "snd acc' t = Some c" using new(2) by auto
        then show "map (snd acc') (t # new) = map Some (mountAliases (stmt # rest))"
          using new(4) d m by simp
      qed
    qed
  qed
qed

lemma runMounts_result:
  assumes "runMounts ev scope call s = (Inr m, s')"
  shows "list_all2 (\<lambda>c t. 1 < length (Args c) \<and>
                      (\<exists>sa sb. emitStringExpr ev scope call (Args c ! 1) sa = (Inr t, sb)))
           (aliasedMounts call) (fst m) \<and>
         (distinct (fst m) \<longrightarrow> map (snd m) (fst m) = map Some (aliasedMounts call))"
proof (cases "c_WithOpt call")
  case None
  then show ?thesis using assms by (auto simp: runMounts_def aliasedMounts_def)
next
  case (Some w)
  show ?thesis
  proof (cases "w_Ident w")
    case (Some i)
    then show ?thesis
      using assms \<open>c_WithOpt call = Some w\<close> by (auto simp: runMounts_def aliasedMounts_def)
  next
    case None
    show ?thesis
    proof (cases "w_FuncLit w")
      case None
      then show ?thesis
        using assms \<open>c_WithOpt call = Some w\<close> \<open>w_Ident w = None\<close>
        by (auto simp: runMounts_def aliasedMounts_def)
    next
      case (Some lit)
      then have r: "runMounts_loop ev scope call (NonEmptyStmts (fl_Body lit)) ([], Map.empty) s
          = (Inr m, s')"
        using assms \<open>c_WithOpt call = Some w\<close> \<open>w_Ident w = None\<close>
        by (simp add: runMounts_def)
      have a: "aliasedMounts call = mountAliases (NonEmptyStmts (fl_Body lit))"
        using Some \<open>c_WithOpt call = Some w\<close> \<open>w_Ident w = None\<close>
        by (simp add: aliasedMounts_def)
      from runMounts_loop_result [OF r] show ?thesis using a by auto
    qed
  qed
qed

lemma fold_capture:
  "fold (\<lambda>t s'. case cm t of Some c \<Rightarrow> captureAlias c (V t) s' | None \<Rightarrow> s') targets s
   = s\<lparr>captured := captured s @
         concat (map (\<lambda>t. case cm t of Some c \<Rightarrow> [(c, V t)] | None \<Rightarrow> []) targets)\<rparr>"
  by (induction targets arbitrary: s) (auto simp: captureAlias_def split: option.splits)

lemma concat_zip:
  "map cm targets = map Some mounts \<Longrightarrow>
   concat (map (\<lambda>t. case cm t of Some c \<Rightarrow> [(c, V t)] | None \<Rightarrow> []) targets)
   = map (\<lambda>(c, t). (c, V t)) (zip mounts targets)"
  by (induction targets arbitrary: mounts) auto

lemma runClosure_capture:
  assumes "map cm targets = map Some mounts"
  shows "runClosure captureAlias opts targets cm st s
     = (Inr (State_Run st opts),
        s\<lparr>captured := captured s @
             map (\<lambda>(c, t). (c, VState (State_GetMount st opts t))) (zip mounts targets)\<rparr>)"
  using concat_zip [OF assms, of "\<lambda>t. VState (State_GetMount st opts t)"]
  by (simp add: runClosure_def fold_capture)

lemma run_mount_aliases:
  assumes "Name (Func call) = ''run''"
    and "emitFilesystemChainStmt X ev scope typ call captureAlias s = (Inr (Some so), s')"
  shows "\<exists>opts targets.
           list_all2 (\<lambda>c t. 1 < length (Args c) \<and>
                        (\<exists>sa sb. emitStringExpr ev scope call (Args c ! 1) sa = (Inr t, sb)))
             (aliasedMounts call) targets \<and>
           (distinct targets \<longrightarrow>
              (\<forall>st t. so st t
                 = (Inr (State_Run st opts),
                    t\<lparr>captured := captured t @
                         map (\<lambda>(c, tg). (c, VState (State_GetMount st opts tg)))
                           (zip (aliasedMounts call) targets)\<rparr>)))"
proof -
  from assms obtain opts m s2 s3 where
    m: "runMounts ev scope call s2 = (Inr m, s3)"
    and so: "so = runClosure captureAlias opts (fst m) (snd m)"
    by (auto simp: emitFilesystemChainStmt_def bnd_Inr_iff lift_Inr_iff)
  from runMounts_result [OF m] have
    l: "list_all2 (\<lambda>c t. 1 < length (Args c) \<and>
                      (\<exists>sa sb. emitStringExpr ev scope call (Args c ! 1) sa = (Inr t, sb)))
           (aliasedMounts call) (fst m)"
    and d: "distinct (fst m) \<longrightarrow> map (snd m) (fst m) = map Some (aliasedMounts call)"
    by auto
  show ?thesis
    using l d so by (intro exI [of _ opts] exI [of _ "fst m"]) (auto simp: runClosure_capture)
qed


lemma modify_Inr_iff: "(modify f s = (Inr y, s')) = (s' = f s)"
  by (auto simp: modify_def)

lemma ret_Inr_iff: "(ret x s = (Inr y, s')) = (y = x \<and> s' = s)"
  by (auto simp: ret_def)

lemma chainCalls_append:
  "chainCalls X ev scope typ ac (xs @ ys) V
   = bnd (chainCalls X ev scope typ ac xs V) (chainCalls X ev scope typ ac ys)"
proof (induction xs arbitrary: V)
  case Nil
  then show ?case by simp
next
  case (Cons c cs)
  then show ?case by (cases "isDebug X c") simp_all
qed

lemma blockCalls_append:
  assumes "\<exists>c\<in>set xs. \<not> isDebug X c"
  shows "blockCalls X ev scope typ (xs @ ys) ac
     = bnd (blockCalls X ev scope typ xs ac) (chainCalls X ev scope typ ac ys)"
proof -
  from assms obtain x where x: "x \<in> set xs" "\<not> isDebug X x" by auto
  obtain source remaining where d: "dropWhile (isDebug X) xs = source # remaining"
    using assms by (cases "dropWhile (isDebug X) xs") auto
  have t: "takeWhile (isDebug X) (xs @ ys) = takeWhile (isDebug X) xs"
    using takeWhile_append1 [of x xs "isDebug X" ys] x by simp
  have dr: "dropWhile (isDebug X) (xs @ ys) = source # remaining @ ys"
    using dropWhile_append1 [of x xs "isDebug X" ys] x d by simp
  show ?thesis
    by (simp add: blockCalls_def sourceCalls_def t dr d chainCalls_append)
qed

lemma chain_fs_value:
  assumes "emitChainStmt X ev scope Filesystem c ac s = (Inr chain, s')"
    and "chain v t = (Inr v', t')"
  shows "\<exists>st. v' = VState st"
proof -
  from assms(1) obtain so where
    chain: "chain = (\<lambda>v. case v of
                   VState st \<Rightarrow>
                     (case so of
                        None \<Rightarrow> throw (Panic NilDereference)
                      | Some so \<Rightarrow> bnd (so st) (\<lambda>st'. ret (VState st')))
                 | _ \<Rightarrow> throw (Panic TypeAssertion))"
    by (auto simp: emitChainStmt_def bnd_Inr_iff ret_Inr_iff simp del: ret_apply)
  show ?thesis
    using assms(2) unfolding chain
    by (cases v; cases so) (auto simp: bnd_Inr_iff ret_Inr_iff simp del: ret_apply)
qed

lemma source_fs_value:
  assumes "Builtins X Filesystem (Name (Func c))"
    and "emitSourceStmt X ev scope Filesystem c ac s = (Inr v, s')"
  shows "\<exists>st. v = VState st"
  using assms by (auto simp: emitSourceStmt_def bnd_Inr_iff ret_Inr_iff simp del: ret_apply)

lemma aliased_Inr_iff:
  "c_Alias c \<noteq> None \<Longrightarrow> (aliased ac c v s = (Inr y, s')) = (s' = ac c v s)"
  by (auto simp: aliased_def modify_def)

lemma blockCalls_last:
  assumes "\<not> isDebug X c" and "c_Alias c \<noteq> None"
    and "blockCalls X ev scope typ (pre @ [c]) ac s = (Inr v, s1)"
  shows "(\<exists>t. s1 = ac c v t) \<and>
         (typ = Filesystem \<and> ((\<exists>p\<in>set pre. \<not> isDebug X p) \<or> Builtins X Filesystem (Name (Func c)))
            \<longrightarrow> (\<exists>st. v = VState st))"
proof (cases "\<exists>p\<in>set pre. \<not> isDebug X p")
  case True
  from assms(3) obtain V s2 where
    ch: "chainCalls X ev scope typ ac [c] V s2 = (Inr v, s1)"
    by (auto simp: blockCalls_append [OF True] bnd_Inr_iff)
  then obtain chain s3 s4 s5 where
    c1: "emitChainStmt X ev scope typ c ac s3 = (Inr chain, s4)"
    and c2: "chain V s4 = (Inr v, s5)"
    and c3: "s1 = ac c v s5"
    using assms(1,2)
    by (auto simp: bnd_Inr_iff ret_Inr_iff aliased_Inr_iff simp del: ret_apply)
  show ?thesis
    using c3 chain_fs_value [of X ev scope c ac s3 chain s4 V s4 v s5] c1 c2 by auto
next
  case False
  then have all: "\<And>p. p \<in> set pre \<Longrightarrow> isDebug X p" by auto
  have t: "takeWhile (isDebug X) (pre @ [c]) = pre"
    using takeWhile_append2 [of pre "isDebug X" "[c]"] all assms(1) by simp
  have d: "dropWhile (isDebug X) (pre @ [c]) = [c]"
    using dropWhile_append2 [of pre "isDebug X" "[c]"] all assms(1) by simp
  from assms(3) obtain s3 s4 where
    c1: "emitSourceStmt X ev scope typ c ac s3 = (Inr v, s4)"
    and c3: "s1 = ac c v s4"
    using assms(2)
    by (auto simp: blockCalls_def sourceCalls_def t d bnd_Inr_iff ret_Inr_iff aliased_Inr_iff
        simp del: ret_apply)
  show ?thesis
    using c3 c1 source_fs_value [of X c ev scope ac s3 v s4] False by auto
qed

lemma alias_after_statement:
  assumes nd: "\<not> isDebug X c" and al: "c_Alias c \<noteq> None"
    and run: "emitBlock X ev scope typ (map callStmt (pre @ c # post)) ac s = (Inr v', s')"
  shows "\<exists>v t. emitBlock X ev scope typ (map callStmt (pre @ [c])) ac s = (Inr v, ac c v t) \<and>
           emitBlock_chain X ev scope typ ac (map callStmt post) v (ac c v t) = (Inr v', s') \<and>
           (typ = Filesystem \<and>
              ((\<exists>p\<in>set pre. \<not> isDebug X p) \<or> Builtins X Filesystem (Name (Func c)))
              \<longrightarrow> (\<exists>st. v = VState st))"
proof -
  have e1: "\<exists>x\<in>set (pre @ [c]). \<not> isDebug X x" using nd by auto
  have "emitBlock X ev scope typ (map callStmt (pre @ c # post)) ac
      = blockCalls X ev scope typ ((pre @ [c]) @ post) ac"
    using emitBlock_calls [of X ev scope "typ" "pre @ c # post" ac] by simp
  also have "\<dots> = bnd (blockCalls X ev scope typ (pre @ [c]) ac)
                     (chainCalls X ev scope typ ac post)"
    using e1 by (rule blockCalls_append)
  finally obtain v s1 where
    p: "blockCalls X ev scope typ (pre @ [c]) ac s = (Inr v, s1)"
    and q: "chainCalls X ev scope typ ac post v s1 = (Inr v', s')"
    using run by (auto simp: bnd_Inr_iff)
  from blockCalls_last [OF nd al p] obtain t where
    t: "s1 = ac c v t"
    and ty: "typ = Filesystem \<and>
         ((\<exists>p\<in>set pre. \<not> isDebug X p) \<or> Builtins X Filesystem (Name (Func c)))
            \<longrightarrow> (\<exists>st. v = VState st)"
    by auto
  show ?thesis
    using p q t ty emitBlock_calls [of X ev scope "typ" "pre @ [c]" ac]
    by (intro exI [of _ v] exI [of _ t]) (simp add: chain_calls)
qed


text \<open>
  Evaluating a statement is quiet about \<open>c0\<close> when it does not itself report \<open>c0\<close> to
  the capturing callback: neither the evaluation of a source statement, nor the evaluation of
  a chain statement, nor the chain it returns.
\<close>

definition quietSource ::
  "extern \<Rightarrow> evaluators \<Rightarrow> Scope \<Rightarrow> ObjType \<Rightarrow> call_stmt \<Rightarrow> call_stmt \<Rightarrow> bool" where
  "quietSource X ev scope typ c0 c =
     (\<forall>s v s'. emitSourceStmt X ev scope typ c captureAlias s = (Inr v, s')
        \<longrightarrow> reports c0 s' = reports c0 s)"

definition quietChain ::
  "extern \<Rightarrow> evaluators \<Rightarrow> Scope \<Rightarrow> ObjType \<Rightarrow> call_stmt \<Rightarrow> call_stmt \<Rightarrow> bool" where
  "quietChain X ev scope typ c0 c =
     (\<forall>s chain s'. emitChainStmt X ev scope typ c captureAlias s = (Inr chain, s')
        \<longrightarrow> reports c0 s' = reports c0 s \<and>
            (\<forall>v t v' t'. chain v t = (Inr v', t') \<longrightarrow> reports c0 t' = reports c0 t))"

definition quietBlock ::
  "extern \<Rightarrow> evaluators \<Rightarrow> Scope \<Rightarrow> ObjType \<Rightarrow> call_stmt \<Rightarrow> call_stmt list \<Rightarrow> bool" where
  "quietBlock X ev scope typ c0 calls =
     (case dropWhile (isDebug X) calls of
        [] \<Rightarrow>
          (case calls of
             [] \<Rightarrow> True
           | first # others \<Rightarrow> quietSource X ev scope typ c0 first)
      | source # remaining \<Rightarrow>
          quietSource X ev scope typ c0 source \<and>
          (\<forall>c\<in>set remaining. \<not> isDebug X c \<longrightarrow> quietChain X ev scope typ c0 c))"

text \<open>
  The statements of a block that \<open>emitBlock\<close> evaluates as a source or a chain statement:
  those that are no debug calls, and the first statement alone when all are debug calls.
\<close>

definition evaluatedCalls :: "extern \<Rightarrow> call_stmt list \<Rightarrow> call_stmt list" where
  "evaluatedCalls X calls =
     (case dropWhile (isDebug X) calls of
        [] \<Rightarrow> take 1 calls
      | source # remaining \<Rightarrow> source # filter (\<lambda>c. \<not> isDebug X c) remaining)"

lemma aliased_reports:
  "aliased captureAlias c v s = (r, s') \<Longrightarrow>
   reports c0 s' = reports c0 s + (if c = c0 \<and> c_Alias c \<noteq> None then 1 else 0)"
  by (cases "c_Alias c")
     (auto simp: aliased_def modify_def captureAlias_def reports_def ret_def)

lemma debugCalls_state: "debugCalls scope V cs s = (r, s') \<Longrightarrow> s' = s"
proof (induction cs arbitrary: s)
  case Nil
  then show ?case by (simp add: ret_def)
next
  case (Cons c cs)
  show ?case
  proof (cases "debugHook scope (CallNode c) V s")
    case (Pair a b)
    then have b: "b = s" by (rule debugHook_state)
    show ?thesis
    proof (cases a)
      case (Inl e)
      then show ?thesis using Cons.prems Pair b by (simp add: bnd_def)
    next
      case (Inr u)
      then show ?thesis using Cons.prems Pair b Cons.IH by (simp add: bnd_def)
    qed
  qed
qed

lemma debugHook_Inr: "debugHook scope n v s = (Inr y, s') \<Longrightarrow> s' = s"
  by (rule debugHook_state)

lemma chainCalls_reports:
  assumes "\<forall>c\<in>set cs. \<not> isDebug X c \<longrightarrow> quietChain X ev scope typ c0 c"
    and "chainCalls X ev scope typ captureAlias cs V s = (Inr v, s')"
  shows "reports c0 s' = reports c0 s +
           (if c_Alias c0 \<noteq> None then count_list (filter (\<lambda>c. \<not> isDebug X c) cs) c0 else 0)"
  using assms
proof (induction cs arbitrary: V s)
  case Nil
  then show ?case by (simp add: ret_def)
next
  case (Cons c cs)
  have q: "\<forall>c\<in>set cs. \<not> isDebug X c \<longrightarrow> quietChain X ev scope typ c0 c"
    using Cons.prems(1) by simp
  show ?case
  proof (cases "isDebug X c")
    case True
    then obtain s1 where h: "debugHook scope (CallNode c) V s = (Inr (), s1)"
      and r: "chainCalls X ev scope typ captureAlias cs V s1 = (Inr v, s')"
      using Cons.prems(2) by (auto simp: bnd_Inr_iff)
    have "s1 = s" using h by (rule debugHook_state)
    then show ?thesis using Cons.IH [OF q, of V s] r True by simp
  next
    case False
    then obtain s1 chain s2 V' s3 s4 where
      h: "debugHook scope (CallNode c) V s = (Inr (), s1)"
      and c1: "emitChainStmt X ev scope typ c captureAlias s1 = (Inr chain, s2)"
      and c2: "chain V s2 = (Inr V', s3)"
      and c3: "aliased captureAlias c V' s3 = (Inr (), s4)"
      and r: "chainCalls X ev scope typ captureAlias cs V' s4 = (Inr v, s')"
      using Cons.prems(2) by (auto simp: bnd_Inr_iff)
    have s1: "s1 = s" using h by (rule debugHook_state)
    have qc: "quietChain X ev scope typ c0 c" using Cons.prems(1) False by simp
    have r2: "reports c0 s2 = reports c0 s"
      using qc c1 s1 unfolding quietChain_def by blast
    have r3: "reports c0 s3 = reports c0 s2"
      using qc c1 c2 unfolding quietChain_def by blast
    have r4: "reports c0 s4 = reports c0 s3 + (if c = c0 \<and> c_Alias c \<noteq> None then 1 else 0)"
      using c3 by (rule aliased_reports)
    show ?thesis
      using Cons.IH [OF q r] r2 r3 r4 False by auto
  qed
qed

lemma filter_dropWhile_not:
  "filter (\<lambda>c. \<not> P c) (dropWhile P xs) = filter (\<lambda>c. \<not> P c) xs"
  by (induction xs) auto

lemma blockCalls_reports:
  assumes q: "quietBlock X ev scope typ c0 calls"
    and run: "blockCalls X ev scope typ calls captureAlias s = (Inr v, s')"
  shows "reports c0 s' = reports c0 s +
           (if c_Alias c0 \<noteq> None then count_list (evaluatedCalls X calls) c0 else 0)"
proof -
  obtain source remaining where
    src: "blockCalls X ev scope typ calls captureAlias
            = bnd (debugCalls scope (initialValue typ) (takeWhile (isDebug X) calls))
                (\<lambda>_. sourceCalls X ev scope typ captureAlias source remaining)"
    and ev: "evaluatedCalls X calls = source # filter (\<lambda>c. \<not> isDebug X c) remaining"
    and qs: "quietSource X ev scope typ c0 source"
    and qr: "\<forall>c\<in>set remaining. \<not> isDebug X c \<longrightarrow> quietChain X ev scope typ c0 c"
  proof (cases "dropWhile (isDebug X) calls")
    case Nil
    show ?thesis
    proof (cases calls)
      case Nil
      then show ?thesis using run by (simp add: blockCalls_def bnd_def)
    next
      case (Cons first others)
      have d: "dropWhile (isDebug X) (first # others) = []"
        using \<open>dropWhile (isDebug X) calls = []\<close> Cons by simp
      then have "\<forall>c\<in>set (first # others). isDebug X c"
        by (simp only: dropWhile_eq_Nil_conv)
      then have dbg: "\<forall>c\<in>set others. isDebug X c"
        by simp
      have f: "filter (\<lambda>c. \<not> isDebug X c) others = []"
        using dbg by (simp add: filter_empty_conv)
      show ?thesis
      proof (rule that [of first others])
        show "blockCalls X ev scope typ calls captureAlias
            = bnd (debugCalls scope (initialValue typ) (takeWhile (isDebug X) calls))
                (\<lambda>_. sourceCalls X ev scope typ captureAlias first others)"
          unfolding Cons blockCalls_def d by simp
        show "evaluatedCalls X calls = first # filter (\<lambda>c. \<not> isDebug X c) others"
          unfolding Cons evaluatedCalls_def d f by simp
        show "quietSource X ev scope typ c0 first"
          using q unfolding Cons quietBlock_def d by simp
        show "\<forall>c\<in>set others. \<not> isDebug X c \<longrightarrow> quietChain X ev scope typ c0 c"
          using dbg by simp
      qed
    qed
  next
    case (Cons source remaining)
    show ?thesis
    proof (rule that [of source remaining])
      show "blockCalls X ev scope typ calls captureAlias
            = bnd (debugCalls scope (initialValue typ) (takeWhile (isDebug X) calls))
                (\<lambda>_. sourceCalls X ev scope typ captureAlias source remaining)"
        by (simp add: blockCalls_def Cons)
      show "evaluatedCalls X calls = source # filter (\<lambda>c. \<not> isDebug X c) remaining"
        by (simp add: evaluatedCalls_def Cons)
      show "quietSource X ev scope typ c0 source"
        using q by (simp add: quietBlock_def Cons)
      show "\<forall>c\<in>set remaining. \<not> isDebug X c \<longrightarrow> quietChain X ev scope typ c0 c"
        using q by (simp add: quietBlock_def Cons)
    qed
  qed
  from run obtain s1 s2 V s3 s4 where
    d: "debugCalls scope (initialValue typ) (takeWhile (isDebug X) calls) s = (Inr (), s1)"
    and h: "debugHook scope (CallNode source) (initialValue typ) s1 = (Inr (), s2)"
    and c1: "emitSourceStmt X ev scope typ source captureAlias s2 = (Inr V, s3)"
    and c3: "aliased captureAlias source V s3 = (Inr (), s4)"
    and r: "chainCalls X ev scope typ captureAlias remaining V s4 = (Inr v, s')"
    unfolding src by (auto simp: sourceCalls_def bnd_Inr_iff)
  have s1: "s1 = s" using d by (rule debugCalls_state)
  have s2: "s2 = s1" using h by (rule debugHook_state)
  have r3: "reports c0 s3 = reports c0 s"
    using qs c1 s1 s2 unfolding quietSource_def by blast
  have r4: "reports c0 s4 = reports c0 s3 + (if source = c0 \<and> c_Alias source \<noteq> None then 1 else 0)"
    using c3 by (rule aliased_reports)
  show ?thesis
    using chainCalls_reports [OF qr r] r3 r4 ev by auto
qed

text \<open>
  C4, as the code has it. (1) A statement of a block that carries an alias and is not a debug
  call hands its call statement to the alias callback right after it has been evaluated,
  with the value of the block up to and including that statement, and the rest of the block
  goes on from that value; in an \<open>fs\<close> block the value is a filesystem when the statement is
  a chain statement or a builtin source. (2) When evaluating the statements of a block does
  not itself report a statement \<open>k\<close>, a block that evaluates reports \<open>k\<close> once for each of
  its occurrences among the statements that the block evaluates as source or chain statement
  if \<open>k\<close> carries an alias, and never otherwise. These are the statements that are no debug
  calls; so in a block with such a statement a debug call is never reported, with or without
  an alias. (3) The chain that \<open>run\<close> returns has one target for each aliased \<open>mount\<close> of
  its inline \<open>with\<close> block, the evaluation of the second argument of that mount; when the
  targets are distinct, applying the chain to a filesystem reports each of these mounts
  once, in order, with the mount of the exec at its target, and yields the root of the exec.
\<close>

theorem alias_callback:
  "(\<not> isDebug X c \<and> c_Alias c \<noteq> None \<and>
    emitBlock X ev scope ty (map callStmt (pre @ c # post)) ac s = (Inr v', s') \<longrightarrow>
      (\<exists>v t. emitBlock X ev scope ty (map callStmt (pre @ [c])) ac s = (Inr v, ac c v t) \<and>
             emitBlock_chain X ev scope ty ac (map callStmt post) v (ac c v t) = (Inr v', s') \<and>
             (ty = Filesystem \<and>
                ((\<exists>p\<in>set pre. \<not> isDebug X p) \<or> Builtins X Filesystem (Name (Func c)))
                \<longrightarrow> (\<exists>st. v = VState st)))) \<and>
   (quietBlock X ev scope ty k calls \<and>
    emitBlock X ev scope ty (map callStmt calls) captureAlias u = (Inr w, u') \<longrightarrow>
      reports k u' = reports k u +
        (if c_Alias k \<noteq> None then count_list (evaluatedCalls X calls) k else 0)) \<and>
   ((\<exists>d\<in>set calls. \<not> isDebug X d) \<longrightarrow>
      evaluatedCalls X calls = filter (\<lambda>d. \<not> isDebug X d) calls) \<and>
   (Name (Func call) = ''run'' \<and>
    emitFilesystemChainStmt X ev scope ty call captureAlias r = (Inr (Some so), r') \<longrightarrow>
      (\<exists>opts targets.
          list_all2 (\<lambda>m t. 1 < length (Args m) \<and>
                       (\<exists>sa sb. emitStringExpr ev scope call (Args m ! 1) sa = (Inr t, sb)))
            (aliasedMounts call) targets \<and>
          (distinct targets \<longrightarrow>
             (\<forall>st t. so st t
                = (Inr (State_Run st opts),
                   t\<lparr>captured := captured t @
                        map (\<lambda>(m, tg). (m, VState (State_GetMount st opts tg)))
                          (zip (aliasedMounts call) targets)\<rparr>)))))"
proof (intro conjI impI)
  assume h: "\<not> isDebug X c \<and> c_Alias c \<noteq> None \<and>
    emitBlock X ev scope ty (map callStmt (pre @ c # post)) ac s = (Inr v', s')"
  then show "\<exists>v t. emitBlock X ev scope ty (map callStmt (pre @ [c])) ac s = (Inr v, ac c v t) \<and>
             emitBlock_chain X ev scope ty ac (map callStmt post) v (ac c v t) = (Inr v', s') \<and>
             (ty = Filesystem \<and>
                ((\<exists>p\<in>set pre. \<not> isDebug X p) \<or> Builtins X Filesystem (Name (Func c)))
                \<longrightarrow> (\<exists>st. v = VState st))"
    using alias_after_statement [of X c ev scope ty pre post ac s v' s'] by blast
next
  assume h: "quietBlock X ev scope ty k calls \<and>
    emitBlock X ev scope ty (map callStmt calls) captureAlias u = (Inr w, u')"
  then have "blockCalls X ev scope ty calls captureAlias u = (Inr w, u')"
    by (simp add: emitBlock_calls)
  then show "reports k u' = reports k u +
        (if c_Alias k \<noteq> None then count_list (evaluatedCalls X calls) k else 0)"
    using h blockCalls_reports [of X ev scope ty k calls u w u'] by blast
next
  assume "\<exists>d\<in>set calls. \<not> isDebug X d"
  then obtain source remaining where d: "dropWhile (isDebug X) calls = source # remaining"
    by (cases "dropWhile (isDebug X) calls") auto
  have nd: "\<not> isDebug X source"
    using d hd_dropWhile [of "isDebug X" calls] by auto
  show "evaluatedCalls X calls = filter (\<lambda>d. \<not> isDebug X d) calls"
    using filter_dropWhile_not [of "isDebug X" calls] d nd by (simp add: evaluatedCalls_def)
next
  assume h: "Name (Func call) = ''run'' \<and>
    emitFilesystemChainStmt X ev scope ty call captureAlias r = (Inr (Some so), r')"
  then show "\<exists>opts targets.
          list_all2 (\<lambda>m t. 1 < length (Args m) \<and>
                       (\<exists>sa sb. emitStringExpr ev scope call (Args m ! 1) sa = (Inr t, sb)))
            (aliasedMounts call) targets \<and>
          (distinct targets \<longrightarrow>
             (\<forall>st t. so st t
                = (Inr (State_Run st opts),
                   t\<lparr>captured := captured t @
                        map (\<lambda>(m, tg). (m, VState (State_GetMount st opts tg)))
                          (zip (aliasedMounts call) targets)\<rparr>)))"
    using run_mount_aliases [of call X ev scope ty r so r'] by blast
qed

text \<open>
  The sixth scenario of the spec with an alias on its source,
  \<open>image "alpine" as base; run "true" with option { mount scratch "/m" as m; }\<close>.
\<close>

definition mountAs :: "string \<Rightarrow> string \<Rightarrow> call_stmt" where
  "mountAs tgt name =
     CallStmt noPos (NewIdent ''mount'') [NewIdentExpr ''scratch'', NewStringExpr tgt] None
       (Some (AliasDecl (NewIdent name) None None))"

definition runTrue :: "call_stmt list \<Rightarrow> call_stmt" where
  "runTrue mounts =
     CallStmt noPos (NewIdent ''run'') [NewStringExpr ''true'']
       (Some (NewWithFuncLit (map callStmt mounts))) None"

definition imageAlpine :: "alias_decl option \<Rightarrow> call_stmt" where
  "imageAlpine alias = CallStmt noPos (NewIdent ''image'') [NewStringExpr ''alpine''] None alias"

lemma image_source:
  "emitSourceStmt stdExtern (specEvaluators stdExtern (Suc n)) scope Filesystem (imageAlpine a) ac s
   = (Inr (VState (Image ''alpine'' [])), s)"
  by (simp add: imageAlpine_def emitSourceStmt_def emitFilesystemSourceStmt_def builtinTable_def
        NewIdent_def)

lemma scratch_expr:
  "spec_emitFilesystemExpr stdExtern (specEvaluators stdExtern (Suc n)) (Scope [] None) None
     (NewIdentExpr ''scratch'') ac s
   = (case Debug s (Scope [] None) (CallNode (nullaryCall (Ident ''scratch''))) (VState Scratch) of
        Some e \<Rightarrow> (Inl e, s) | None \<Rightarrow> (Inr Scratch, s))"
  by (simp add: spec_emitFilesystemExpr_def NewIdentExpr_def NewIdent_def builtinTable_def
        nullaryCall_def emitFilesystemBlock_def emitBlock_def Contains_def emitSourceStmt_def
        emitFilesystemSourceStmt_def aliased_def debugHook_def initialValue_def bnd_def
        split: option.splits)

lemma split_true: "shellquote_Split ''true'' = Inr [''true'']"
  by code_simp

lemma mount_is_run_option:
  "assertOptions stdExtern RunOption [AddMount ''/m'' Scratch []] = Inr [AddMount ''/m'' Scratch []]"
  by code_simp

lemma run_chain:
  "emitFilesystemChainStmt stdExtern (specEvaluators stdExtern (Suc (Suc n))) (Scope [] None) typ
     (runTrue [mountAs ''/m'' ''m'']) ac s
   = (case Debug s (Scope [] None) (CallNode (nullaryCall (Ident ''scratch''))) (VState Scratch) of
        Some e \<Rightarrow> (Inl e, s)
      | None \<Rightarrow> (Inr (Some (runClosure ac [AddMount ''/m'' Scratch [], Shlex ''true''] [''/m'']
                              [''/m'' \<mapsto> mountAs ''/m'' ''m''])), s))"
  by (simp add: emitFilesystemChainStmt_def runTrue_def mountAs_def callStmt_def
        emitWithOption.simps NewWithFuncLit_def NewFuncLit_def NonEmptyStmts_def
        emitOptions.simps emitExecOptions_Cons emitExecOptions_stmt_def NewIdent_def
        scratch_expr runShlex_def runMounts_def bnd_def lift_def index_def split_true mount_is_run_option
        split: option.splits)

definition asBase :: "alias_decl option" where
  "asBase = Some (AliasDecl (NewIdent ''base'') None None)"

definition scenario6 :: "call_stmt list" where
  "scenario6 = [imageAlpine asBase, runTrue [mountAs ''/m'' ''m'']]"

lemma scenario6_not_debug:
  "\<not> isDebug stdExtern (imageAlpine a)" "\<not> isDebug stdExtern (runTrue ms)"
  by (simp_all add: isDebug_def Contains_def imageAlpine_def runTrue_def NewIdent_def)

lemma scenario6_quiet:
  "quietBlock stdExtern (specEvaluators stdExtern (Suc (Suc 0))) (Scope [] None) Filesystem
     (imageAlpine asBase) scenario6"
proof -
  let ?ev = "specEvaluators stdExtern (Suc (Suc 0))"
  let ?run = "runTrue [mountAs ''/m'' ''m'']"
  have src: "quietSource stdExtern ?ev (Scope [] None) Filesystem (imageAlpine asBase)
      (imageAlpine asBase)"
    by (simp add: quietSource_def image_source)
  have ne: "mountAs ''/m'' ''m'' \<noteq> imageAlpine asBase"
    by (simp add: mountAs_def imageAlpine_def NewIdent_def)
  have chn: "quietChain stdExtern ?ev (Scope [] None) Filesystem (imageAlpine asBase) ?run"
    unfolding quietChain_def
  proof (intro allI impI)
    fix s chain s'
    assume a: "emitChainStmt stdExtern ?ev (Scope [] None) Filesystem ?run captureAlias s
        = (Inr chain, s')"
    show "reports (imageAlpine asBase) s' = reports (imageAlpine asBase) s \<and>
          (\<forall>v t v' t'. chain v t = (Inr v', t')
             \<longrightarrow> reports (imageAlpine asBase) t' = reports (imageAlpine asBase) t)"
    proof (cases "Debug s (Scope [] None) (CallNode (nullaryCall (Ident ''scratch'')))
                    (VState Scratch)")
      case (Some e)
      then show ?thesis
        using a run_chain [of 0 Filesystem captureAlias s]
        by (simp add: emitChainStmt_def bnd_def)
    next
      case None
      then have rc: "emitFilesystemChainStmt stdExtern ?ev (Scope [] None) Filesystem ?run
           captureAlias s
         = (Inr (Some (runClosure captureAlias [AddMount ''/m'' Scratch [], Shlex ''true'']
                         [''/m''] [''/m'' \<mapsto> mountAs ''/m'' ''m''])), s)"
        using run_chain [of 0 Filesystem captureAlias s] by simp
      have s': "s' = s" and chain: "chain = (\<lambda>v. case v of
                   VState st \<Rightarrow>
                     bnd (runClosure captureAlias [AddMount ''/m'' Scratch [], Shlex ''true'']
                            [''/m''] [''/m'' \<mapsto> mountAs ''/m'' ''m''] st)
                       (\<lambda>st'. ret (VState st'))
                 | _ \<Rightarrow> throw (Panic TypeAssertion))"
        using a rc
        by (auto simp: emitChainStmt_def bnd_Inr_iff ret_Inr_iff simp del: ret_apply)
      have "reports (imageAlpine asBase) t' = reports (imageAlpine asBase) t"
        if "chain v t = (Inr v', t')" for v t v' t'
        using that ne unfolding chain
        by (cases v)
           (auto simp: bnd_def runClosure_def captureAlias_def reports_def ret_def throw_def)
      then show ?thesis using s' by blast
    qed
  qed
  show ?thesis
    using src chn scenario6_not_debug
    by (simp add: quietBlock_def scenario6_def)
qed


lemma scenario6_mounts: "aliasedMounts (runTrue [mountAs ''/m'' ''m'']) = [mountAs ''/m'' ''m'']"
  by (simp add: aliasedMounts_def runTrue_def NewWithFuncLit_def NewFuncLit_def NonEmptyStmts_def
        callStmt_def mountAs_def NewIdent_def)

theorem alias_callback_witness:
  "fst (emitBlock stdExtern (specEvaluators stdExtern (Suc (Suc 0))) (Scope [] None) Filesystem
          (map callStmt scenario6) captureAlias (newInfo 0))
     = Inr (VState (State_Run (Image ''alpine'' []) [AddMount ''/m'' Scratch [], Shlex ''true''])) \<and>
   (\<exists>v t. emitBlock stdExtern (specEvaluators stdExtern (Suc (Suc 0))) (Scope [] None) Filesystem
            (map callStmt [imageAlpine asBase]) captureAlias (newInfo 0)
            = (Inr v, captureAlias (imageAlpine asBase) v t) \<and>
          (\<exists>st. v = VState st)) \<and>
   reports (imageAlpine asBase)
     (snd (emitBlock stdExtern (specEvaluators stdExtern (Suc (Suc 0))) (Scope [] None) Filesystem
             (map callStmt scenario6) captureAlias (newInfo 0))) = 1 \<and>
   (\<exists>so opts tg.
       fst (emitFilesystemChainStmt stdExtern (specEvaluators stdExtern (Suc (Suc 0)))
              (Scope [] None) Filesystem (runTrue [mountAs ''/m'' ''m'']) captureAlias (newInfo 0))
         = Inr (Some so) \<and>
       (\<forall>st t. so st t
          = (Inr (State_Run st opts),
             t\<lparr>captured := captured t @
                  [(mountAs ''/m'' ''m'', VState (State_GetMount st opts tg))]\<rparr>)))"
proof -
  let ?ev = "specEvaluators stdExtern (Suc (Suc 0))"
  let ?img = "imageAlpine asBase"
  let ?run = "runTrue [mountAs ''/m'' ''m'']"
  let ?B = "emitBlock stdExtern ?ev (Scope [] None) Filesystem (map callStmt scenario6)
              captureAlias (newInfo 0)"
  let ?V = "VState (State_Run (Image ''alpine'' []) [AddMount ''/m'' Scratch [], Shlex ''true''])"
  let ?so = "runClosure captureAlias [AddMount ''/m'' Scratch [], Shlex ''true''] [''/m'']
               [''/m'' \<mapsto> mountAs ''/m'' ''m'']"
  have f: "fst ?B = Inr ?V" by code_simp
  then have run: "?B = (Inr ?V, snd ?B)" by (cases ?B) simp
  have chain: "emitFilesystemChainStmt stdExtern ?ev (Scope [] None) Filesystem ?run captureAlias
      (newInfo 0) = (Inr (Some ?so), newInfo 0)"
    using run_chain [of 0 Filesystem captureAlias "newInfo 0"]
    by (simp add: newInfo_def NewNoopDebugger_def)
  note T = alias_callback [where X = stdExtern and c = ?img and ty = Filesystem and ev = ?ev
      and scope = "Scope [] None" and pre = "[]" and post = "[?run]" and ac = captureAlias
      and s = "newInfo 0" and v' = ?V and s' = "snd ?B" and calls = scenario6 and k = ?img
      and u = "newInfo 0" and w = ?V and u' = "snd ?B" and call = ?run and r = "newInfo 0"
      and so = ?so and r' = "newInfo 0"]
  have al: "c_Alias ?img \<noteq> None" by (simp add: imageAlpine_def asBase_def)
  have bi: "Builtins stdExtern Filesystem (Name (Func ?img))"
    by (simp add: imageAlpine_def NewIdent_def builtinTable_def)
  have ne: "?run \<noteq> ?img" by (simp add: runTrue_def imageAlpine_def NewIdent_def)
  have 1: "\<exists>v t. emitBlock stdExtern ?ev (Scope [] None) Filesystem (map callStmt [?img])
                    captureAlias (newInfo 0) = (Inr v, captureAlias ?img v t) \<and>
                  (\<exists>st. v = VState st)"
    using T [THEN conjunct1] scenario6_not_debug(1) [of asBase] al bi run
    by (auto simp: scenario6_def)
  have ev: "evaluatedCalls stdExtern scenario6 = scenario6"
    using T [THEN conjunct2, THEN conjunct2, THEN conjunct1] scenario6_not_debug
    by (simp add: scenario6_def)
  have 2: "reports ?img (snd ?B) = 1"
    using T [THEN conjunct2, THEN conjunct1] scenario6_quiet al ne run
    by (simp add: ev) (simp add: scenario6_def reports_def newInfo_def)
  have nm: "Name (Func ?run) = ''run''" by (simp add: runTrue_def NewIdent_def)
  from T [THEN conjunct2, THEN conjunct2, THEN conjunct2] nm chain obtain opts targets where
    l: "list_all2 (\<lambda>m t. 1 < length (Args m) \<and>
           (\<exists>sa sb. emitStringExpr ?ev (Scope [] None) ?run (Args m ! 1) sa = (Inr t, sb)))
         (aliasedMounts ?run) targets"
    and d: "distinct targets \<longrightarrow>
             (\<forall>st t. ?so st t
                = (Inr (State_Run st opts),
                   t\<lparr>captured := captured t @
                        map (\<lambda>(m, tg). (m, VState (State_GetMount st opts tg)))
                          (zip (aliasedMounts ?run) targets)\<rparr>))"
    by blast
  from l obtain tg where tg: "targets = [tg]"
    by (auto simp: scenario6_mounts list_all2_Cons1)
  have 3: "\<exists>so opts tg.
       fst (emitFilesystemChainStmt stdExtern ?ev (Scope [] None) Filesystem ?run captureAlias
              (newInfo 0)) = Inr (Some so) \<and>
       (\<forall>st t. so st t
          = (Inr (State_Run st opts),
             t\<lparr>captured := captured t @
                  [(mountAs ''/m'' ''m'', VState (State_GetMount st opts tg))]\<rparr>))"
    using d chain unfolding tg scenario6_mounts
    by (intro exI [of _ ?so] exI [of _ opts] exI [of _ tg]) simp
  show ?thesis using f 1 2 3 by blast
qed

text \<open>
  An aliased debug call after the source, \<open>image "alpine"; breakpoint as x;\<close>: the block
  evaluates and the alias callback is never called.
\<close>

definition debugAliased :: "call_stmt list" where
  "debugAliased =
     [imageAlpine None,
      CallStmt noPos (NewIdent ''breakpoint'') [] None (Some (AliasDecl (NewIdent ''x'') None None))]"

theorem debug_alias_counterexample:
  "fst (emitBlock stdExtern (specEvaluators stdExtern (Suc (Suc 0))) (Scope [] None) Filesystem
          (map callStmt debugAliased) captureAlias (newInfo 0))
     = Inr (VState (Image ''alpine'' [])) \<and>
   c_Alias (debugAliased ! 1) \<noteq> None \<and>
   captured (snd (emitBlock stdExtern (specEvaluators stdExtern (Suc (Suc 0))) (Scope [] None)
                    Filesystem (map callStmt debugAliased) captureAlias (newInfo 0))) = []"
  by code_simp

text \<open>
  Where the targets of \<open>run\<close> are not distinct the aliased mounts are keyed by their target,
  against the remark in the source that mounts are unique by their mountpoint. On
  \<open>image "alpine"; run "true" with option { mount scratch "/m" as a; mount scratch "/m" as b; }\<close>
  the first mount is never reported and the second one twice.
\<close>

definition sameTarget :: "call_stmt list" where
  "sameTarget = [imageAlpine None, runTrue [mountAs ''/m'' ''a'', mountAs ''/m'' ''b'']]"

lemma mounts_same_target:
  "fst (emitBlock stdExtern (specEvaluators stdExtern (Suc (Suc 0))) (Scope [] None) Filesystem
          (map callStmt sameTarget) captureAlias (newInfo 0))
     = Inr (VState (State_Run (Image ''alpine'' [])
              [AddMount ''/m'' Scratch [], AddMount ''/m'' Scratch [], Shlex ''true''])) \<and>
   c_Alias (mountAs ''/m'' ''a'') \<noteq> None \<and>
   map fst (captured (snd (emitBlock stdExtern (specEvaluators stdExtern (Suc (Suc 0)))
                             (Scope [] None) Filesystem (map callStmt sameTarget) captureAlias
                             (newInfo 0))))
     = [mountAs ''/m'' ''b'', mountAs ''/m'' ''b''] \<and>
   reports (mountAs ''/m'' ''a'')
     (snd (emitBlock stdExtern (specEvaluators stdExtern (Suc (Suc 0))) (Scope [] None) Filesystem
             (map callStmt sameTarget) captureAlias (newInfo 0))) = 0 \<and>
   reports (mountAs ''/m'' ''b'')
     (snd (emitBlock stdExtern (specEvaluators stdExtern (Suc (Suc 0))) (Scope [] None) Filesystem
             (map callStmt sameTarget) captureAlias (newInfo 0))) = 2"
  by code_simp

subsection \<open>Empty blocks, trivia and blocks of debug calls\<close>

lemma skip_Call:
  "map Call stmts = map Call stmts' \<Longrightarrow>
   emitBlock_skip X scope v stmts i = emitBlock_skip X scope v stmts' i"
proof (induction stmts arbitrary: stmts' i)
  case Nil
  then show ?case by simp
next
  case (Cons stmt rest)
  then obtain stmt' rest' where s: "stmts' = stmt' # rest'" "Call stmt = Call stmt'"
    "map Call rest = map Call rest'"
    by (cases stmts') auto
  show ?case
    using Cons.IH [OF s(3)] s(1,2) by (cases "Call stmt'") (simp_all add: ret_def throw_def)
qed

lemma chain_Call:
  "map Call stmts = map Call stmts' \<Longrightarrow>
   emitBlock_chain X ev scope typ ac stmts v = emitBlock_chain X ev scope typ ac stmts' v"
proof (induction stmts arbitrary: stmts' v)
  case Nil
  then show ?case by simp
next
  case (Cons stmt rest)
  then obtain stmt' rest' where s: "stmts' = stmt' # rest'" "Call stmt = Call stmt'"
    "map Call rest = map Call rest'"
    by (cases stmts') auto
  show ?case
    using Cons.IH [OF s(3)] s(1,2) by (cases "Call stmt'") (simp_all add: ret_def throw_def)
qed

lemma index_Call:
  "bnd (index stmts i) (\<lambda>stmt. f (Call stmt)) = bnd (index (map Call stmts) i) f"
  by (simp add: index_def)

lemma emitBlock_Call:
  assumes "map Call stmts = map Call stmts'"
  shows "emitBlock X ev scope typ stmts ac = emitBlock X ev scope typ stmts' ac"
proof -
  have d: "emitBlock_chain X ev scope typ ac (drop k stmts) v
         = emitBlock_chain X ev scope typ ac (drop k stmts') v" for k v
    using assms by (intro chain_Call) (simp flip: drop_map)
  have l: "length stmts = length stmts'"
    using assms by (rule map_eq_imp_length_eq)
  have n: "i < length stmts \<Longrightarrow> Call (stmts ! i) = Call (stmts' ! i)" for i
    using assms l by (metis nth_map)
  show ?thesis
    unfolding emitBlock_def skip_Call [OF assms]
    by (rule arg_cong [where f = "bnd (emitBlock_skip X scope (initialValue typ) stmts' 0)"])
       (auto simp: fun_eq_iff index_def d l n bnd_def split: option.splits)
qed

lemma emitBlock_calls_of:
  "map Call stmts = map Some calls \<Longrightarrow>
   emitBlock X ev scope typ stmts ac = blockCalls X ev scope typ calls ac"
  using emitBlock_Call [of stmts "map callStmt calls" X ev scope "typ" ac]
  by (simp add: emitBlock_calls callStmt_def comp_def)


lemma skip_to_trivia:
  assumes "\<forall>d\<in>set dbg. isDebug X d" and "Call t = None"
  shows "emitBlock_skip X scope v (map callStmt dbg @ t # rest) i
     = bnd (debugCalls scope v dbg) (\<lambda>_. throw (Panic NilDereference))"
  using assms(1)
proof (induction dbg arbitrary: i)
  case Nil
  then show ?case using assms(2) by simp
next
  case (Cons d dbg)
  then show ?case by (simp add: callStmt_def isDebug_def)
qed

lemma skip_prefix:
  assumes "\<exists>c\<in>set pre. \<not> isDebug X c"
  shows "emitBlock_skip X scope v (map callStmt pre @ rest) i
     = emitBlock_skip X scope v (map callStmt pre) i"
  using assms
proof (induction pre arbitrary: i)
  case Nil
  then show ?case by simp
next
  case (Cons c pre)
  show ?case
  proof (cases "isDebug X c")
    case True
    then have "\<exists>c\<in>set pre. \<not> isDebug X c" using Cons.prems by auto
    from Cons.IH [OF this] show ?thesis using True by (simp add: callStmt_def isDebug_def)
  next
    case False
    then show ?thesis by (simp add: callStmt_def isDebug_def)
  qed
qed

lemma chain_append:
  "emitBlock_chain X ev scope typ ac (xs @ ys) v
   = bnd (emitBlock_chain X ev scope typ ac xs v) (emitBlock_chain X ev scope typ ac ys)"
proof (induction xs arbitrary: v)
  case Nil
  then show ?case by simp
next
  case (Cons stmt xs)
  then show ?case by (cases "Call stmt") simp_all
qed

lemma emitBlock_prefix:
  assumes "\<exists>c\<in>set pre. \<not> isDebug X c"
  shows "emitBlock X ev scope typ (map callStmt pre @ rest) ac
     = bnd (emitBlock X ev scope typ (map callStmt pre) ac) (emitBlock_chain X ev scope typ ac rest)"
proof -
  obtain source remaining where d: "dropWhile (isDebug X) pre = source # remaining"
    using assms by (cases "dropWhile (isDebug X) pre") auto
  let ?tk = "takeWhile (isDebug X) pre"
  have pre: "pre = ?tk @ source # remaining"
    using d takeWhile_dropWhile_id [of "isDebug X" pre] by simp
  have len: "length ?tk < length (map callStmt pre @ rest)"
    by (subst (2) pre) simp
  have nth: "(map callStmt pre @ rest) ! length ?tk = callStmt source"
    by (subst pre) (simp add: nth_append)
  have drp: "drop (length ?tk + 1) (map callStmt pre @ rest) = map callStmt remaining @ rest"
    by (subst pre) simp
  have l: "emitBlock X ev scope typ (map callStmt pre @ rest) ac
      = bnd (debugCalls scope (initialValue typ) ?tk) (\<lambda>_.
        bnd (debugHook scope (CallNode source) (initialValue typ)) (\<lambda>_.
        bnd (emitSourceStmt X ev scope typ source ac) (\<lambda>V.
        bnd (aliased ac source V) (\<lambda>_.
        emitBlock_chain X ev scope typ ac (map callStmt remaining @ rest) V))))"
    using d len nth drp
    by (simp add: emitBlock_def skip_prefix [OF assms] skip_calls index_def callStmt_def)
  show ?thesis
    unfolding l emitBlock_calls
    by (simp add: blockCalls_def sourceCalls_def d chain_append chain_calls)
qed

lemma chain_trivia_first:
  "Call t = None \<Longrightarrow> emitBlock_chain X ev scope typ ac (t # rest) v = throw (Panic NilDereference)"
  by simp

lemma chainCalls_debug:
  "\<forall>d\<in>set dbg. isDebug X d \<Longrightarrow>
   chainCalls X ev scope typ ac dbg v = bnd (debugCalls scope v dbg) (\<lambda>_. ret v)"
  by (induction dbg) (simp_all add: ret_def)

lemma trivia_after_debug:
  assumes "map Call stmts = map Some dbg @ None # rest" and "\<forall>d\<in>set dbg. isDebug X d"
  shows "emitBlock X ev scope typ stmts ac
     = bnd (debugCalls scope (initialValue typ) dbg) (\<lambda>_. throw (Panic NilDereference))"
proof -
  let ?stmts = "map callStmt dbg @ Stmt None None None # map (\<lambda>c. Stmt c None None) rest"
  have "map Call stmts = map Call ?stmts"
    using assms(1) by (simp add: callStmt_def comp_def)
  then have "emitBlock X ev scope typ stmts ac = emitBlock X ev scope typ ?stmts ac"
    by (rule emitBlock_Call)
  also have "\<dots> = bnd (debugCalls scope (initialValue typ) dbg) (\<lambda>_. throw (Panic NilDereference))"
    using skip_to_trivia [OF assms(2), of "Stmt None None None" scope "initialValue typ"
            "map (\<lambda>c. Stmt c None None) rest" 0]
    by (simp add: emitBlock_def)
  finally show ?thesis .
qed

lemma trivia_after_source:
  assumes "map Call stmts = map Some pre @ None # rest" and "\<exists>c\<in>set pre. \<not> isDebug X c"
  shows "emitBlock X ev scope typ stmts ac
     = bnd (emitBlock X ev scope typ (map callStmt pre) ac) (\<lambda>v. throw (Panic NilDereference))"
proof -
  let ?rest = "Stmt None None None # map (\<lambda>c. Stmt c None None) rest"
  have "map Call stmts = map Call (map callStmt pre @ ?rest)"
    using assms(1) by (simp add: callStmt_def comp_def)
  then have "emitBlock X ev scope typ stmts ac
      = emitBlock X ev scope typ (map callStmt pre @ ?rest) ac"
    by (rule emitBlock_Call)
  also have "\<dots> = bnd (emitBlock X ev scope typ (map callStmt pre) ac)
                      (emitBlock_chain X ev scope typ ac ?rest)"
    by (rule emitBlock_prefix [OF assms(2)])
  also have "emitBlock_chain X ev scope typ ac ?rest = (\<lambda>v. throw (Panic NilDereference))"
    by (rule ext) simp
  finally show ?thesis .
qed

lemma only_debug:
  assumes "map Call stmts = map Some (c # dbg)" and "\<forall>d\<in>set (c # dbg). isDebug X d"
  shows "emitBlock X ev scope typ stmts ac
     = bnd (debugCalls scope (initialValue typ) (c # dbg)) (\<lambda>_.
       bnd (debugHook scope (CallNode c) (initialValue typ)) (\<lambda>_.
       bnd (emitSourceStmt X ev scope typ c ac) (\<lambda>v.
       bnd (aliased ac c v) (\<lambda>_.
       bnd (debugCalls scope v dbg) (\<lambda>_. ret v)))))"
proof -
  have d: "dropWhile (isDebug X) (c # dbg) = []"
    using assms(2) by (simp only: dropWhile_eq_Nil_conv)
  have t: "takeWhile (isDebug X) (c # dbg) = c # dbg"
    using assms(2) by (simp only: takeWhile_eq_all_conv) 
  have ch: "chainCalls X ev scope typ ac dbg v = bnd (debugCalls scope v dbg) (\<lambda>_. ret v)" for v
    using assms(2) by (intro chainCalls_debug) simp
  show ?thesis
    unfolding emitBlock_calls_of [OF assms(1)] blockCalls_def d t sourceCalls_def
    by (simp add: ch)
qed


lemma debugCalls_silent:
  "\<forall>c. Debug s scope (CallNode c) v = None \<Longrightarrow> debugCalls scope v cs s = (Inr (), s)"
  by (induction cs) (simp_all add: debugHook_def bnd_def)



lemma fst_bnd_throw: "fst (m s) = Inr v \<Longrightarrow> fst (bnd m (\<lambda>v. throw e) s) = Inl e"
  by (cases "m s") (simp add: bnd_def)



subsection \<open>The block protocol of the spec\<close>

text \<open>
  The block evaluation of the spec (section 4.6), written from its words. It takes the
  meaning of the statements as given: \<open>source c\<close> evaluates a source statement to a value
  and \<open>chain c\<close> evaluates a chain statement to a function from the current accumulator to
  the next one. The accumulator starts as the identity of the block type; the leading debug
  calls are passed over after the debug hook; the first other statement is evaluated as a
  source statement and replaces the accumulator; each remaining statement that is no debug
  call is evaluated as a chain statement, whose function is applied to the accumulator;
  after any statement with an alias the alias callback gets the statement and the
  accumulator; the result is the final accumulator. The debug hook is called before each
  statement with the current accumulator. \<open>view\<close> shows an accumulator to the hook and the
  callback.
\<close>

definition spec_identity :: "ObjType \<Rightarrow> val" where
  "spec_identity typ = (if typ = Filesystem then VState Scratch else VStr [])"

definition spec_alias :: "aliasCallback \<Rightarrow> call_stmt \<Rightarrow> val \<Rightarrow> unit M" where
  "spec_alias ac c V = (case c_Alias c of None \<Rightarrow> ret () | Some a \<Rightarrow> modify (ac c V))"

fun spec_leading :: "Scope \<Rightarrow> aliasCallback \<Rightarrow> val \<Rightarrow> call_stmt list \<Rightarrow> unit M" where
  "spec_leading scope ac V [] = ret ()"
| "spec_leading scope ac V (c # cs) =
     bnd (debugHook scope (CallNode c) V) (\<lambda>_.
     bnd (spec_alias ac c V) (\<lambda>_.
     spec_leading scope ac V cs))"

fun spec_chainAll ::
  "extern \<Rightarrow> Scope \<Rightarrow> aliasCallback \<Rightarrow> (call_stmt \<Rightarrow> ('v \<Rightarrow> 'v M) M) \<Rightarrow> ('v \<Rightarrow> val)
     \<Rightarrow> call_stmt list \<Rightarrow> 'v \<Rightarrow> 'v M" where
  "spec_chainAll X scope ac chain view [] V = ret V"
| "spec_chainAll X scope ac chain view (c # cs) V =
     bnd (debugHook scope (CallNode c) (view V)) (\<lambda>_.
       if isDebug X c then
         bnd (spec_alias ac c (view V)) (\<lambda>_.
         spec_chainAll X scope ac chain view cs V)
       else
         bnd (chain c) (\<lambda>f.
         bnd (f V) (\<lambda>V'.
         bnd (spec_alias ac c (view V')) (\<lambda>_.
         spec_chainAll X scope ac chain view cs V'))))"

definition spec_block ::
  "extern \<Rightarrow> Scope \<Rightarrow> aliasCallback \<Rightarrow> 'v \<Rightarrow> (call_stmt \<Rightarrow> 'v M) \<Rightarrow> (call_stmt \<Rightarrow> ('v \<Rightarrow> 'v M) M)
     \<Rightarrow> ('v \<Rightarrow> val) \<Rightarrow> call_stmt list \<Rightarrow> 'v M" where
  "spec_block X scope ac identity source chain view calls =
     bnd (spec_leading scope ac (view identity) (takeWhile (isDebug X) calls)) (\<lambda>_.
       case dropWhile (isDebug X) calls of
         [] \<Rightarrow> ret identity
       | first # remaining \<Rightarrow>
           bnd (debugHook scope (CallNode first) (view identity)) (\<lambda>_.
           bnd (source first) (\<lambda>V.
           bnd (spec_alias ac first (view V)) (\<lambda>_.
           spec_chainAll X scope ac chain view remaining V))))"

text \<open>
  The builtins of the registry (section 4.4) that neither take nor are given a \<open>with\<close>
  clause, with the builder operation each stands for: the \<open>fs\<close> sources \<open>scratch\<close>,
  \<open>image\<close>, \<open>http\<close> and \<open>git\<close>, the \<open>fs\<close> chain builtins \<open>env\<close>, \<open>dir\<close>, \<open>user\<close>,
  \<open>entrypoint\<close>, \<open>mkdir\<close>, \<open>mkfile\<close> and \<open>rm\<close>, and the \<open>string\<close> sources \<open>value\<close> and
  \<open>format\<close>. The arguments are evaluated as expressions of the parameter types, from left
  to right. A call outside these has no meaning here.
\<close>

definition spec_fsSource :: "evaluators \<Rightarrow> Scope \<Rightarrow> call_stmt \<Rightarrow> State M option" where
  "spec_fsSource ev scope c =
     (if c_WithOpt c \<noteq> None then None
      else if Name (Func c) = ''scratch'' then
        (case Args c of [] \<Rightarrow> Some (ret Scratch) | _ \<Rightarrow> None)
      else if Name (Func c) = ''image'' then
        (case Args c of
           [a] \<Rightarrow> Some (bnd (emitStringExpr ev scope c a) (\<lambda>ref. ret (Image ref [])))
         | _ \<Rightarrow> None)
      else if Name (Func c) = ''http'' then
        (case Args c of
           [a] \<Rightarrow> Some (bnd (emitStringExpr ev scope c a) (\<lambda>url. ret (HTTP url [])))
         | _ \<Rightarrow> None)
      else if Name (Func c) = ''git'' then
        (case Args c of
           [a, b] \<Rightarrow>
             Some (bnd (emitStringExpr ev scope c a) (\<lambda>remote.
                   bnd (emitStringExpr ev scope c b) (\<lambda>ref. ret (Git remote ref []))))
         | _ \<Rightarrow> None)
      else None)"

definition spec_fsChain ::
  "evaluators \<Rightarrow> Scope \<Rightarrow> call_stmt \<Rightarrow> (State \<Rightarrow> State) M option" where
  "spec_fsChain ev scope c =
     (if c_WithOpt c \<noteq> None then None
      else if Name (Func c) = ''env'' then
        (case Args c of
           [a, b] \<Rightarrow>
             Some (bnd (emitStringExpr ev scope c a) (\<lambda>key.
                   bnd (emitStringExpr ev scope c b) (\<lambda>value.
                   ret (\<lambda>st. State_AddEnv st key value))))
         | _ \<Rightarrow> None)
      else if Name (Func c) = ''dir'' then
        (case Args c of
           [a] \<Rightarrow> Some (bnd (emitStringExpr ev scope c a) (\<lambda>path. ret (\<lambda>st. State_Dir st path)))
         | _ \<Rightarrow> None)
      else if Name (Func c) = ''user'' then
        (case Args c of
           [a] \<Rightarrow> Some (bnd (emitStringExpr ev scope c a) (\<lambda>name. ret (\<lambda>st. State_User st name)))
         | _ \<Rightarrow> None)
      else if Name (Func c) = ''entrypoint'' then
        Some (bnd (mapM (emitStringExpr ev scope c) (Args c)) (\<lambda>as.
              ret (\<lambda>st. State_Args st as)))
      else if Name (Func c) = ''mkdir'' then
        (case Args c of
           [a, b] \<Rightarrow>
             Some (bnd (emitStringExpr ev scope c a) (\<lambda>path.
                   bnd (emitIntExpr ev scope b) (\<lambda>m.
                   ret (\<lambda>st. State_File st (Mkdir path (os_FileMode m) [])))))
         | _ \<Rightarrow> None)
      else if Name (Func c) = ''mkfile'' then
        (case Args c of
           [a, b, d] \<Rightarrow>
             Some (bnd (emitStringExpr ev scope c a) (\<lambda>path.
                   bnd (emitIntExpr ev scope b) (\<lambda>m.
                   bnd (emitStringExpr ev scope c d) (\<lambda>content.
                   ret (\<lambda>st. State_File st (Mkfile path (os_FileMode m) content []))))))
         | _ \<Rightarrow> None)
      else if Name (Func c) = ''rm'' then
        (case Args c of
           [a] \<Rightarrow>
             Some (bnd (emitStringExpr ev scope c a) (\<lambda>path.
                   ret (\<lambda>st. State_File st (Rm path []))))
         | _ \<Rightarrow> None)
      else None)"

definition spec_strSource :: "extern \<Rightarrow> evaluators \<Rightarrow> Scope \<Rightarrow> call_stmt \<Rightarrow> string M option" where
  "spec_strSource X ev scope c =
     (if Name (Func c) = ''value'' then
        (case Args c of [a] \<Rightarrow> Some (emitStringExpr ev scope c a) | _ \<Rightarrow> None)
      else if Name (Func c) = ''format'' then
        (case Args c of
           [] \<Rightarrow> None
         | a # as \<Rightarrow>
             Some (bnd (emitStringExpr ev scope c a) (\<lambda>formatStr.
                   bnd (mapM (emitStringExpr ev scope c) as) (\<lambda>vs.
                   ret (Sprintf X formatStr vs)))))
      else None)"

text \<open>A pure chain function as the protocol takes it.\<close>

definition pureChain :: "('v \<Rightarrow> 'v) M \<Rightarrow> ('v \<Rightarrow> 'v M) M" where
  "pureChain m = bnd m (\<lambda>f. ret (\<lambda>V. ret (f V)))"

lemma fsSource_code:
  assumes "spec_fsSource ev scope c = Some m" and "Builtins X Filesystem (Name (Func c))"
  shows "emitSourceStmt X ev scope Filesystem c ac = bnd m (\<lambda>st. ret (VState st))"
  using assms
  by (auto simp: spec_fsSource_def emitSourceStmt_def emitFilesystemSourceStmt_def ret_def
         index_def split: if_splits list.splits)

lemma fsChain_code:
  assumes "spec_fsChain ev scope c = Some g"
  shows "emitFilesystemChainStmt X ev scope typ c ac = bnd g (\<lambda>f. ret (Some (\<lambda>st. ret (f st))))"
  using assms
  by (auto simp: spec_fsChain_def emitFilesystemChainStmt_def ret_def index_def
       split: if_splits list.splits)

lemma strSource_code:
  assumes "spec_strSource X ev scope c = Some m" and "Builtins X StrT (Name (Func c))"
  shows "emitSourceStmt X ev scope StrT c ac = bnd m (\<lambda>str. ret (VStr str))"
  using assms
  by (auto simp: spec_strSource_def emitSourceStmt_def emitStringSourceStmt_def ret_def
         index_def split: if_splits list.splits)


text \<open>
  The statements of a block are plain when the first that is no debug call is one of these
  sources, listed by the registry, and every later one that is no debug call is one of
  these chain builtins. No debug call of the blocks considered carries an alias.
\<close>

definition plainDebug :: "extern \<Rightarrow> call_stmt list \<Rightarrow> bool" where
  "plainDebug X calls = (\<forall>c\<in>set calls. isDebug X c \<longrightarrow> c_Alias c = None)"

definition plainFs :: "extern \<Rightarrow> evaluators \<Rightarrow> Scope \<Rightarrow> call_stmt list \<Rightarrow> bool" where
  "plainFs X ev scope calls =
     (case dropWhile (isDebug X) calls of
        [] \<Rightarrow> False
      | first # remaining \<Rightarrow>
          plainDebug X calls \<and>
          spec_fsSource ev scope first \<noteq> None \<and> Builtins X Filesystem (Name (Func first)) \<and>
          (\<forall>c\<in>set remaining. \<not> isDebug X c \<longrightarrow> spec_fsChain ev scope c \<noteq> None))"

definition plainStr :: "extern \<Rightarrow> evaluators \<Rightarrow> Scope \<Rightarrow> call_stmt list \<Rightarrow> bool" where
  "plainStr X ev scope calls =
     (case dropWhile (isDebug X) calls of
        [] \<Rightarrow> False
      | first # remaining \<Rightarrow>
          plainDebug X calls \<and>
          spec_strSource X ev scope first \<noteq> None \<and> Builtins X StrT (Name (Func first)))"

lemma spec_alias_code: "spec_alias ac c V = aliased ac c V"
  by (cases "c_Alias c") (simp_all add: spec_alias_def aliased_def)

lemma spec_alias_none: "c_Alias c = None \<Longrightarrow> spec_alias ac c V = ret ()"
  by (simp add: spec_alias_def)

lemma spec_leading_code:
  "\<forall>c\<in>set cs. c_Alias c = None \<Longrightarrow> spec_leading scope ac V cs = debugCalls scope V cs"
  by (induction cs) (simp_all add: spec_alias_none)

lemma plainDebug_parts:
  assumes "plainDebug X calls" and "dropWhile (isDebug X) calls = first # remaining"
  shows "\<forall>c\<in>set (takeWhile (isDebug X) calls). c_Alias c = None"
    and "\<forall>c\<in>set remaining. isDebug X c \<longrightarrow> c_Alias c = None"
proof -
  show "\<forall>c\<in>set (takeWhile (isDebug X) calls). c_Alias c = None"
    using assms(1) by (auto simp: plainDebug_def dest: set_takeWhileD)
  have "set remaining \<subseteq> set calls"
    using assms(2) set_dropWhileD [of _ "isDebug X" calls] by (metis list.set_intros(2) subsetI)
  then show "\<forall>c\<in>set remaining. isDebug X c \<longrightarrow> c_Alias c = None"
    using assms(1) by (auto simp: plainDebug_def)
qed

lemma spec_chainAll_code:
  "\<forall>c\<in>set cs. isDebug X c \<longrightarrow> c_Alias c = None \<Longrightarrow>
   spec_chainAll X scope ac (\<lambda>c. emitChainStmt X ev scope typ c ac) (\<lambda>V. V) cs V
   = chainCalls X ev scope typ ac cs V"
  by (induction cs arbitrary: V) (auto simp: spec_alias_code aliased_def)

lemma spec_block_code:
  assumes "\<exists>c\<in>set calls. \<not> isDebug X c" and "plainDebug X calls"
  shows "spec_block X scope ac (initialValue typ) (\<lambda>c. emitSourceStmt X ev scope typ c ac)
           (\<lambda>c. emitChainStmt X ev scope typ c ac) (\<lambda>V. V) calls
         = emitBlock X ev scope typ (map callStmt calls) ac"
proof -
  obtain first remaining where d: "dropWhile (isDebug X) calls = first # remaining"
    using assms(1) by (cases "dropWhile (isDebug X) calls") auto
  note pd = plainDebug_parts [OF assms(2) d]
  show ?thesis
    by (simp add: emitBlock_calls spec_block_def blockCalls_def sourceCalls_def d
          spec_leading_code [OF pd(1)] spec_chainAll_code [OF pd(2)] spec_alias_code)
qed

lemma fs_chain_step:
  assumes "spec_fsChain ev scope c = Some g"
  shows "bnd (emitChainStmt X ev scope Filesystem c ac) (\<lambda>chain. bnd (chain (VState st)) k)
       = bnd (pureChain g) (\<lambda>f. bnd (f st) (\<lambda>st'. k (VState st')))"
  by (simp add: emitChainStmt_def fsChain_code [OF assms] pureChain_def)

lemma fs_chainAll:
  assumes "\<forall>c\<in>set cs. \<not> isDebug X c \<longrightarrow> spec_fsChain ev scope c \<noteq> None"
    and "\<forall>c\<in>set cs. isDebug X c \<longrightarrow> c_Alias c = None"
  shows "chainCalls X ev scope Filesystem ac cs (VState st)
       = bnd (spec_chainAll X scope ac (\<lambda>c. pureChain (the (spec_fsChain ev scope c))) VState cs st)
           (\<lambda>st'. ret (VState st'))"
  using assms
proof (induction cs arbitrary: st)
  case Nil
  then show ?case by simp
next
  case (Cons c cs)
  have ih: "chainCalls X ev scope Filesystem ac cs (VState st')
       = bnd (spec_chainAll X scope ac (\<lambda>c. pureChain (the (spec_fsChain ev scope c))) VState cs st')
           (\<lambda>st'. ret (VState st'))" for st'
    using Cons by (simp add: ret_def)
  show ?case
  proof (cases "isDebug X c")
    case True
    then have "c_Alias c = None" using Cons.prems(2) by simp
    then show ?thesis using True by (simp add: ih spec_alias_none) (simp add: ret_def)
  next
    case False
    then obtain g where g: "spec_fsChain ev scope c = Some g" using Cons.prems by auto
    show ?thesis
      using False
      by (simp add: fs_chain_step [OF g] g ih spec_alias_code) (simp add: ret_def)
  qed
qed

lemma str_chain: "emitChainStmt X ev scope StrT c ac = throw (Panic (PanicMsg ''unimplemented''))"
  by (simp add: emitChainStmt_def emitStringChainStmt_def)

lemma str_chainAll:
  "\<forall>c\<in>set cs. isDebug X c \<longrightarrow> c_Alias c = None \<Longrightarrow>
   chainCalls X ev scope StrT ac cs V
   = spec_chainAll X scope ac (\<lambda>c. throw (Panic (PanicMsg ''unimplemented''))) (\<lambda>V. V) cs V"
  by (induction cs arbitrary: V) (simp_all add: str_chain spec_alias_none)

lemma str_chainAll_typed:
  "spec_chainAll X scope ac (\<lambda>c. throw (Panic (PanicMsg ''unimplemented''))) (\<lambda>V. V) cs (VStr str)
   = bnd (spec_chainAll X scope ac (\<lambda>c. throw (Panic (PanicMsg ''unimplemented''))) VStr cs str)
       (\<lambda>str'. ret (VStr str'))"
  by (induction cs arbitrary: str) (simp_all add: ret_def)

lemma fs_block:
  assumes "plainFs X ev scope calls"
  shows "emitBlock X ev scope Filesystem (map callStmt calls) ac
       = bnd (spec_block X scope ac Scratch (\<lambda>c. the (spec_fsSource ev scope c))
                (\<lambda>c. pureChain (the (spec_fsChain ev scope c))) VState calls)
           (\<lambda>st. ret (VState st))"
proof -
  from assms obtain first remaining m where
    d: "dropWhile (isDebug X) calls = first # remaining"
    and p: "plainDebug X calls"
    and m: "spec_fsSource ev scope first = Some m"
    and b: "Builtins X Filesystem (Name (Func first))"
    and r: "\<forall>c\<in>set remaining. \<not> isDebug X c \<longrightarrow> spec_fsChain ev scope c \<noteq> None"
    by (auto simp: plainFs_def split: list.splits)
  note pd = plainDebug_parts [OF p d]
  show ?thesis
    by (simp add: emitBlock_calls blockCalls_def sourceCalls_def spec_block_def d m
          fsSource_code [OF m b] fs_chainAll [OF r pd(2)] spec_leading_code [OF pd(1)]
          spec_alias_code initialValue_def)
qed

lemma str_block_any:
  assumes "\<exists>c\<in>set calls. \<not> isDebug X c" and "plainDebug X calls"
  shows "emitBlock X ev scope StrT (map callStmt calls) ac
       = spec_block X scope ac (VStr []) (\<lambda>c. emitSourceStmt X ev scope StrT c ac)
           (\<lambda>c. throw (Panic (PanicMsg ''unimplemented''))) (\<lambda>V. V) calls"
proof -
  obtain first remaining where d: "dropWhile (isDebug X) calls = first # remaining"
    using assms(1) by (cases "dropWhile (isDebug X) calls") auto
  note pd = plainDebug_parts [OF assms(2) d]
  show ?thesis
    by (simp add: emitBlock_calls blockCalls_def sourceCalls_def spec_block_def d
          str_chainAll [OF pd(2)] spec_leading_code [OF pd(1)] spec_alias_code initialValue_def)
qed

lemma str_block:
  assumes "plainStr X ev scope calls"
  shows "emitBlock X ev scope StrT (map callStmt calls) ac
       = bnd (spec_block X scope ac [] (\<lambda>c. the (spec_strSource X ev scope c))
                (\<lambda>c. throw (Panic (PanicMsg ''unimplemented''))) VStr calls)
           (\<lambda>str. ret (VStr str))"
proof -
  from assms obtain first remaining m where
    d: "dropWhile (isDebug X) calls = first # remaining"
    and p: "plainDebug X calls"
    and m: "spec_strSource X ev scope first = Some m"
    and b: "Builtins X StrT (Name (Func first))"
    by (auto simp: plainStr_def split: list.splits)
  note pd = plainDebug_parts [OF p d]
  show ?thesis
    by (simp add: emitBlock_calls blockCalls_def sourceCalls_def spec_block_def d m
          strSource_code [OF m b] str_chainAll [OF pd(2)] str_chainAll_typed
          spec_leading_code [OF pd(1)] spec_alias_code initialValue_def)
qed



text \<open>
  The blocks \<open>image "alpine"; env "A" "b"; breakpoint; dir "/x" as d; mkdir "/x" 0o755\<close> of
  type \<open>fs\<close> and \<open>format "hello %s" "world"; breakpoint\<close> of type \<open>string\<close>.
\<close>

definition plainCall :: "string \<Rightarrow> expr list \<Rightarrow> alias_decl option \<Rightarrow> call_stmt" where
  "plainCall name args alias = CallStmt noPos (NewIdent name) args None alias"

definition fsPlain :: "call_stmt list" where
  "fsPlain =
     [plainCall ''image'' [NewStringExpr ''alpine''] None,
      plainCall ''env'' [NewStringExpr ''A'', NewStringExpr ''b''] None,
      plainCall ''breakpoint'' [] None,
      plainCall ''dir'' [NewStringExpr ''/x''] (Some (AliasDecl (NewIdent ''d'') None None)),
      plainCall ''mkdir'' [NewStringExpr ''/x'', NewNumericExpr 493 8] None]"

definition strPlain :: "call_stmt list" where
  "strPlain =
     [plainCall ''format'' [NewStringExpr ''hello %s'', NewStringExpr ''world''] None,
      plainCall ''breakpoint'' [] None]"



subsection \<open>Identifiers of local sources\<close>

text \<open>
  \<open>issued\<close>: every key of \<open>Locals\<close> is an identifier that the generator has drawn. A state
  \<open>grows\<close> into another when the second keeps the entries of \<open>Locals\<close> and their having
  been drawn, provided the first has the property; a computation \<open>keeps\<close> the identifiers
  when every state grows into the one it leaves.
\<close>

definition issued :: "extern \<Rightarrow> env \<Rightarrow> bool" where
  "issued X s = (dom (Locals s) \<subseteq> NewID X ` {..<idgen s})"

definition grows :: "extern \<Rightarrow> env \<Rightarrow> env \<Rightarrow> bool" where
  "grows X s s' = (issued X s \<longrightarrow> issued X s' \<and> Locals s \<subseteq>\<^sub>m Locals s')"

definition keeps :: "extern \<Rightarrow> (env \<Rightarrow> 'r \<times> env) \<Rightarrow> bool" where
  "keeps X m = (\<forall>s. grows X s (snd (m s)))"

definition yields :: "('a \<Rightarrow> bool) \<Rightarrow> 'a M \<Rightarrow> bool" where
  "yields P m = (\<forall>s x s'. m s = (Inr x, s') \<longrightarrow> P x)"

definition acKeeps :: "extern \<Rightarrow> aliasCallback \<Rightarrow> bool" where
  "acKeeps X ac = (\<forall>c v s. grows X s (ac c v s))"

text \<open>The evaluators that are not among the sources are taken to keep the identifiers.\<close>

definition evKeeps :: "extern \<Rightarrow> evaluators \<Rightarrow> bool" where
  "evKeeps X ev =
     ((\<forall>scope call e. keeps X (emitStringExpr ev scope call e)) \<and>
      (\<forall>scope e. keeps X (emitIntExpr ev scope e)) \<and>
      (\<forall>scope args. keeps X (maybeEmitBoolExpr ev scope args)) \<and>
      (\<forall>scope call e ac. acKeeps X ac \<longrightarrow> keeps X (emitFilesystemExpr ev scope call e ac)) \<and>
      (\<forall>scope call op e. keeps X (emitOptionExpr ev scope call op e)) \<and>
      (\<forall>scope fn call op ac. acKeeps X ac \<longrightarrow> keeps X (emitFuncDecl ev scope fn call op ac)) \<and>
      (\<forall>scope a call. keeps X (emitAliasDecl ev scope a call)) \<and>
      (\<forall>scope fn call ac. acKeeps X ac \<longrightarrow> keeps X (emitFilesystemFuncDecl ev scope fn call ac)) \<and>
      (\<forall>scope a call. keeps X (emitFilesystemAliasDecl ev scope a call)))"

lemma grows_refl [simp]: "grows X s s"
  by (simp add: grows_def)

lemma grows_trans: "grows X s t \<Longrightarrow> grows X t u \<Longrightarrow> grows X s u"
  by (auto simp: grows_def intro: map_le_trans)

named_theorems keeps_intros

lemma keeps_ret [keeps_intros]: "keeps X (ret x)"
  by (simp add: keeps_def ret_def)

lemma keeps_throw [keeps_intros]: "keeps X (throw e)"
  by (simp add: keeps_def throw_def)

lemma keeps_Pair [keeps_intros, simp]: "keeps X (Pair r)"
  by (simp add: keeps_def)

lemma keeps_lift [keeps_intros]: "keeps X (lift r)"
  by (simp add: keeps_def lift_def)

lemma keeps_index [keeps_intros]: "keeps X (index xs i)"
  by (simp add: index_def keeps_ret keeps_throw)

lemma keeps_debugHook [keeps_intros]: "keeps X (debugHook scope n v)"
  by (simp add: keeps_def debugHook_def split: option.splits)

lemma keeps_bnd [keeps_intros]:
  assumes "keeps X m" and "\<And>x. keeps X (f x)"
  shows "keeps X (bnd m f)"
  unfolding keeps_def
proof
  fix s
  show "grows X s (snd (bnd m f s))"
  proof (cases "m s")
    case (Pair r s1)
    have 1: "grows X s s1" using assms(1) Pair by (auto simp: keeps_def dest: spec [of _ s])
    show ?thesis
    proof (cases r)
      case (Inl e)
      then show ?thesis using Pair 1 by (simp add: bnd_def)
    next
      case (Inr x)
      have "grows X s1 (snd (f x s1))" using assms(2) by (simp add: keeps_def)
      then show ?thesis using Pair Inr 1 by (auto simp: bnd_def intro: grows_trans)
    qed
  qed
qed

lemma keeps_bnd_yields:
  assumes "keeps X m" and "yields P m" and "\<And>x. P x \<Longrightarrow> keeps X (f x)"
  shows "keeps X (bnd m f)"
  unfolding keeps_def
proof
  fix s
  show "grows X s (snd (bnd m f s))"
  proof (cases "m s")
    case (Pair r s1)
    have 1: "grows X s s1" using assms(1) Pair by (auto simp: keeps_def dest: spec [of _ s])
    show ?thesis
    proof (cases r)
      case (Inl e)
      then show ?thesis using Pair 1 by (simp add: bnd_def)
    next
      case (Inr x)
      then have "P x" using assms(2) Pair by (auto simp: yields_def)
      then have "grows X s1 (snd (f x s1))" using assms(3) by (simp add: keeps_def)
      then show ?thesis using Pair Inr 1 by (auto simp: bnd_def intro: grows_trans)
    qed
  qed
qed

lemma keeps_modify [keeps_intros]: "acKeeps X ac \<Longrightarrow> keeps X (modify (ac c v))"
  by (simp add: keeps_def modify_def acKeeps_def)

lemma keeps_aliased [keeps_intros]: "acKeeps X ac \<Longrightarrow> keeps X (aliased ac c v)"
  by (simp add: aliased_def keeps_modify keeps_ret)

lemma keeps_mapM [keeps_intros]: "(\<And>x. keeps X (f x)) \<Longrightarrow> keeps X (mapM f xs)"
  by (induction xs) (auto intro!: keeps_intros)

lemma keeps_forStmts:
  "(\<And>c acc. Some c \<in> Call ` set stmts \<Longrightarrow> keeps X (f c acc)) \<Longrightarrow> keeps X (forStmts f stmts acc)"
proof (induction stmts arbitrary: acc)
  case Nil
  then show ?case by (simp add: keeps_ret)
next
  case (Cons stmt rest)
  have r: "keeps X (forStmts f rest a)" for a
    using Cons by auto
  show ?case
  proof (cases "Call stmt")
    case None
    then show ?thesis using r by simp
  next
    case (Some c)
    then have "keeps X (f c acc)" using Cons.prems [of c acc] by force
    then show ?thesis using Some r by (auto intro!: keeps_bnd)
  qed
qed

lemma keeps_forStmts_all [keeps_intros]:
  "(\<And>c acc. keeps X (f c acc)) \<Longrightarrow> keeps X (forStmts f stmts acc)"
  by (rule keeps_forStmts)

lemma evKeeps_string [keeps_intros]: "evKeeps X ev \<Longrightarrow> keeps X (emitStringExpr ev scope call e)"
  and evKeeps_int [keeps_intros]: "evKeeps X ev \<Longrightarrow> keeps X (emitIntExpr ev scope e)"
  and evKeeps_bool [keeps_intros]: "evKeeps X ev \<Longrightarrow> keeps X (maybeEmitBoolExpr ev scope args)"
  and evKeeps_fs [keeps_intros]:
    "evKeeps X ev \<Longrightarrow> acKeeps X ac \<Longrightarrow> keeps X (emitFilesystemExpr ev scope fcall e ac)"
  and evKeeps_option [keeps_intros]:
    "evKeeps X ev \<Longrightarrow> keeps X (emitOptionExpr ev scope call op e)"
  and evKeeps_func [keeps_intros]:
    "evKeeps X ev \<Longrightarrow> acKeeps X ac \<Longrightarrow> keeps X (emitFuncDecl ev scope fn call op ac)"
  and evKeeps_alias [keeps_intros]: "evKeeps X ev \<Longrightarrow> keeps X (emitAliasDecl ev scope a call)"
  by (simp_all add: evKeeps_def)

lemma keeps_option_emitters:
  assumes "evKeeps X ev"
  shows "keeps X (emitOptionDefault ev scope op c opts)"
    and "keeps X (createdTime X ev scope c opts)"
    and "keeps X (chown ev scope c opts)"
    and "keeps X (emitImageOptions X ev scope op stmts)"
    and "keeps X (emitHTTPOptions X ev scope op stmts)"
    and "keeps X (emitGitOptions X ev scope op stmts)"
    and "keeps X (emitLocalOptions X ev scope op stmts)"
    and "keeps X (emitMkdirOptions X ev scope op stmts)"
    and "keeps X (emitMkfileOptions X ev scope op stmts)"
    and "keeps X (emitRmOptions X ev scope op stmts)"
    and "keeps X (emitCopyOptions X ev scope op stmts)"
    and "keeps X (emitSSHOptions X ev scope op stmts)"
    and "keeps X (emitSecretOptions X ev scope op stmts)"
    and "keeps X (emitMountOptions X ev scope op stmts)"
  using assms
  by (auto simp: emitOptionDefault_def createdTime_def chown_def
        emitImageOptions_def emitImageOptions_stmt_def
        emitHTTPOptions_def emitHTTPOptions_stmt_def
        emitGitOptions_def emitGitOptions_stmt_def
        emitLocalOptions_def emitLocalOptions_stmt_def
        emitMkdirOptions_def emitMkdirOptions_stmt_def
        emitMkfileOptions_def emitMkfileOptions_stmt_def
        emitRmOptions_def emitRmOptions_stmt_def
        emitCopyOptions_def emitCopyOptions_stmt_def setCopyInfo_def
        emitSSHOptions_def emitSSHOptions_stmt_def
        emitSecretOptions_def emitSecretOptions_stmt_def
        emitMountOptions_def emitMountOptions_stmt_def
      intro!: keeps_intros)


lemma keeps_exec_stmt:
  assumes "evKeeps X ev" and "acKeeps X ac"
  shows "keeps X (emitExecOptions_stmt X ev scope op ac c iopts opts)"
  using assms keeps_option_emitters [OF assms(1)]
  by (auto simp: emitExecOptions_stmt_def intro!: keeps_intros)

lemma keeps_generate_options:
  assumes "evKeeps X ev" and "acKeeps X ac"
  shows "keeps X (emitGenerateOptions X ev scope op stmts ac)"
  using assms keeps_option_emitters [OF assms(1)]
  by (auto simp: emitGenerateOptions_def emitGenerateOptions_stmt_def intro!: keeps_intros)

lemma keeps_with_options:
  assumes "evKeeps X ev" and "acKeeps X ac"
  shows "keeps X (emitWithOption X ev scope parent wopt ac)"
    and "keeps X (emitOptions X ev scope op stmts ac)"
    and "keeps X (emitExecOptions X ev scope op stmts ac)"
  using assms
proof (induct X ev scope parent wopt ac and X ev scope op stmts ac and X ev scope op stmts ac
       rule: emitWithOption_emitOptions_emitExecOptions.induct)
  case (1 X ev scope parent wopt ac)
  then show ?case
    by (subst emitWithOption.simps)
       (auto intro!: keeps_intros split: option.splits ObjKind.splits val.splits)
next
  case (2 X ev scope op stmts ac)
  then show ?case
    using keeps_option_emitters [of X ev] keeps_generate_options [of X ev ac]
    by (subst emitOptions.simps) (auto intro!: keeps_intros)
next
  case (3 X ev scope op stmts ac)
  show ?case
    by (subst emitExecOptions.simps)
       (auto intro!: keeps_forStmts keeps_bnd keeps_exec_stmt 3)
qed


text \<open>
  The draw of \<open>local\<close>: from a state that has the property, a generator that never repeats an
  identifier gives one that is no key of \<open>Locals\<close> yet.
\<close>

lemma draw_fresh:
  assumes "inj (NewID X)" and "issued X s"
  shows "NewID X (idgen s) \<notin> dom (Locals s)"
proof
  assume "NewID X (idgen s) \<in> dom (Locals s)"
  then obtain k where "k < idgen s" "NewID X (idgen s) = NewID X k"
    using assms(2) by (auto simp: issued_def)
  then show False using assms(1) by (auto dest: injD)
qed

lemma draw_grows:
  assumes "inj (NewID X)"
  shows "grows X s (s\<lparr>idgen := Suc (idgen s), Locals := (Locals s)(NewID X (idgen s) \<mapsto> path)\<rparr>)"
  unfolding grows_def
proof (intro impI conjI)
  assume i: "issued X s"
  show "issued X (s\<lparr>idgen := Suc (idgen s), Locals := (Locals s)(NewID X (idgen s) \<mapsto> path)\<rparr>)"
    using i by (auto simp: issued_def less_Suc_eq)
  show "Locals s \<subseteq>\<^sub>m
        Locals (s\<lparr>idgen := Suc (idgen s), Locals := (Locals s)(NewID X (idgen s) \<mapsto> path)\<rparr>)"
    using draw_fresh [OF assms i] by (auto simp: map_le_def)
qed

lemma keeps_draw:
  assumes "inj (NewID X)" and "\<And>i. keeps X (k i)"
  shows "keeps X (bnd (newID X) (\<lambda>i. bnd (setLocal i path) (\<lambda>_. k i)))"
  unfolding keeps_def
proof
  fix s :: env
  let ?s = "s\<lparr>idgen := Suc (idgen s), Locals := (Locals s)(NewID X (idgen s) \<mapsto> path)\<rparr>"
  have "bnd (newID X) (\<lambda>i. bnd (setLocal i path) (\<lambda>_. k i)) s = k (NewID X (idgen s)) ?s"
    by (simp add: bnd_def newID_def setLocal_def modify_def)
  moreover have "grows X ?s (snd (k (NewID X (idgen s)) ?s))"
    using assms(2) by (simp add: keeps_def)
  ultimately show "grows X s (snd (bnd (newID X) (\<lambda>i. bnd (setLocal i path) (\<lambda>_. k i)) s))"
    using draw_grows [OF assms(1), of s path] by (auto intro: grows_trans)
qed

lemma keeps_local_case:
  assumes "inj (NewID X)" and "evKeeps X ev"
  shows "keeps X (bnd (index (Args call) 0) (\<lambda>a0.
         bnd (emitStringExpr ev scope call a0) (\<lambda>path.
         bnd (newID X) (\<lambda>i.
         bnd (setLocal i path) (\<lambda>_.
         bnd (lift (assertOptions X LocalOption iopts)) (\<lambda>opts.
         ret (Local i [])))))))"
  by (rule keeps_bnd, rule keeps_index, rule keeps_bnd, rule evKeeps_string [OF assms(2)],
      rule keeps_draw [OF assms(1)], rule keeps_bnd, rule keeps_lift, rule keeps_ret)

lemma keeps_fs_source:
  assumes "inj (NewID X)" and "evKeeps X ev" and "acKeeps X ac"
  shows "keeps X (emitFilesystemSourceStmt X ev scope call ac)"
  unfolding emitFilesystemSourceStmt_def
proof (rule keeps_bnd [OF keeps_with_options(1) [OF assms(2,3)]])
  fix iopts
  show "keeps X
          (if Name (Func call) = ''scratch'' then ret Scratch
           else if Name (Func call) = ''image'' then
             bnd (index (Args call) 0) (\<lambda>a0.
             bnd (emitStringExpr ev scope call a0) (\<lambda>ref.
             bnd (lift (assertOptions X ImageOption iopts)) (\<lambda>opts.
             ret (Image ref opts))))
           else if Name (Func call) = ''http'' then
             bnd (index (Args call) 0) (\<lambda>a0.
             bnd (emitStringExpr ev scope call a0) (\<lambda>url.
             bnd (lift (assertOptions X HTTPOption iopts)) (\<lambda>opts.
             ret (HTTP url opts))))
           else if Name (Func call) = ''git'' then
             bnd (index (Args call) 0) (\<lambda>a0.
             bnd (emitStringExpr ev scope call a0) (\<lambda>remote.
             bnd (index (Args call) 1) (\<lambda>a1.
             bnd (emitStringExpr ev scope call a1) (\<lambda>ref.
             bnd (lift (assertOptions X GitOption iopts)) (\<lambda>opts.
             ret (Git remote ref opts))))))
           else if Name (Func call) = ''local'' then
             bnd (index (Args call) 0) (\<lambda>a0.
             bnd (emitStringExpr ev scope call a0) (\<lambda>path.
             bnd (newID X) (\<lambda>i.
             bnd (setLocal i path) (\<lambda>_.
             bnd (lift (assertOptions X LocalOption iopts)) (\<lambda>opts.
             ret (Local i []))))))
           else if Name (Func call) = ''generate'' then
             bnd (index (Args call) 0) (\<lambda>a0.
             bnd (emitFilesystemExpr ev scope None a0 ac) (\<lambda>frontend.
             bnd (lift (assertOptions X FrontendOption iopts)) (\<lambda>opts.
             ret (Frontend frontend (IgnoreCache # opts)))))
           else throw (Panic (PanicMsg ''unknown fs source stmt'')))"
    using assms
    by (simp add: keeps_local_case) (auto intro!: keeps_intros)
qed

lemma keeps_str_source:
  assumes "evKeeps X ev"
  shows "keeps X (emitStringSourceStmt X ev scope call ac)"
  unfolding emitStringSourceStmt_def
  using assms by (auto intro!: keeps_intros)

lemma acKeeps_noop [simp]: "acKeeps X noopAliasCallback"
  by (simp add: acKeeps_def noopAliasCallback_def)

lemma keeps_source:
  assumes "inj (NewID X)" and "evKeeps X ev" and "acKeeps X ac"
  shows "keeps X (emitSourceStmt X ev scope typ call ac)"
  unfolding emitSourceStmt_def
  using assms keeps_fs_source [OF assms] keeps_str_source [OF assms(2)]
  by (auto intro!: keeps_intros split: option.splits node.splits)


named_theorems yields_intros

lemma yields_ret [yields_intros]: "P x \<Longrightarrow> yields P (ret x)"
  by (simp add: yields_def ret_def)

lemma yields_Pair [yields_intros]: "P x \<Longrightarrow> yields P (Pair (Inr x))"
  by (simp add: yields_def)

lemma yields_throw [yields_intros]: "yields P (throw e)"
  by (simp add: yields_def throw_def)

lemma yields_bnd [yields_intros]: "(\<And>x. yields P (f x)) \<Longrightarrow> yields P (bnd m f)"
  by (auto simp: yields_def bnd_def split: prod.splits sum.splits)

lemma keeps_runShlex:
  assumes "evKeeps X ev"
  shows "keeps X (runShlex X ev scope call)"
  unfolding runShlex_def using assms by (auto intro!: keeps_intros)

lemma keeps_runMounts_loop:
  assumes "evKeeps X ev"
  shows "keeps X (runMounts_loop ev scope call stmts acc)"
proof (induction stmts arbitrary: acc)
  case Nil
  then show ?case by (simp add: keeps_ret)
next
  case (Cons stmt rest)
  then show ?case
    using assms by (auto intro!: keeps_intros split: option.splits)
qed

lemma keeps_runMounts:
  assumes "evKeeps X ev"
  shows "keeps X (runMounts ev scope call)"
  unfolding runMounts_def
  using keeps_runMounts_loop [OF assms]
  by (auto intro!: keeps_intros split: option.splits)

lemma keeps_runClosure:
  assumes "acKeeps X ac"
  shows "keeps X (runClosure ac opts targets calls st)"
proof -
  have "grows X s (fold (\<lambda>t s'. case calls t of
                           Some c \<Rightarrow> ac c (VState (State_GetMount st opts t)) s'
                         | None \<Rightarrow> s') targets s)" for s
  proof (induction targets arbitrary: s)
    case Nil
    then show ?case by simp
  next
    case (Cons t targets)
    have "grows X s (case calls t of
                       Some c \<Rightarrow> ac c (VState (State_GetMount st opts t)) s | None \<Rightarrow> s)"
      using assms by (auto simp: acKeeps_def split: option.splits)
    then show ?case using Cons by (auto intro: grows_trans)
  qed
  then show ?thesis by (simp add: keeps_def runClosure_def)
qed

text \<open>The chain that a chain statement evaluates to keeps the identifiers as well.\<close>

definition keepsChain :: "extern \<Rightarrow> StateOption \<Rightarrow> bool" where
  "keepsChain X so = (case so of None \<Rightarrow> True | Some f \<Rightarrow> \<forall>st. keeps X (f st))"

lemma keeps_fs_chain:
  assumes "evKeeps X ev" and "acKeeps X ac"
  shows "keeps X (emitFilesystemChainStmt X ev scope typ call ac)"
  unfolding emitFilesystemChainStmt_def
  using assms keeps_with_options(1) [OF assms] keeps_runShlex [OF assms(1)]
    keeps_runMounts [OF assms(1)]
  by (auto intro!: keeps_intros)

lemma yields_fs_chain:
  assumes "acKeeps X ac"
  shows "yields (keepsChain X) (emitFilesystemChainStmt X ev scope typ call ac)"
  unfolding emitFilesystemChainStmt_def
  using keeps_runClosure [OF assms]
  by (auto intro!: yields_intros simp: keepsChain_def keeps_ret)

lemma keeps_chain:
  assumes "evKeeps X ev" and "acKeeps X ac"
  shows "keeps X (emitChainStmt X ev scope typ call ac)"
  unfolding emitChainStmt_def emitStringChainStmt_def
  using keeps_fs_chain [OF assms]
  by (auto intro!: keeps_intros)

lemma yields_chain:
  assumes "acKeeps X ac"
  shows "yields (\<lambda>chain. \<forall>v. keeps X (chain v)) (emitChainStmt X ev scope typ call ac)"
proof -
  have "yields (\<lambda>chain. \<forall>v. keeps X (chain v))
          (bnd (emitFilesystemChainStmt X ev scope typ call ac) (\<lambda>chain.
           ret (\<lambda>v. case v of
                   VState st \<Rightarrow>
                     (case chain of
                        None \<Rightarrow> throw (Panic NilDereference)
                      | Some so \<Rightarrow> bnd (so st) (\<lambda>st'. ret (VState st')))
                 | _ \<Rightarrow> throw (Panic TypeAssertion))))"
    unfolding yields_def
  proof (intro allI impI)
    fix s x s' v
    assume a: "bnd (emitFilesystemChainStmt X ev scope typ call ac) (\<lambda>chain.
           ret (\<lambda>v. case v of
                   VState st \<Rightarrow>
                     (case chain of
                        None \<Rightarrow> throw (Panic NilDereference)
                      | Some so \<Rightarrow> bnd (so st) (\<lambda>st'. ret (VState st')))
                 | _ \<Rightarrow> throw (Panic TypeAssertion))) s = (Inr x, s')"
    then obtain chain s1 where
      c: "emitFilesystemChainStmt X ev scope typ call ac s = (Inr chain, s1)"
      and x: "x = (\<lambda>v. case v of
                   VState st \<Rightarrow>
                     (case chain of
                        None \<Rightarrow> throw (Panic NilDereference)
                      | Some so \<Rightarrow> bnd (so st) (\<lambda>st'. ret (VState st')))
                 | _ \<Rightarrow> throw (Panic TypeAssertion))"
      by (auto simp: bnd_Inr_iff ret_Inr_iff simp del: ret_apply)
    have k: "keepsChain X chain"
      using yields_fs_chain [OF assms, of ev scope "typ" call] c by (auto simp: yields_def)
    show "keeps X (x v)"
      unfolding x using k
      by (cases v; cases chain) (auto simp: keepsChain_def intro!: keeps_intros)
  qed
  then show ?thesis
    unfolding emitChainStmt_def emitStringChainStmt_def
    by (auto intro!: yields_intros)
qed

lemma keeps_block_skip: "keeps X (emitBlock_skip X scope v stmts i)"
proof (induction stmts arbitrary: i)
  case Nil
  then show ?case by (simp add: keeps_ret)
next
  case (Cons stmt rest)
  then show ?case by (auto intro!: keeps_intros split: option.splits)
qed

lemma keeps_block_chain:
  assumes "evKeeps X ev" and "acKeeps X ac"
  shows "keeps X (emitBlock_chain X ev scope typ ac stmts v)"
proof (induction stmts arbitrary: v)
  case Nil
  then show ?case by (simp add: keeps_ret)
next
  case (Cons stmt rest)
  show ?case
  proof (cases "Call stmt")
    case None
    then show ?thesis by (simp add: keeps_throw)
  next
    case (Some call)
    have step: "keeps X (bnd (emitChainStmt X ev scope typ call ac) (\<lambda>chain.
                  bnd (chain v) (\<lambda>v'.
                  bnd (aliased ac call v') (\<lambda>_.
                  emitBlock_chain X ev scope typ ac rest v'))))"
      by (rule keeps_bnd_yields [OF keeps_chain [OF assms] yields_chain [OF assms(2)]])
         (auto intro!: keeps_bnd keeps_aliased assms Cons.IH)
    show ?thesis
      using Some step Cons.IH by (auto intro!: keeps_bnd keeps_debugHook)
  qed
qed

lemma keeps_block:
  assumes "inj (NewID X)" and "evKeeps X ev" and "acKeeps X ac"
  shows "keeps X (emitBlock X ev scope typ stmts ac)"
  unfolding emitBlock_def
  using keeps_block_skip keeps_source [OF assms] keeps_block_chain [OF assms(2,3)] assms(3)
  by (auto intro!: keeps_intros split: option.splits)

lemma keeps_fs_block:
  assumes "inj (NewID X)" and "evKeeps X ev" and "acKeeps X ac"
  shows "keeps X (emitFilesystemBlock X ev scope stmts ac)"
  unfolding emitFilesystemBlock_def
  using keeps_block [OF assms]
  by (auto intro!: keeps_intros split: val.splits)

lemma keeps_str_block:
  assumes "inj (NewID X)" and "evKeeps X ev"
  shows "keeps X (emitStringBlock X ev scope stmts)"
  unfolding emitStringBlock_def
  using keeps_block [OF assms acKeeps_noop]
  by (auto intro!: keeps_intros split: val.splits)

lemma keeps_funclit:
  assumes "inj (NewID X)" and "evKeeps X ev" and "acKeeps X ac"
  shows "keeps X (emitFuncLit X ev scope lit op ac)"
  unfolding emitFuncLit_def
  using keeps_fs_block [OF assms] keeps_str_block [OF assms(1,2)]
    keeps_with_options(2) [OF assms(2,3)]
  by (auto intro!: keeps_intros)


lemma grows_captured [simp]:
  "grows X (s\<lparr>captured := c\<rparr>) s' = grows X s s'"
  "grows X s (s'\<lparr>captured := c\<rparr>) = grows X s s'"
  by (simp_all add: grows_def issued_def)

lemma acKeeps_capture [simp]: "acKeeps X captureAlias"
  by (simp add: acKeeps_def captureAlias_def)

lemma acKeeps_capture_one [simp]:
  "acKeeps X (\<lambda>c v. if t = Some c then captureAlias c v else (\<lambda>s'. s'))"
  by (simp add: acKeeps_def captureAlias_def)

lemma keeps_topLevel: "keeps X m \<Longrightarrow> keeps X (topLevel m)"
  unfolding keeps_def topLevel_def
proof
  fix s
  assume a: "\<forall>s. grows X s (snd (m s))"
  have "snd (case m s of
               (Inl (Panic p), s') \<Rightarrow> (Inl p, s')
             | (Inl e, s') \<Rightarrow> (Inr (Scratch, Some e), s')
             | (Inr (VState st), s') \<Rightarrow> (Inr (st, None), s')
             | (Inr v, s') \<Rightarrow> (Inl TypeAssertion, s')) = snd (m s)"
    by (auto split: prod.splits sum.splits error.splits val.splits)
  then show "grows X s (snd (case m s of
               (Inl (Panic p), s') \<Rightarrow> (Inl p, s')
             | (Inl e, s') \<Rightarrow> (Inr (Scratch, Some e), s')
             | (Inr (VState st), s') \<Rightarrow> (Inr (st, None), s')
             | (Inr v, s') \<Rightarrow> (Inl TypeAssertion, s')))"
    using a by simp
qed

lemma keeps_as [keeps_intros]:
  "keeps X (asState v)" "keeps X (asString v)" "keeps X (asInt v)" "keeps X (asBool v)"
  "keeps X (asOptions v)"
  by (auto simp: asState_def asString_def asInt_def asBool_def asOptions_def
        intro!: keeps_intros split: val.splits)

lemma keeps_spec_ident:
  assumes "evKeeps X ev" and "acKeeps X ac"
  shows "keeps X (spec_identExpr X ev scope typ op ac i)"
  unfolding spec_identExpr_def
  using assms by (auto intro!: keeps_intros split: option.splits ObjKind.splits node.splits)

lemma keeps_spec_alias:
  assumes "evKeeps X ev"
  shows "keeps X (spec_emitAliasDecl X ev scope a call)"
proof (cases "a_Func a")
  case None
  then show ?thesis by (simp add: spec_emitAliasDecl_def keeps_throw)
next
  case (Some fn)
  let ?cb = "\<lambda>c v. if a_Call a = Some c then captureAlias c v else (\<lambda>s'. s')"
  have k: "keeps X (emitFuncDecl ev scope fn call [] ?cb)"
    using assms by (intro evKeeps_func) simp_all
  show ?thesis
    unfolding keeps_def
  proof
    fix s
    have "grows X (s\<lparr>captured := []\<rparr>)
            (snd (emitFuncDecl ev scope fn call [] ?cb (s\<lparr>captured := []\<rparr>)))"
      using k by (simp only: keeps_def)
    then show "grows X s (snd (spec_emitAliasDecl X ev scope a call s))"
      using Some by (auto simp: spec_emitAliasDecl_def split: prod.splits sum.splits)
  qed
qed

lemma keeps_spec_evaluators:
  assumes "inj (NewID X)" and "evKeeps X ev"
  shows "keeps X (spec_emitStringExpr X ev scope call e)"
    and "keeps X (spec_emitIntExpr X ev scope e)"
    and "keeps X (spec_maybeEmitBoolExpr X ev scope args)"
    and "acKeeps X ac \<Longrightarrow> keeps X (spec_emitFilesystemExpr X ev scope fcall e ac)"
    and "keeps X (spec_emitOptionExpr X ev scope call op e)"
proof -
  note i = keeps_spec_ident [OF assms(2)]
  note f = keeps_funclit [OF assms]
  show "keeps X (spec_emitStringExpr X ev scope call e)"
    unfolding spec_emitStringExpr_def using i f
    by (auto intro!: keeps_intros split: option.splits)
  show "keeps X (spec_emitIntExpr X ev scope e)"
    unfolding spec_emitIntExpr_def using i f
    by (auto intro!: keeps_intros split: option.splits)
  have b: "keeps X (spec_emitBoolExpr X ev scope e)" for e
    unfolding spec_emitBoolExpr_def using i f
    by (auto intro!: keeps_intros split: option.splits)
  show "keeps X (spec_maybeEmitBoolExpr X ev scope args)"
    unfolding spec_maybeEmitBoolExpr_def using b
    by (auto intro!: keeps_intros split: list.splits)
  show "keeps X (spec_emitFilesystemExpr X ev scope fcall e ac)" if "acKeeps X ac"
    unfolding spec_emitFilesystemExpr_def
    using i f keeps_fs_block [OF assms that] that
    by (auto intro!: keeps_intros split: option.splits)
  show "keeps X (spec_emitOptionExpr X ev scope call op e)"
    unfolding spec_emitOptionExpr_def using i f
    by (auto intro!: keeps_intros split: option.splits)
qed

lemma keeps_spec_func:
  assumes "inj (NewID X)" and "evKeeps X ev" and "acKeeps X ac"
  shows "keeps X (spec_emitFuncDecl X ev scope fn call op ac)"
proof -
  have b: "keeps X (spec_bindArg X ev scope call op ac pa)" for pa
    unfolding spec_bindArg_def using assms(2,3)
    by (auto intro!: keeps_intros)
  show ?thesis
    unfolding spec_emitFuncDecl_def
    using b keeps_fs_block [OF assms] keeps_str_block [OF assms(1,2)]
      keeps_with_options(2) [OF assms(2,3)]
    by (auto intro!: keeps_intros)
qed

lemma evKeeps_none: "evKeeps X noEvaluators"
  by (simp add: evKeeps_def noEvaluators_def keeps_throw keeps_topLevel)

lemma evKeeps_spec:
  assumes "inj (NewID X)"
  shows "evKeeps X (specEvaluators X n)"
proof (induction n)
  case 0
  then show ?case by (simp add: evKeeps_none)
next
  case (Suc n)
  show ?case
    unfolding evKeeps_def
    using keeps_spec_evaluators [OF assms Suc] keeps_spec_func [OF assms Suc]
      keeps_spec_alias [OF Suc]
    by (simp add: keeps_topLevel)
qed


lemma newID_Inr_iff:
  "(newID X s = (Inr i, s')) = (i = NewID X (idgen s) \<and> s' = s\<lparr>idgen := Suc (idgen s)\<rparr>)"
  by (auto simp: newID_def)

lemma local_call:
  assumes inj: "inj (NewID X)" and ev: "evKeeps X ev" and ac: "acKeeps X ac"
    and name: "Name (Func call) = ''local''" and i: "issued X s"
    and run: "emitFilesystemSourceStmt X ev scope call ac s = (Inr st, s')"
  shows "\<exists>n path a args t t'.
           st = Local (NewID X n) [] \<and> NewID X n \<notin> dom (Locals s) \<and>
           Locals s' (NewID X n) = Some path \<and>
           Args call = a # args \<and> emitStringExpr ev scope call a t = (Inr path, t') \<and>
           issued X s' \<and> Locals s \<subseteq>\<^sub>m Locals s'"
proof -
  from run name obtain iopts s1 path s2 where
    w: "emitWithOption X ev scope call (c_WithOpt call) ac s = (Inr iopts, s1)"
    and len: "0 < length (Args call)"
    and p: "emitStringExpr ev scope call (Args call ! 0) s1 = (Inr path, s2)"
    and st: "st = Local (NewID X (idgen s2)) []"
    and s': "s' = s2\<lparr>idgen := Suc (idgen s2), Locals := (Locals s2)(NewID X (idgen s2) \<mapsto> path)\<rparr>"
    by (auto simp: emitFilesystemSourceStmt_def bnd_Inr_iff index_Inr_iff newID_Inr_iff
          setLocal_def modify_Inr_iff lift_Inr_iff ret_Inr_iff simp del: ret_apply)
  obtain a args where args: "Args call = a # args"
    using len by (cases "Args call") auto
  have "grows X s s1"
    using keeps_with_options(1) [OF ev ac, of scope call "c_WithOpt call"] w
    by (auto simp: keeps_def dest: spec [of _ s])
  moreover have "grows X s1 s2"
    using evKeeps_string [OF ev, of scope call "Args call ! 0"] p
    by (auto simp: keeps_def dest: spec [of _ s1])
  ultimately have g: "grows X s s2" by (rule grows_trans)
  then have i2: "issued X s2" and m2: "Locals s \<subseteq>\<^sub>m Locals s2"
    using i by (auto simp: grows_def)
  have fresh: "NewID X (idgen s2) \<notin> dom (Locals s2)"
    using inj i2 by (rule draw_fresh)
  then have f: "NewID X (idgen s2) \<notin> dom (Locals s)"
    using m2 by (auto dest: map_le_implies_dom_le)
  have g': "grows X s2 s'"
    unfolding s' using inj by (rule draw_grows)
  then have "issued X s'" and "Locals s2 \<subseteq>\<^sub>m Locals s'"
    using i2 by (auto simp: grows_def)
  then have "issued X s'" and "Locals s \<subseteq>\<^sub>m Locals s'"
    using m2 by (auto intro: map_le_trans)
  moreover have "Locals s' (NewID X (idgen s2)) = Some path"
    by (simp add: s')
  ultimately show ?thesis
    using st f args p by (intro exI [of _ "idgen s2"] exI [of _ path] exI [of _ a]
        exI [of _ args] exI [of _ s1] exI [of _ s2]) simp
qed

lemma Generate_grows:
  assumes "evKeeps X ev"
    and "applyOptions opts (newInfo seed) = (None, info)"
    and "Generate X ev call fl opts seed = Inr (st, info', err)"
  shows "grows X info info'"
proof -
  have 1: "grows X info (snd (emitFilesystemFuncDecl ev scope n call noopAliasCallback info))"
    for scope n
    using assms(1) by (simp add: evKeeps_def keeps_def)
  have 2: "grows X info (snd (emitFilesystemAliasDecl ev scope n call info))" for scope n
    using assms(1) by (simp add: evKeeps_def keeps_def)
  show ?thesis
    using assms(2,3) 1 2
    by (auto simp: Generate_def Let_def
          split: option.splits ObjKind.splits node.splits if_splits prod.splits sum.splits
          dest: sndI)
qed




text \<open>The program \<open>fs default() { local "a"; copy fs { local "b"; } "/" "/"; }\<close>.\<close>

definition localA :: call_stmt where
  "localA = CallStmt noPos (NewIdent ''local'') [NewStringExpr ''a''] None None"

definition localB :: call_stmt where
  "localB = CallStmt noPos (NewIdent ''local'') [NewStringExpr ''b''] None None"

definition twoLocalsDecl :: func_decl where
  "twoLocalsDecl = FuncDecl noPos (NewType Filesystem) None (NewIdent ''default'') []
     (Some (BlockStmt
        [callStmt localA,
         callStmt (CallStmt noPos (NewIdent ''copy'')
                     [NewFuncLitExpr Filesystem [callStmt localB],
                      NewStringExpr ''/'', NewStringExpr ''/''] None None)]
        (Some (CloseBrace noPos))))"

definition twoLocalsFile :: File where
  "twoLocalsFile = File (Scope
     [(''default'', \<lparr>Kind = DeclKind, Node = FuncDeclNode twoLocalsDecl, Data = VNil\<rparr>)] None)"


subsection \<open>The stand-ins on examples\<close>

lemma sprintf_examples:
  \<open>sprintf ''%s is %q, %d%%'' [''a'', ''b'', ''c'', ''d'']
     = ''a is "b", %!d(string=c)%%!(EXTRA string=d)'' \<and>
   sprintf ''%s and %s, 100%'' [''a''] = ''a and %!s(MISSING), 100%!(NOVERB)'' \<and>
   sprintf ''%x'' [''hi''] = ''6869''\<close>
  by code_simp

lemma parseRFC3339_examples:
  "parseRFC3339 ''2001-09-09T01:46:40Z'' = Inr (GoTime 1000000000000000000) \<and>
   parseRFC3339 ''2020-02-29T23:59:59.5+01:00'' = Inr (GoTime 1583017199500000000) \<and>
   parseRFC3339 ''2021-02-29T23:59:59Z'' = Inl (ErrExternal ''parsing time: not RFC 3339'') \<and>
   parseRFC3339 ''2020-13-45T99:99:99Z'' = Inl (ErrExternal ''parsing time: not RFC 3339'')"
  by code_simp

lemma parseIP_examples:
  "parseIP ''10.0.0.1''
     = Some (replicate 10 (CHR 0x00) @ [CHR 0xFF, CHR 0xFF, CHR 0x0A, CHR 0x00, CHR 0x00, CHR 0x01]) \<and>
   parseIP ''::1'' = Some (replicate 15 (CHR 0x00) @ [CHR 0x01]) \<and>
   parseIP ''10.0.0.256'' = None \<and> parseIP ''localhost'' = None"
  by code_simp

text \<open>
  \<open>image "alpine"; run "true" with option { mount scratch "/m" with option { readonly; }; }\<close>:
  the item of \<open>readonly\<close> fails the assertion to \<open>llb.MountOption\<close>.
\<close>

definition readonlyMount :: "call_stmt list" where
  "readonlyMount =
     [CallStmt noPos (NewIdent ''image'') [NewStringExpr ''alpine''] None None,
      CallStmt noPos (NewIdent ''run'') [NewStringExpr ''true'']
        (Some (NewWithFuncLit
           [callStmt (CallStmt noPos (NewIdent ''mount'')
                        [NewIdentExpr ''scratch'', NewStringExpr ''/m'']
                        (Some (NewWithFuncLit [NewCallStmt ''readonly'' [] None None])) None)]))
        None]"

lemma readonly_mount_panics:
  "fst (emitBlock stdExtern (specEvaluators stdExtern (Suc (Suc 0))) (Scope [] None)
          Filesystem (map callStmt readonlyMount) noopAliasCallback (newInfo 0))
     = Inl (Panic TypeAssertion)"
  by code_simp

end
